(* ===== verification/Prelude.thy ===== *)
theory Prelude
  imports Main "HOL-Library.AList" "HOL-Library.Word" "HOL-Library.Option_ord" "HOL-Library.Monad_Syntax"
begin

text \<open>
  What every component shares: the reading of Rust strings, characters, maps, loops and
  machine integers, and the collections of simplification rules the component proofs use.

  A Rust \<open>String\<close>/\<open>&str\<close> is the list of its UTF-8 bytes, so \<open>s.len()\<close> is \<^const>\<open>length\<close>, and
  \<open>s.chars()\<close> is \<open>rust_chars\<close>, which groups a lead byte with its continuation bytes: a Rust
  \<open>char\<close> is the byte group of one scalar value.  A function that only looks at ASCII characters
  sees the same thing byte by byte.

  A \<open>HashMap\<close>/\<open>HashSet\<close> that the code iterates or measures is an association list (a list),
  whose order stands for the unspecified iteration order; \<open>insert\<close> is \<^const>\<open>AList.update\<close>,
  \<open>remove\<close> is \<^const>\<open>AList.delete\<close> and \<open>get\<close> is \<^const>\<open>map_of\<close>.  Theorems over all such lists
  hold for every iteration order.
\<close>

section \<open>Collections of simplification rules\<close>

named_theorems hash_simps "lookups after an insert, a remove or a loop over a hash table"
named_theorems view_simps "the observable content of a replicated value after an operation"
named_theorems inv_intros "preservation of the well-formedness invariants"

section \<open>Ordering\<close>

datatype ordering = Less | Equal | Greater

fun then_ord :: "ordering \<Rightarrow> ordering \<Rightarrow> ordering" where
  "then_ord Equal o2 = o2"
| "then_ord Less _ = Less"
| "then_ord Greater _ = Greater"

definition cmp_of :: "'a::linorder \<Rightarrow> 'a \<Rightarrow> ordering" where
  "cmp_of a b = (if a < b then Less else if a = b then Equal else Greater)"

lemma cmp_of_simps [simp]:
  "cmp_of a b = Less \<longleftrightarrow> a < b"
  "cmp_of a b = Equal \<longleftrightarrow> a = b"
  "cmp_of a b = Greater \<longleftrightarrow> b < a"
  by (auto simp: cmp_of_def)

lemma then_ord_eq [simp]:
  "then_ord x y = Less \<longleftrightarrow> x = Less \<or> (x = Equal \<and> y = Less)"
  "then_ord x y = Equal \<longleftrightarrow> x = Equal \<and> y = Equal"
  "then_ord x y = Greater \<longleftrightarrow> x = Greater \<or> (x = Equal \<and> y = Greater)"
  by (cases x; auto)+

section \<open>Machine integers\<close>

text \<open>\<open>saturating_add(1)\<close> on an unsigned machine integer.\<close>

definition saturating_inc :: "'a::len word \<Rightarrow> 'a word" where
  "saturating_inc c = (if c = -1 then c else c + 1)"

lemma saturating_inc_gt: "c \<noteq> -1 \<Longrightarrow> c < saturating_inc c"
  using inc_less_eq_self_iff_eq [of c] by (auto simp: saturating_inc_def not_le [symmetric])

lemma saturating_inc_ge [simp]: "c \<le> saturating_inc c"
  using saturating_inc_gt [of c] by (cases "c = -1") (auto simp: saturating_inc_def)

text \<open>An \<open>i64\<close> result of a multiplication in the release profile (overflow checks off).\<close>

definition wrap_i64 :: "int \<Rightarrow> int" where
  "wrap_i64 x = (x + 2 ^ 63) mod 2 ^ 64 - 2 ^ 63"

lemma wrap_i64_id: "\<lbrakk>- (2 ^ 63) \<le> x; x < 2 ^ 63\<rbrakk> \<Longrightarrow> wrap_i64 x = x"
  by (simp add: wrap_i64_def)

section \<open>Characters of a string\<close>

definition byte_of :: "char \<Rightarrow> nat" where
  "byte_of c = of_char c"

definition is_cont :: "char \<Rightarrow> bool" where
  "is_cont c \<longleftrightarrow> 128 \<le> byte_of c \<and> byte_of c < 192"

function rust_chars :: "string \<Rightarrow> string list" where
  "rust_chars [] = []"
| "rust_chars (c # cs) = (c # takeWhile is_cont cs) # rust_chars (dropWhile is_cont cs)"
  by pat_completeness auto
termination
  by (relation "measure length") (auto simp: less_Suc_eq_le length_dropWhile_le)

lemma concat_rust_chars [simp]: "concat (rust_chars s) = s"
  by (induction s rule: rust_chars.induct) auto

lemma rust_chars_ascii: "\<forall>c \<in> set s. byte_of c < 128 \<Longrightarrow> rust_chars s = map (\<lambda>c. [c]) s"
proof (induction s rule: rust_chars.induct)
  case (2 c cs)
  have "takeWhile is_cont cs = []" "dropWhile is_cont cs = cs"
    using 2(2) by (cases cs; force simp: is_cont_def)+
  then show ?case using 2 by simp
qed simp

text \<open>The byte group of one character.\<close>

definition is_rust_char :: "string \<Rightarrow> bool" where
  "is_rust_char g \<longleftrightarrow> g \<noteq> [] \<and> \<not> is_cont (hd g) \<and> list_all is_cont (tl g)"

lemma rust_chars_concat: "list_all is_rust_char gs \<Longrightarrow> rust_chars (concat gs) = gs"
proof (induction gs)
  case (Cons g gs)
  obtain c cs where g: "g = c # cs" "list_all is_cont cs"
    using Cons.prems by (cases g) (auto simp: is_rust_char_def)
  have "concat gs = [] \<or> \<not> is_cont (hd (concat gs))"
    using Cons.prems by (cases gs) (auto simp: is_rust_char_def)
  then have "takeWhile is_cont (cs @ concat gs) = cs" "dropWhile is_cont (cs @ concat gs) = concat gs"
    using g(2) by (auto simp: takeWhile_append2 dropWhile_append2 list_all_iff takeWhile_eq_Nil_iff dropWhile_eq_self_iff)
  then show ?case using Cons g by simp
qed simp

section \<open>Splitting and numbers\<close>

text \<open>\<open>str::split_once\<close> and \<open>str::rsplit_once\<close> with an ASCII separator.\<close>

definition split_once :: "char \<Rightarrow> string \<Rightarrow> (string \<times> string) option" where
  "split_once c s =
    (if c \<in> set s then Some (takeWhile (\<lambda>x. x \<noteq> c) s, tl (dropWhile (\<lambda>x. x \<noteq> c) s)) else None)"

definition rsplit_once :: "char \<Rightarrow> string \<Rightarrow> (string \<times> string) option" where
  "rsplit_once c s = map_option (\<lambda>(a, b). (rev b, rev a)) (split_once c (rev s))"

lemma split_once_append: "c \<notin> set a \<Longrightarrow> split_once c (a @ c # b) = Some (a, b)"
  by (induction a) (auto simp: split_once_def)

lemma rsplit_once_append: "c \<notin> set b \<Longrightarrow> rsplit_once c (a @ c # b) = Some (a, b)"
  using split_once_append [of c "rev b" "rev a"] by (simp add: rsplit_once_def)

text \<open>\<open>str::split\<close> with an ASCII separator.\<close>

fun split_on :: "char \<Rightarrow> string \<Rightarrow> string list" where
  "split_on sep [] = [[]]"
| "split_on sep (c # cs) =
    (if c = sep then [] # split_on sep cs
     else case split_on sep cs of [] \<Rightarrow> [[c]] | w # ws \<Rightarrow> (c # w) # ws)"

text \<open>\<open>Vec<String>::join\<close>.\<close>

fun join_with :: "string \<Rightarrow> string list \<Rightarrow> string" where
  "join_with sep [] = []"
| "join_with sep [x] = x"
| "join_with sep (x # xs) = x @ sep @ join_with sep xs"

text \<open>\<open>str::parse\<close> for an unsigned integer type with maximum \<open>mx\<close>, and decimal printing.\<close>

definition is_ascii_digit :: "char \<Rightarrow> bool" where
  "is_ascii_digit c \<longleftrightarrow> 48 \<le> byte_of c \<and> byte_of c \<le> 57"

definition digits_value :: "string \<Rightarrow> nat" where
  "digits_value ds = foldl (\<lambda>acc c. acc * 10 + (byte_of c - 48)) 0 ds"

definition parse_uint :: "nat \<Rightarrow> string \<Rightarrow> nat option" where
  "parse_uint mx s =
    (let ds = (case s of [] \<Rightarrow> [] | c # cs \<Rightarrow> if c = CHR ''+'' then cs else s)
     in if ds = [] \<or> \<not> list_all is_ascii_digit ds then None
        else if digits_value ds \<le> mx then Some (digits_value ds) else None)"

fun show_nat :: "nat \<Rightarrow> string" where
  "show_nat n = (if n < 10 then [char_of (48 + n)] else show_nat (n div 10) @ [char_of (48 + n mod 10)])"

declare show_nat.simps [simp del]

lemma byte_of_digit: "d < 10 \<Longrightarrow> byte_of (char_of (48 + d)) = 48 + d"
  by (simp add: byte_of_def)

lemma show_nat_digits: "list_all is_ascii_digit (show_nat n)"
proof (induction n rule: show_nat.induct)
  case (1 n)
  have "d < 10 \<Longrightarrow> is_ascii_digit (char_of (48 + d))" for d :: nat
    by (simp add: is_ascii_digit_def byte_of_digit)
  then show ?case using 1 by (subst show_nat.simps) simp
qed

lemma digits_value_snoc: "digits_value (ds @ [c]) = digits_value ds * 10 + (byte_of c - 48)"
  by (simp add: digits_value_def)

lemma digits_value_show [simp]: "digits_value (show_nat n) = n"
proof (induction n rule: show_nat.induct)
  case (1 n)
  show ?case
  proof (cases "n < 10")
    case True
    then show ?thesis by (subst show_nat.simps) (simp add: digits_value_def byte_of_digit)
  next
    case False
    have "digits_value (show_nat n) = digits_value (show_nat (n div 10)) * 10 + n mod 10"
      using False by (subst show_nat.simps) (simp add: digits_value_snoc byte_of_digit)
    then show ?thesis using 1 False by simp
  qed
qed

lemma show_nat_nonempty [simp]: "show_nat n \<noteq> []"
  by (subst show_nat.simps) simp

lemma not_digit: "\<not> is_ascii_digit CHR ''+''" "\<not> is_ascii_digit CHR '':''"
  by (simp_all add: is_ascii_digit_def byte_of_def)

lemma parse_show: "n \<le> mx \<Longrightarrow> parse_uint mx (show_nat n) = Some n"
proof -
  assume "n \<le> mx"
  moreover obtain c cs where c: "show_nat n = c # cs" by (cases "show_nat n") auto
  then have "c \<noteq> CHR ''+''" using show_nat_digits [of n] not_digit by auto
  ultimately show ?thesis
    using show_nat_digits [of n] digits_value_show [of n] c by (simp add: parse_uint_def)
qed

section \<open>Loops over hash tables\<close>

lemma map_of_alist_update [hash_simps]: "map_of (AList.update k v al) = (map_of al)(k \<mapsto> v)"
  by (rule update_conv')

lemma map_of_alist_delete [hash_simps]: "map_of (AList.delete k al) = (map_of al)(k := None)"
  by (rule delete_conv')

abbreviation keys :: "('k \<times> 'v) list \<Rightarrow> 'k list" where
  "keys al \<equiv> map fst al"

lemma keys_update [hash_simps]: "set (keys (AList.update k v al)) = insert k (set (keys al))"
  using dom_update [of k v al] by simp

lemma keys_delete [hash_simps]: "set (keys (AList.delete k al)) = set (keys al) - {k}"
  by (auto simp: delete_keys)

lemma map_of_None_iff: "map_of al k = None \<longleftrightarrow> k \<notin> set (keys al)"
  by (simp add: map_of_eq_None_iff)

lemma map_of_Some_key: "map_of al k = Some v \<Longrightarrow> k \<in> set (keys al)"
  using map_of_None_iff [of al k] by auto

text \<open>
  A loop over the entries of a hash table whose body reads and writes only the key it visits.
  Its result is pointwise, whatever the iteration order.
\<close>

locale keyed_loop =
  fixes step :: "'k \<times> 'v \<Rightarrow> 's \<Rightarrow> 's"
    and lookup :: "'s \<Rightarrow> 'k \<Rightarrow> 'c"
    and upd :: "'v \<Rightarrow> 'c \<Rightarrow> 'c"
  assumes lookup_step: "lookup (step (k, v) s) j = (if j = k then upd v (lookup s k) else lookup s j)"
begin

lemma lookup_fold:
  assumes "distinct (keys al)"
  shows "lookup (fold step al s) k =
    (case map_of al k of None \<Rightarrow> lookup s k | Some v \<Rightarrow> upd v (lookup s k))"
  using assms
proof (induction al arbitrary: s)
  case (Cons e al)
  obtain j v where e: "e = (j, v)" by (cases e)
  show ?case
  proof (cases "j = k")
    case True
    have "map_of al k = None" using Cons.prems e True by (simp add: map_of_eq_None_iff)
    then show ?thesis using Cons e True by (simp add: lookup_step)
  next
    case False
    then show ?thesis using Cons e by (simp add: lookup_step split: option.split)
  qed
qed simp

end

end
