(* ===== verification/Casemap.thy ===== *)
theory Casemap
  imports Prelude
begin

text \<open>
  \<open>crates/slirc-proto/src/casemap.rs\<close>: the RFC 1459 case mapping.  A character is its UTF-8 byte
  group (\<^const>\<open>rust_chars\<close>); the mapping touches one-byte groups only.
\<close>

section \<open>Definitions\<close>

definition irc_lower_byte :: "char \<Rightarrow> char" where
  "irc_lower_byte c =
    (if c = CHR ''['' then CHR ''{''
     else if c = CHR '']'' then CHR ''}''
     else if c = CHR 0x5C then CHR ''|''
     else if c = CHR ''~'' then CHR ''^''
     else if 65 \<le> byte_of c \<and> byte_of c \<le> 90 then char_of (byte_of c + 32)
     else c)"

fun irc_lower_char :: "string \<Rightarrow> string" where
  "irc_lower_char [c] = [irc_lower_byte c]"
| "irc_lower_char g = g"

definition irc_to_lower :: "string \<Rightarrow> string" where
  "irc_to_lower s = concat (map irc_lower_char (rust_chars s))"

definition irc_eq :: "string \<Rightarrow> string \<Rightarrow> bool" where
  "irc_eq a b \<longleftrightarrow>
    (if length a \<noteq> length b then False
     else list_all (\<lambda>(ca, cb). irc_lower_char ca = irc_lower_char cb) (zip (rust_chars a) (rust_chars b)))"

text \<open>The byte groups of a valid string: an ASCII byte, or a lead byte and its continuation bytes.\<close>

definition char_ok :: "string \<Rightarrow> bool" where
  "char_ok g \<longleftrightarrow> (length g = 1 \<and> byte_of (hd g) < 128) \<or> (2 \<le> length g \<and> length g \<le> 4 \<and> 192 \<le> byte_of (hd g))"

definition utf8 :: "string \<Rightarrow> bool" where
  "utf8 s \<longleftrightarrow> list_all char_ok (rust_chars s)"

section \<open>Bytes\<close>

lemma byte_of_char_of [simp]: "n < 256 \<Longrightarrow> byte_of (char_of n) = n"
  by (simp add: byte_of_def)

lemma byte_of_lt [simp]: "byte_of c < 256"
  by (simp add: byte_of_def)

lemma byte_of_eq_iff: "byte_of c = byte_of d \<longleftrightarrow> c = d"
  by (simp add: byte_of_def)

lemma irc_lower_byte_byte:
  "byte_of (irc_lower_byte c) =
    (if byte_of c = 91 then 123 else if byte_of c = 93 then 125 else if byte_of c = 92 then 124
     else if byte_of c = 126 then 94 else if 65 \<le> byte_of c \<and> byte_of c \<le> 90 then byte_of c + 32
     else byte_of c)"
proof -
  have eqs: "c = CHR ''['' \<longleftrightarrow> byte_of c = 91" "c = CHR '']'' \<longleftrightarrow> byte_of c = 93"
    "c = CHR 0x5C \<longleftrightarrow> byte_of c = 92" "c = CHR ''~'' \<longleftrightarrow> byte_of c = 126"
    by (simp_all add: byte_of_eq_iff [symmetric]) (simp_all add: byte_of_def)
  show ?thesis unfolding irc_lower_byte_def eqs by (simp add: byte_of_def)
qed

lemma irc_lower_byte_idem [simp]: "irc_lower_byte (irc_lower_byte c) = irc_lower_byte c"
  by (simp add: byte_of_eq_iff [symmetric] irc_lower_byte_byte)

lemma irc_lower_byte_high: "128 \<le> byte_of c \<Longrightarrow> irc_lower_byte c = c"
  by (simp add: byte_of_eq_iff [symmetric] irc_lower_byte_byte)

lemma is_cont_lower [simp]: "is_cont (irc_lower_byte c) = is_cont c"
  by (simp add: is_cont_def irc_lower_byte_byte)

section \<open>Strings\<close>

lemma rust_chars_map:
  assumes "\<And>c. is_cont (f c) = is_cont c"
  shows "rust_chars (map f s) = map (map f) (rust_chars s)"
  by (induction s rule: rust_chars.induct)
     (simp_all add: takeWhile_map dropWhile_map comp_def assms)

lemma irc_lower_char_map: "char_ok g \<Longrightarrow> list_all is_cont (tl g) \<Longrightarrow> irc_lower_char g = map irc_lower_byte g"
  by (cases g rule: irc_lower_char.cases)
     (auto simp: char_ok_def irc_lower_byte_high list_all_iff is_cont_def map_idI)

lemma rust_chars_tl: "g \<in> set (rust_chars s) \<Longrightarrow> list_all is_cont (tl g)"
  by (induction s rule: rust_chars.induct) (auto simp: list_all_iff dest: set_takeWhileD)

lemma rust_chars_nonempty: "g \<in> set (rust_chars s) \<Longrightarrow> g \<noteq> []"
  by (induction s rule: rust_chars.induct) auto

lemma map_lower_chars: "utf8 s \<Longrightarrow> map irc_lower_char (rust_chars s) = map (map irc_lower_byte) (rust_chars s)"
  using irc_lower_char_map rust_chars_tl by (auto simp: utf8_def list_all_iff)

lemma irc_to_lower_bytes: "utf8 s \<Longrightarrow> irc_to_lower s = map irc_lower_byte s"
  by (simp add: irc_to_lower_def map_lower_chars flip: map_concat)

lemma rust_chars_to_lower: "utf8 s \<Longrightarrow> rust_chars (irc_to_lower s) = map irc_lower_char (rust_chars s)"
  by (simp add: irc_to_lower_bytes rust_chars_map map_lower_chars)

lemma char_ok_lower [simp]: "char_ok g \<Longrightarrow> char_ok (irc_lower_char g)"
  by (cases g rule: irc_lower_char.cases) (auto simp: char_ok_def irc_lower_byte_byte)

lemma utf8_to_lower [simp]: "utf8 s \<Longrightarrow> utf8 (irc_to_lower s)"
  by (simp add: utf8_def rust_chars_to_lower list_all_iff)

lemma irc_to_lower_length [simp]: "length (irc_to_lower s) = length s"
proof -
  have "length (irc_lower_char g) = length g" for g by (cases g rule: irc_lower_char.cases) auto
  then have "length (irc_to_lower s) = length (concat (rust_chars s))"
    unfolding irc_to_lower_def length_concat by (simp add: comp_def)
  then show ?thesis by simp
qed

lemma irc_lower_char_idem [simp]: "irc_lower_char (irc_lower_char g) = irc_lower_char g"
  by (cases g rule: irc_lower_char.cases) auto

text \<open>Two lists of non-empty groups with the same total length that agree as far as the shorter
  one goes are equal.\<close>

lemma zip_eq_concat_length:
  assumes "list_all (\<lambda>(x, y). x = y) (zip xs ys)" "length (concat xs) = length (concat ys)"
    "[] \<notin> set xs" "[] \<notin> set ys"
  shows "xs = ys"
  using assms
proof (induction xs arbitrary: ys)
  case (Cons x xs)
  then show ?case by (cases ys) auto
next
  case Nil
  then show ?case by (cases ys) auto
qed

lemma zip_map_eq: "map f xs = map f ys \<Longrightarrow> list_all (\<lambda>(x, y). f x = f y) (zip xs ys)"
proof (induction xs arbitrary: ys)
  case (Cons x xs)
  then show ?case by (cases ys) auto
qed simp

lemma irc_eq_lower: "utf8 a \<Longrightarrow> utf8 b \<Longrightarrow> irc_eq a b \<longleftrightarrow> irc_to_lower a = irc_to_lower b"
proof
  assume u: "utf8 a" "utf8 b"
  let ?A = "map irc_lower_char (rust_chars a)" and ?B = "map irc_lower_char (rust_chars b)"
  have nonempty: "[] \<notin> set (map irc_lower_char (rust_chars s))" if "utf8 s" for s
    using rust_chars_nonempty [of _ s] that by (auto simp: map_lower_chars)
  {
    assume "irc_eq a b"
    then have "list_all (\<lambda>(x, y). x = y) (zip ?A ?B)" "length a = length b"
      by (auto simp: irc_eq_def list_all_iff zip_map_map split: if_splits)
    then have "?A = ?B"
      using u nonempty irc_to_lower_length [of a] irc_to_lower_length [of b]
      by (intro zip_eq_concat_length) (auto simp: irc_to_lower_def)
    then show "irc_to_lower a = irc_to_lower b" by (simp add: irc_to_lower_def)
  }
  {
    assume eq: "irc_to_lower a = irc_to_lower b"
    then have "?A = ?B" using u by (metis rust_chars_to_lower)
    moreover have "length a = length b" using eq by (metis irc_to_lower_length)
    ultimately show "irc_eq a b"
      by (simp add: irc_eq_def zip_map_eq)
  }
qed

section \<open>Properties\<close>

text \<open>\<open>irc_eq\<close>, which compares without allocating, agrees on valid strings with comparing the
  two lowercased strings; so it is an equivalence and lowercasing gives its canonical form.\<close>

theorem irc_eq_iff_same_lower:
  assumes "utf8 a" and "utf8 b"
  shows "(irc_eq a b \<longleftrightarrow> irc_to_lower a = irc_to_lower b) \<and>
    irc_eq a (irc_to_lower a) \<and> irc_to_lower (irc_to_lower a) = irc_to_lower a"
proof -
  have "irc_to_lower (irc_to_lower a) = irc_to_lower a"
    using assms(1) by (subst irc_to_lower_def) (simp only: rust_chars_to_lower map_map comp_def
      irc_lower_char_idem, simp add: irc_to_lower_def)
  then show ?thesis using assms by (simp add: irc_eq_lower)
qed

end
