(* ===== verification/Text_Util.thy ===== *)
theory Text_Util
  imports Casemap
begin

text \<open>
  \<open>crates/slirc-proto/src/util.rs\<close>: truncation and splitting at character boundaries, length
  checks, and the backtracking wildcard matcher behind every ban mask.  The matcher is compared
  with a reference definition of glob matching.
\<close>

section \<open>Truncation and splitting\<close>

definition MAX_TAGS_LENGTH :: nat where
  "MAX_TAGS_LENGTH = 8191"

definition MAX_BODY_CONTENT :: nat where
  "MAX_BODY_CONTENT = 510"

text \<open>\<open>str::is_char_boundary\<close>.\<close>

definition is_char_boundary :: "string \<Rightarrow> nat \<Rightarrow> bool" where
  "is_char_boundary s i \<longleftrightarrow> i = 0 \<or> i = length s \<or> (i < length s \<and> \<not> is_cont (s ! i))"

fun floor_boundary :: "string \<Rightarrow> nat \<Rightarrow> nat" where
  "floor_boundary s 0 = 0"
| "floor_boundary s (Suc e) = (if is_char_boundary s (Suc e) then Suc e else floor_boundary s e)"

definition truncate_utf8_safe :: "string \<Rightarrow> nat \<Rightarrow> string" where
  "truncate_utf8_safe s max_bytes =
    (if length s \<le> max_bytes then s else take (floor_boundary s max_bytes) s)"

definition truncate_chars :: "string \<Rightarrow> nat \<Rightarrow> string" where
  "truncate_chars s max_chars =
    (if max_chars < length (rust_chars s) then concat (take max_chars (rust_chars s)) else s)"

definition check_body_length :: "string \<Rightarrow> nat option" where
  "check_body_length s = (if length s > MAX_BODY_CONTENT then Some (length s) else None)"

definition check_tags_length :: "string \<Rightarrow> nat option" where
  "check_tags_length tags = (if length tags > MAX_TAGS_LENGTH then Some (length tags) else None)"

record split_message =
  remaining :: string
  max_bytes :: nat

text \<open>\<open>Iterator::next\<close>: the chunk and the iterator left, or the end.\<close>

definition split_next :: "split_message \<Rightarrow> (string \<times> split_message) option" where
  "split_next self =
    (if remaining self = [] then None
     else let chunk = truncate_utf8_safe (remaining self) (max_bytes self)
          in Some (chunk, self\<lparr>remaining := drop (length chunk) (remaining self)\<rparr>))"

text \<open>Collecting the iterator; \<open>None\<close> is an iteration that never ends.\<close>

partial_function (option) split_collect :: "split_message \<Rightarrow> string list option" where
  "split_collect self =
    (case split_next self of
       None \<Rightarrow> Some []
     | Some (chunk, rest) \<Rightarrow> do { chunks \<leftarrow> split_collect rest; Some (chunk # chunks) })"

definition split_message_of :: "string \<Rightarrow> nat \<Rightarrow> string list option" where
  "split_message_of s n = split_collect \<lparr>remaining = s, max_bytes = n\<rparr>"

section \<open>Wildcard matching\<close>

text \<open>The position after the last star, for the termination of the loop below: once a star has been met, the retry position never moves back and the star never moves left.\<close>

definition after_star :: "nat option \<Rightarrow> nat" where
  "after_star star_p = (case star_p of None \<Rightarrow> 0 | Some sp \<Rightarrow> sp + 1)"

text \<open>
  The loop of \<open>wildcard_match_impl\<close>, over the same four variables.  \<open>None\<close> is the early
  \<open>return false\<close>, \<open>Some p\<close> the pattern index at the end of the text.
\<close>

function wildcard_loop :: "string list \<Rightarrow> string list \<Rightarrow> nat \<Rightarrow> nat \<Rightarrow> nat option \<Rightarrow> nat \<Rightarrow> nat option" where
  "wildcard_loop pattern text p t star_p star_t =
    (if t < length text then
       if p < length pattern \<and> (pattern ! p = ''?'' \<or> pattern ! p = text ! t)
       then wildcard_loop pattern text (p + 1) (t + 1) star_p star_t
       else if p < length pattern \<and> pattern ! p = ''*''
       then wildcard_loop pattern text (p + 1) t (Some p) t
       else case star_p of
         Some sp \<Rightarrow> wildcard_loop pattern text (sp + 1) (star_t + 1) star_p (star_t + 1)
       | None \<Rightarrow> None
     else Some p)"
  by pat_completeness auto

termination
  by (relation "measures
    [\<lambda>(pattern, text, p, t, star_p, star_t). if after_star star_p \<le> p \<and> star_t \<le> t then 0 else 1,
     \<lambda>(pattern, text, p, t, star_p, star_t). length text - star_t,
     \<lambda>(pattern, text, p, t, star_p, star_t). length pattern - after_star star_p,
     \<lambda>(pattern, text, p, t, star_p, star_t). length text - t]")
     (auto simp: after_star_def)

fun skip_stars :: "string list \<Rightarrow> string list" where
  "skip_stars (c # cs) = (if c = ''*'' then skip_stars cs else c # cs)"
| "skip_stars [] = []"

definition wildcard_match_impl :: "string list \<Rightarrow> string list \<Rightarrow> bool" where
  "wildcard_match_impl pattern text =
    (case wildcard_loop pattern text 0 0 None 0 of
       None \<Rightarrow> False
     | Some p \<Rightarrow> skip_stars (drop p pattern) = [])"

definition wildcard_match :: "string \<Rightarrow> string \<Rightarrow> bool" where
  "wildcard_match pattern text =
    wildcard_match_impl (map irc_lower_char (rust_chars pattern)) (map irc_lower_char (rust_chars text))"

definition matches_hostmask :: "string \<Rightarrow> string \<Rightarrow> bool" where
  "matches_hostmask pattern hostmask = wildcard_match pattern hostmask"

text \<open>The reference: what \<open>*\<close> and \<open>?\<close> mean.\<close>

function glob :: "string list \<Rightarrow> string list \<Rightarrow> bool" where
  "glob [] text \<longleftrightarrow> text = []"
| "glob (c # pattern) [] \<longleftrightarrow> c = ''*'' \<and> glob pattern []"
| "glob (c # pattern) (x # text) \<longleftrightarrow>
    (if c = ''*'' then glob pattern (x # text) \<or> glob (c # pattern) text
     else (c = ''?'' \<or> c = x) \<and> glob pattern text)"
  by pat_completeness auto
termination
  by (relation "measure (\<lambda>(pattern, text). length pattern + length text)") auto

declare wildcard_loop.simps [simp del]

section \<open>Truncation\<close>

lemma floor_boundary_le: "floor_boundary s n \<le> n"
  by (induction s n rule: floor_boundary.induct) auto

lemma floor_boundary_boundary: "is_char_boundary s (floor_boundary s n)"
  by (induction s n rule: floor_boundary.induct) (auto simp: is_char_boundary_def)

lemma floor_boundary_max: "\<lbrakk>is_char_boundary s m; m \<le> n\<rbrakk> \<Longrightarrow> m \<le> floor_boundary s n"
  by (induction s n rule: floor_boundary.induct) (auto simp: le_Suc_eq)

lemma boundary_shift:
  "\<lbrakk>g \<noteq> []; r = [] \<or> \<not> is_cont (hd r)\<rbrakk> \<Longrightarrow>
    is_char_boundary (g @ r) (length g + n) \<longleftrightarrow> is_char_boundary r n"
  by (cases n) (auto simp: is_char_boundary_def nth_append hd_conv_nth)

lemma boundary_inside:
  assumes "is_char_boundary (c # g @ r) i" "list_all is_cont g" "0 < i"
  shows "Suc (length g) \<le> i"
proof (rule ccontr)
  assume "\<not> Suc (length g) \<le> i"
  then obtain j where j: "i = Suc j" "j < length g" using assms(3) by (cases i) auto
  then have "is_cont (g ! j)" using assms(2) by (simp add: list_all_iff)
  then show False using assms(1) j by (simp add: is_char_boundary_def nth_append)
qed

lemma rust_chars_split:
  obtains g r where "cs = g @ r" "list_all is_cont g" "r = [] \<or> \<not> is_cont (hd r)"
    "rust_chars (c # cs) = (c # g) # rust_chars r" "dropWhile is_cont cs = r"
proof
  show "cs = takeWhile is_cont cs @ dropWhile is_cont cs" by simp
  show "list_all is_cont (takeWhile is_cont cs)" by (auto simp: list_all_iff dest: set_takeWhileD)
  show "dropWhile is_cont cs = [] \<or> \<not> is_cont (hd (dropWhile is_cont cs))" using hd_dropWhile by blast
qed simp_all

text \<open>The boundaries of a string are the ends of its character prefixes.\<close>

lemma boundary_prefix:
  "is_char_boundary s i \<Longrightarrow> \<exists>k \<le> length (rust_chars s). take i s = concat (take k (rust_chars s))"
proof (induction s arbitrary: i rule: rust_chars.induct)
  case (2 c cs)
  obtain g r where gr: "cs = g @ r" "list_all is_cont g" "r = [] \<or> \<not> is_cont (hd r)"
    "rust_chars (c # cs) = (c # g) # rust_chars r" "dropWhile is_cont cs = r"
    by (rule rust_chars_split)
  show ?case
  proof (cases "i = 0")
    case False
    then have "Suc (length g) \<le> i" using 2(2) gr(1,2) by (intro boundary_inside) auto
    then obtain n where i: "i = length (c # g) + n" using le_Suc_ex [of "length (c # g)" i] by auto
    have "is_char_boundary ((c # g) @ r) (length (c # g) + n)" using 2(2) by (simp only: gr(1) i append_Cons)
    then have "is_char_boundary r n" using gr(3) by (subst (asm) boundary_shift) auto
    then obtain k where "k \<le> length (rust_chars r)" "take n r = concat (take k (rust_chars r))"
      using 2(1) gr(5) by blast
    then show ?thesis unfolding gr(4) using i by (intro exI [of _ "Suc k"]) (simp add: gr(1))
  qed (auto intro: exI [of _ 0])
qed auto

lemma prefix_boundary:
  "k \<le> length (rust_chars s) \<Longrightarrow> is_char_boundary s (length (concat (take k (rust_chars s))))"
proof (induction s arbitrary: k rule: rust_chars.induct)
  case (2 c cs)
  obtain g r where gr: "cs = g @ r" "list_all is_cont g" "r = [] \<or> \<not> is_cont (hd r)"
    "rust_chars (c # cs) = (c # g) # rust_chars r" "dropWhile is_cont cs = r"
    by (rule rust_chars_split)
  show ?case
  proof (cases k)
    case (Suc j)
    have "is_char_boundary r (length (concat (take j (rust_chars r))))"
      using 2 gr(4,5) Suc by simp
    then have "is_char_boundary ((c # g) @ r) (length (c # g) + length (concat (take j (rust_chars r))))"
      using gr(3) by (subst boundary_shift) auto
    then show ?thesis unfolding gr(4) Suc by (simp add: gr(1))
  qed (simp add: is_char_boundary_def)
qed (simp add: is_char_boundary_def)

lemma truncate_prefix:
  "\<exists>k \<le> length (rust_chars s). truncate_utf8_safe s n = concat (take k (rust_chars s)) \<and>
    length (concat (take k (rust_chars s))) \<le> n \<and>
    (k < length (rust_chars s) \<longrightarrow> n < length (concat (take (Suc k) (rust_chars s))))"
proof (cases "length s \<le> n")
  case True
  then show ?thesis by (intro exI [of _ "length (rust_chars s)"]) (simp add: truncate_utf8_safe_def)
next
  case False
  let ?e = "floor_boundary s n"
  obtain k where k: "k \<le> length (rust_chars s)" "take ?e s = concat (take k (rust_chars s))"
    using boundary_prefix [OF floor_boundary_boundary] by blast
  have len: "length (concat (take k (rust_chars s))) = ?e"
    using k(2) floor_boundary_le [of s n] False by (metis length_take min.absorb4 le_trans not_le min.absorb2 nat_le_linear)
  have "n < length (concat (take (Suc k) (rust_chars s)))" if "k < length (rust_chars s)"
  proof (rule ccontr)
    assume "\<not> ?thesis"
    then have "length (concat (take (Suc k) (rust_chars s))) \<le> ?e"
      using that by (intro floor_boundary_max prefix_boundary) auto
    moreover have "rust_chars s ! k \<noteq> []" using that rust_chars_nonempty [of "rust_chars s ! k" s] by simp
    ultimately show False using len that by (simp add: take_Suc_conv_app_nth)
  qed
  then show ?thesis
    using False k len floor_boundary_le [of s n] by (auto simp: truncate_utf8_safe_def)
qed

lemma truncate_length: "length (truncate_utf8_safe s n) \<le> n"
  using truncate_prefix [of s n] by auto

lemma truncate_append: "truncate_utf8_safe s n @ drop (length (truncate_utf8_safe s n)) s = s"
  using floor_boundary_le [of s n] by (simp add: truncate_utf8_safe_def min_def)

text \<open>A chunk is empty only if the limit is below the width of the next character.\<close>

lemma truncate_nonempty:
  assumes "s \<noteq> []" "length (hd (rust_chars s)) \<le> n"
  shows "truncate_utf8_safe s n \<noteq> []"
proof -
  obtain k where k: "truncate_utf8_safe s n = concat (take k (rust_chars s))"
    "k < length (rust_chars s) \<longrightarrow> n < length (concat (take (Suc k) (rust_chars s)))"
    using truncate_prefix by blast
  obtain g gs where g: "rust_chars s = g # gs" "g \<noteq> []" using assms(1) by (cases s) auto
  then have "k \<noteq> 0" using k(2) assms(2) by (cases k) auto
  then show ?thesis using k(1) g by (cases k) auto
qed

section \<open>Splitting\<close>

lemma split_collect_step:
  "split_collect \<lparr>remaining = s, max_bytes = n\<rparr> =
    (if s = [] then Some []
     else map_option (\<lambda>chunks. truncate_utf8_safe s n # chunks)
       (split_collect \<lparr>remaining = drop (length (truncate_utf8_safe s n)) s, max_bytes = n\<rparr>))"
  by (subst split_collect.simps) (auto simp: split_next_def Let_def map_option_case bind_eq_Some_conv split: option.split)

text \<open>What is left after a chunk is a suffix of the characters.\<close>

lemma drop_chunk_chars:
  "\<exists>k. rust_chars (drop (length (truncate_utf8_safe s n)) s) = drop k (rust_chars s)"
proof -
  have *: "k \<le> length (rust_chars s) \<Longrightarrow>
      rust_chars (drop (length (concat (take k (rust_chars s)))) s) = drop k (rust_chars s)" for k
  proof (induction s arbitrary: k rule: rust_chars.induct)
    case (2 c cs)
    obtain g r where gr: "cs = g @ r" "rust_chars (c # cs) = (c # g) # rust_chars r" "dropWhile is_cont cs = r"
      by (rule rust_chars_split)
    show ?case
    proof (cases k)
      case (Suc j)
      then have "rust_chars (drop (length (concat (take j (rust_chars r)))) r) = drop j (rust_chars r)"
        using 2 gr by simp
      then show ?thesis unfolding gr(2) Suc by (simp add: gr(1))
    qed simp
  qed simp
  then show ?thesis using truncate_prefix [of s n] by metis
qed

lemma split_collect_total:
  assumes "list_all (\<lambda>g. length g \<le> n) (rust_chars s)"
  shows "\<exists>chunks. split_collect \<lparr>remaining = s, max_bytes = n\<rparr> = Some chunks \<and> concat chunks = s \<and>
    list_all (\<lambda>c. c \<noteq> [] \<and> length c \<le> n) chunks"
  using assms
proof (induction "length s" arbitrary: s rule: less_induct)
  case less
  show ?case
  proof (cases "s = []")
    case False
    let ?c = "truncate_utf8_safe s n" and ?r = "drop (length (truncate_utf8_safe s n)) s"
    have "length (hd (rust_chars s)) \<le> n" using less(2) False by (cases s) auto
    then have ne: "?c \<noteq> []" using False by (rule truncate_nonempty [rotated])
    then have "length ?r < length s" using False by simp
    moreover have "list_all (\<lambda>g. length g \<le> n) (rust_chars ?r)"
      using drop_chunk_chars [of s n] less(2) by (metis in_set_dropD list_all_iff)
    ultimately obtain cs where cs: "split_collect \<lparr>remaining = ?r, max_bytes = n\<rparr> = Some cs"
      "concat cs = ?r" "list_all (\<lambda>c. c \<noteq> [] \<and> length c \<le> n) cs"
      using less(1) by blast
    then show ?thesis
      using False ne truncate_length [of s n] truncate_append [of s n] by (subst split_collect_step) simp
  qed (simp add: split_collect_step)
qed

section \<open>The matcher and the reference\<close>

lemma glob_star: "glob (''*'' # pattern) text \<longleftrightarrow> (\<exists>k \<le> length text. glob pattern (drop k text))"
proof (induction "text")
  case (Cons x "text")
  have "(\<exists>k \<le> Suc n. P k) \<longleftrightarrow> P 0 \<or> (\<exists>k \<le> n. P (Suc k))" for P and n :: nat
    by (metis Suc_le_mono Suc_le_D le0 not0_implies_Suc)
  then show ?case using Cons by simp
qed simp

lemma glob_star_suffix:
  "\<lbrakk>glob (''*'' # pattern) (drop k text); t \<le> k\<rbrakk> \<Longrightarrow> glob (''*'' # pattern) (drop t text)"
proof -
  assume "glob (''*'' # pattern) (drop k text)" "t \<le> k"
  then obtain j where j: "j \<le> length text - k" "glob pattern (drop (j + k) text)"
    by (auto simp: glob_star)
  then show ?thesis using \<open>t \<le> k\<close> unfolding glob_star
  proof (cases "k \<le> length text")
    case True
    then show "\<exists>i \<le> length (drop t text). glob pattern (drop i (drop t text))"
      using j \<open>t \<le> k\<close> by (intro exI [of _ "j + k - t"]) auto
  next
    case False
    then show "\<exists>i \<le> length (drop t text). glob pattern (drop i (drop t text))"
      using j(2) by (intro exI [of _ "length text - t"]) auto
  qed
qed

lemma glob_no_text: "glob pattern [] \<longleftrightarrow> skip_stars pattern = []"
  by (induction pattern) auto

lemma glob_unfold:
  "\<lbrakk>p < length pattern; t < length text; pattern ! p \<noteq> ''*''\<rbrakk> \<Longrightarrow>
    glob (drop p pattern) (drop t text) \<longleftrightarrow>
    (pattern ! p = ''?'' \<or> pattern ! p = text ! t) \<and> glob (drop (p + 1) pattern) (drop (t + 1) text)"
  by (simp add: Cons_nth_drop_Suc [symmetric])

lemma glob_unfold_star:
  "\<lbrakk>p < length pattern; pattern ! p = ''*''\<rbrakk> \<Longrightarrow>
    glob (drop p pattern) (drop t text) \<longleftrightarrow>
    (\<exists>k \<le> length text - t. glob (drop (p + 1) pattern) (drop (t + k) text))"
  by (simp add: Cons_nth_drop_Suc [symmetric] glob_star add.commute del: glob.simps)

text \<open>
  A star-free stretch of the pattern consumes exactly as many characters; so what follows it is
  matched at the corresponding position.
\<close>

lemma glob_stretch:
  assumes "glob (drop a pattern) (drop k text)" "a + n \<le> length pattern"
    "\<And>i. i < n \<Longrightarrow> pattern ! (a + i) \<noteq> ''*''"
  shows "glob (drop (a + n) pattern) (drop (k + n) text) \<and> (n = 0 \<or> k + n \<le> length text)"
  using assms
proof (induction n)
  case (Suc n)
  then have ih: "glob (drop (a + n) pattern) (drop (k + n) text)" by auto
  have lt: "a + n < length pattern" "pattern ! (a + n) \<noteq> ''*''" using Suc.prems by auto
  have "k + n < length text"
  proof (rule ccontr)
    assume "\<not> ?thesis"
    then show False using ih lt by (simp add: Cons_nth_drop_Suc [symmetric])
  qed
  then show ?case using ih lt by (simp add: glob_unfold)
qed simp

text \<open>The invariant of the loop.\<close>

definition wild_inv :: "string list \<Rightarrow> string list \<Rightarrow> nat \<Rightarrow> nat \<Rightarrow> nat option \<Rightarrow> nat \<Rightarrow> bool" where
  "wild_inv pattern text p t star_p star_t \<longleftrightarrow> p \<le> length pattern \<and> t \<le> length text \<and>
    (case star_p of
       None \<Rightarrow> glob pattern text = glob (drop p pattern) (drop t text)
     | Some sp \<Rightarrow> sp < p \<and> pattern ! sp = ''*'' \<and> t = star_t + (p - sp - 1) \<and>
         (\<forall>i. sp < i \<and> i < p \<longrightarrow> pattern ! i \<noteq> ''*'') \<and>
         glob pattern text =
           (glob (drop p pattern) (drop t text) \<or>
            (\<exists>k. star_t < k \<and> k \<le> length text \<and> glob (drop (sp + 1) pattern) (drop k text))))"

lemma wild_inv_retry:
  assumes "wild_inv pattern text p t (Some sp) star_t" "star_t < k" "glob (drop (sp + 1) pattern) (drop k text)"
  shows "glob (drop p pattern) (drop (k + (p - sp - 1)) text) \<and> (p = sp + 1 \<or> k + (p - sp - 1) \<le> length text)"
proof -
  have sp: "sp < p" "p \<le> length pattern" "\<And>i. sp < i \<and> i < p \<Longrightarrow> pattern ! i \<noteq> ''*''"
    using assms(1) by (auto simp: wild_inv_def)
  have "glob (drop (sp + 1 + (p - sp - 1)) pattern) (drop (k + (p - sp - 1)) text) \<and>
      (p - sp - 1 = 0 \<or> k + (p - sp - 1) \<le> length text)"
    using sp by (intro glob_stretch [OF assms(3)]) auto
  moreover have "sp + 1 + (p - sp - 1) = p" using sp(1) by simp
  ultimately show ?thesis using sp(1) by auto
qed

lemma wild_inv_bounds: "wild_inv pattern text p t star_p star_t \<Longrightarrow> p \<le> length pattern \<and> t \<le> length text"
  by (simp add: wild_inv_def)

lemma wild_inv_match:
  assumes inv: "wild_inv pattern text p t star_p star_t"
    and "p < length pattern" "t < length text" "pattern ! p \<noteq> ''*''"
    and "pattern ! p = ''?'' \<or> pattern ! p = text ! t"
  shows "wild_inv pattern text (p + 1) (t + 1) star_p star_t"
  using assms unfolding wild_inv_def
  by (auto simp: glob_unfold [OF assms(2,3,4)] less_Suc_eq split: option.splits)

text \<open>A later star makes every retry of an earlier one unnecessary.\<close>

lemma wild_inv_at_star:
  assumes inv: "wild_inv pattern text p t star_p star_t"
    and star: "p < length pattern" "pattern ! p = ''*''"
  shows "glob pattern text = glob (drop p pattern) (drop t text)"
proof (cases star_p)
  case (Some sp)
  have dp: "drop p pattern = ''*'' # drop (p + 1) pattern"
    using star by (simp add: Cons_nth_drop_Suc [symmetric])
  have "glob (drop p pattern) (drop t text)"
    if k: "star_t < k" "glob (drop (sp + 1) pattern) (drop k text)" for k
  proof -
    have "glob (drop p pattern) (drop (k + (p - sp - 1)) text)"
      using wild_inv_retry inv k unfolding Some by blast
    moreover have "t \<le> k + (p - sp - 1)" using inv k(1) unfolding Some wild_inv_def by simp
    ultimately show ?thesis unfolding dp by (rule glob_star_suffix)
  qed
  then show ?thesis using inv unfolding Some wild_inv_def by auto
qed (use inv in \<open>simp add: wild_inv_def\<close>)

lemma wild_inv_star:
  assumes inv: "wild_inv pattern text p t star_p star_t"
    and star: "p < length pattern" "pattern ! p = ''*''"
  shows "wild_inv pattern text (p + 1) t (Some p) t"
proof -
  have t: "t \<le> length text" using wild_inv_bounds [OF inv] by simp
  have "(\<exists>k \<le> length text - t. Q (t + k)) \<longleftrightarrow> Q t \<or> (\<exists>k. t < k \<and> k \<le> length text \<and> Q k)" (is "?L = ?R") for Q
  proof
    assume ?L
    then obtain k where "k \<le> length text - t" "Q (t + k)" by blast
    then show ?R using t by (cases "k = 0") auto
  next
    assume ?R
    then show ?L
    proof (elim disjE exE)
      fix k assume "t < k \<and> k \<le> length text \<and> Q k"
      then show ?L by (intro exI [of _ "k - t"]) auto
    qed auto
  qed
  then have "glob pattern text \<longleftrightarrow> glob (drop (p + 1) pattern) (drop t text) \<or>
      (\<exists>k. t < k \<and> k \<le> length text \<and> glob (drop (p + 1) pattern) (drop k text))"
    unfolding wild_inv_at_star [OF assms] glob_unfold_star [OF star] .
  then show ?thesis using star t by (auto simp: wild_inv_def)
qed

lemma wild_inv_miss:
  assumes inv: "wild_inv pattern text p t (Some sp) star_t"
    and miss: "t < length text" "\<not> glob (drop p pattern) (drop t text)"
  shows "wild_inv pattern text (sp + 1) (star_t + 1) (Some sp) (star_t + 1)"
proof -
  have le: "star_t < length text" using inv miss(1) unfolding wild_inv_def by auto
  have "(\<exists>k. star_t < k \<and> k \<le> length text \<and> Q k) \<longleftrightarrow> Q (star_t + 1) \<or>
      (\<exists>k. star_t + 1 < k \<and> k \<le> length text \<and> Q k)" for Q
  proof -
    have "star_t < k \<longleftrightarrow> k = star_t + 1 \<or> star_t + 1 < k" for k by auto
    then show ?thesis using le by (metis Suc_eq_plus1 Suc_leI)
  qed
  then show ?thesis using inv miss le unfolding wild_inv_def by auto
qed

lemma wild_inv_end:
  assumes inv: "wild_inv pattern text p (length text) star_p star_t"
  shows "glob pattern text \<longleftrightarrow> skip_stars (drop p pattern) = []"
proof (cases star_p)
  case (Some sp)
  have "\<not> glob (drop (sp + 1) pattern) (drop k text)" if "star_t < k" "k \<le> length text" for k
    using wild_inv_retry [of pattern "text" p "length text" sp star_t k] inv that
    unfolding Some wild_inv_def by auto
  then show ?thesis using inv unfolding Some wild_inv_def by (auto simp: glob_no_text)
qed (use inv in \<open>simp add: wild_inv_def glob_no_text\<close>)

lemma glob_mismatch:
  assumes "p \<le> length pattern" "t < length text"
    "\<not> (p < length pattern \<and> (pattern ! p = ''?'' \<or> pattern ! p = text ! t))"
    "\<not> (p < length pattern \<and> pattern ! p = ''*'')"
  shows "\<not> glob (drop p pattern) (drop t text)"
  using assms glob_unfold [of p pattern t "text"] by (cases "p < length pattern") auto

lemma wildcard_loop_correct:
  assumes "wild_inv pattern text p t star_p star_t" "''*'' \<notin> set text"
  shows "glob pattern text \<longleftrightarrow>
    (case wildcard_loop pattern text p t star_p star_t of
       None \<Rightarrow> False | Some q \<Rightarrow> skip_stars (drop q pattern) = [])"
  using assms
proof (induction pattern "text" p t star_p star_t rule: wildcard_loop.induct)
  case (1 pattern "text" p t star_p star_t)
  note inv = 1(4) and nostar = 1(5)
  let ?match = "p < length pattern \<and> (pattern ! p = ''?'' \<or> pattern ! p = text ! t)"
  show ?case
  proof (cases "t < length text")
    case t: True
    have ns: "text ! t \<noteq> ''*''" using nostar nth_mem [OF t] by metis
    consider ?match | "\<not> ?match" "p < length pattern \<and> pattern ! p = ''*''"
      | "\<not> ?match" "\<not> (p < length pattern \<and> pattern ! p = ''*'')" by blast
    then show ?thesis
    proof cases
      case 1
      then have "wild_inv pattern text (p + 1) (t + 1) star_p star_t"
        using inv t ns by (intro wild_inv_match) auto
      then show ?thesis using 1 "1.IH"(1) t nostar by (subst wildcard_loop.simps) simp
    next
      case 2
      then have "wild_inv pattern text (p + 1) t (Some p) t" using inv by (intro wild_inv_star) auto
      then show ?thesis using 2 "1.IH"(2) t nostar by (subst wildcard_loop.simps) simp
    next
      case 3
      have miss: "\<not> glob (drop p pattern) (drop t text)"
        using wild_inv_bounds [OF inv] t 3 by (intro glob_mismatch) auto
      show ?thesis
      proof (cases star_p)
        case None
        then show ?thesis using inv 3 t miss by (subst wildcard_loop.simps) (auto simp: wild_inv_def)
      next
        case (Some sp)
        then have "wild_inv pattern text (sp + 1) (star_t + 1) (Some sp) (star_t + 1)"
          using inv miss t by (intro wild_inv_miss) auto
        then show ?thesis using 3 "1.IH"(3) t nostar Some by (subst wildcard_loop.simps) auto
      qed
    qed
  next
    case False
    then have "t = length text" using wild_inv_bounds [OF inv] by simp
    then show ?thesis using wild_inv_end inv by (subst wildcard_loop.simps) simp
  qed
qed

text \<open>Without the restriction on the text every answer \<open>true\<close> is still right.\<close>

lemma glob_consume:
  assumes "p < length pattern" "t < length text" "pattern ! p = ''?'' \<or> pattern ! p = text ! t"
    "glob (drop (p + 1) pattern) (drop (t + 1) text)"
  shows "glob (drop p pattern) (drop t text)"
proof (cases "pattern ! p = ''*''")
  case True
  then show ?thesis
    using assms by (subst glob_unfold_star) (auto intro!: exI [of _ 1])
next
  case False
  then show ?thesis using assms by (simp add: glob_unfold)
qed

lemma glob_star_from:
  assumes "p < length pattern" "pattern ! p = ''*''" "t \<le> k" "glob (drop (p + 1) pattern) (drop k text)"
  shows "glob (drop p pattern) (drop t text)"
proof -
  have dp: "drop p pattern = ''*'' # drop (p + 1) pattern"
    using assms(1,2) by (simp add: Cons_nth_drop_Suc [symmetric])
  have "glob (''*'' # drop (p + 1) pattern) (drop k text)"
    using assms(4) unfolding glob_star by (intro exI [of _ 0]) simp
  then show ?thesis unfolding dp using assms(3) by (rule glob_star_suffix)
qed

lemma wildcard_loop_sound:
  assumes "glob (drop p pattern) (drop t text) \<Longrightarrow> glob pattern text"
    and "\<And>sp k. \<lbrakk>star_p = Some sp; star_t \<le> k; glob (drop (sp + 1) pattern) (drop k text)\<rbrakk> \<Longrightarrow> glob pattern text"
    and "wildcard_loop pattern text p t star_p star_t = Some q" "skip_stars (drop q pattern) = []"
    and "t \<le> length text"
    and "star_t \<le> t"
  shows "glob pattern text"
  using assms
proof (induction pattern "text" p t star_p star_t rule: wildcard_loop.induct)
  case (1 pattern "text" p t star_p star_t)
  let ?match = "p < length pattern \<and> (pattern ! p = ''?'' \<or> pattern ! p = text ! t)"
  note here = 1(4) and retry = 1(5) and run = 1(6) and q = 1(7) and le = 1(8) "1.prems"(6)
  show ?case
  proof (cases "t < length text")
    case t: True
    consider ?match | "\<not> ?match" "p < length pattern \<and> pattern ! p = ''*''"
      | "\<not> ?match" "\<not> (p < length pattern \<and> pattern ! p = ''*'')" by blast
    then show ?thesis
    proof cases
      case 1
      then have "wildcard_loop pattern text (p + 1) (t + 1) star_p star_t = Some q"
        using run t by (subst (asm) wildcard_loop.simps) simp
      moreover have "glob (drop (p + 1) pattern) (drop (t + 1) text) \<Longrightarrow> glob pattern text"
        using 1 t here glob_consume by blast
      ultimately show ?thesis using "1.IH"(1) [OF t 1] retry q t le by simp
    next
      case 2
      then have "wildcard_loop pattern text (p + 1) t (Some p) t = Some q"
        using run t by (subst (asm) wildcard_loop.simps) auto
      moreover have "glob (drop (p + 1) pattern) (drop k text) \<Longrightarrow> t \<le> k \<Longrightarrow> glob pattern text" for k
        using 2 here glob_star_from by blast
      ultimately show ?thesis using "1.IH"(2) [OF t 2] q le by simp
    next
      case 3
      then obtain sp where sp: "star_p = Some sp"
        "wildcard_loop pattern text (sp + 1) (star_t + 1) star_p (star_t + 1) = Some q"
        using run t by (subst (asm) wildcard_loop.simps) (auto split: option.splits)
      have again: "glob pattern text" if "star_t + 1 \<le> k" "glob (drop (sp + 1) pattern) (drop k text)" for k
        using retry [OF sp(1), of k] that by simp
      show ?thesis
        by (rule "1.IH"(3) [OF t 3 sp(1) _ _ sp(2) q]) (use sp(1) t le in \<open>auto intro: again\<close>)
    qed
  next
    case False
    then show ?thesis
      using run q here le by (subst (asm) wildcard_loop.simps) (simp add: glob_no_text)
  qed
qed

lemma wildcard_match_impl_sound: "wildcard_match_impl pattern text \<Longrightarrow> glob pattern text"
  unfolding wildcard_match_impl_def
  by (auto split: option.splits intro: wildcard_loop_sound [of 0 pattern 0 "text" None 0])

lemma wildcard_match_impl_complete:
  "''*'' \<notin> set text \<Longrightarrow> wildcard_match_impl pattern text \<longleftrightarrow> glob pattern text"
  unfolding wildcard_match_impl_def
  using wildcard_loop_correct [of pattern "text" 0 0 None 0] by (simp add: wild_inv_def)

lemma irc_lower_char_star: "irc_lower_char g = ''*'' \<longleftrightarrow> g = ''*''"
proof (cases g rule: irc_lower_char.cases)
  case (1 c)
  have "irc_lower_byte c = CHR ''*'' \<longleftrightarrow> c = CHR ''*''"
    unfolding byte_of_eq_iff [symmetric] irc_lower_byte_byte by (simp add: byte_of_def)
  then show ?thesis using 1 by simp
qed auto

section \<open>Properties\<close>

text \<open>C37. Wildcard matching is right: whenever \<open>wildcard_match\<close> says yes the text matches the pattern
  in the sense of \<open>*\<close> (any characters) and \<open>?\<close> (one character) up to RFC 1459 case, and on texts
  without a literal \<open>*\<close> it says yes for every text that matches.\<close>

theorem wildcard_match_correct:
  "(wildcard_match pattern text \<longrightarrow>
     glob (map irc_lower_char (rust_chars pattern)) (map irc_lower_char (rust_chars text))) \<and>
   (''*'' \<notin> set (rust_chars text) \<longrightarrow>
     wildcard_match pattern text =
       glob (map irc_lower_char (rust_chars pattern)) (map irc_lower_char (rust_chars text)))"
proof -
  have "''*'' \<notin> set (rust_chars text) \<Longrightarrow> ''*'' \<notin> set (map irc_lower_char (rust_chars text))"
    by (auto simp: irc_lower_char_star dest: sym)
  then show ?thesis
    unfolding wildcard_match_def using wildcard_match_impl_sound wildcard_match_impl_complete by blast
qed

theorem wildcard_match_correct_witness:
  "wildcard_match ''*!*@*.EXAMPLE.com'' ''nick!u@a.b.example.com''"
proof -
  have "''*'' \<notin> set (rust_chars ''nick!u@a.b.example.com'')"
    "glob (map irc_lower_char (rust_chars ''*!*@*.EXAMPLE.com''))
      (map irc_lower_char (rust_chars ''nick!u@a.b.example.com''))"
    by code_simp+
  then show ?thesis
    using wildcard_match_correct [of "''*!*@*.EXAMPLE.com''" "''nick!u@a.b.example.com''"] by simp
qed

text \<open>A literal \<open>*\<close> in the text can hide a match: the matcher consumes a star of the pattern as a
  literal and then has no position to retry from.\<close>

theorem wildcard_match_literal_star:
  "\<not> wildcard_match ''*b'' ''*ab'' \<and>
   glob (map irc_lower_char (rust_chars ''*b'')) (map irc_lower_char (rust_chars ''*ab''))"
  by code_simp

text \<open>\<open>truncate_utf8_safe\<close> returns the longest prefix of whole characters that fits into the limit.\<close>

theorem truncate_utf8_safe_longest:
  "\<exists>k \<le> length (rust_chars s).
     truncate_utf8_safe s n = concat (take k (rust_chars s)) \<and>
     length (concat (take k (rust_chars s))) \<le> n \<and>
     (k < length (rust_chars s) \<longrightarrow> n < length (concat (take (Suc k) (rust_chars s))))"
  by (rule truncate_prefix)

text \<open>C40. Splitting a message with a limit of at least four bytes (the width of any character) ends,
  gives back the message when the chunks are joined, and every chunk is non-empty and within the
  limit.\<close>

theorem split_message_chunks:
  assumes "utf8 s" and "4 \<le> n"
  shows "\<exists>chunks. split_message_of s n = Some chunks \<and> concat chunks = s \<and>
    list_all (\<lambda>c. c \<noteq> [] \<and> length c \<le> n) chunks"
proof -
  have "list_all (\<lambda>g. length g \<le> n) (rust_chars s)"
    using assms by (auto simp: utf8_def list_all_iff char_ok_def)
  then show ?thesis unfolding split_message_of_def by (rule split_collect_total)
qed

theorem split_message_chunks_witness:
  "\<exists>chunks. split_message_of ''Hello World'' 4 = Some chunks \<and> concat chunks = ''Hello World''"
proof -
  have "utf8 ''Hello World''" by code_simp
  from split_message_chunks [OF this, of 4] show ?thesis by auto
qed

text \<open>With a limit below the width of the next character the iterator yields an empty chunk and
  stays where it is, so it never ends.\<close>

theorem split_message_stuck:
  "split_next \<lparr>remaining = ''abc'', max_bytes = 0\<rparr> = Some ([], \<lparr>remaining = ''abc'', max_bytes = 0\<rparr>)"
  by (simp add: split_next_def truncate_utf8_safe_def)

end
