(* ===== verification/Extban.thy ===== *)
theory Extban
  imports Text_Util
begin

text \<open>
  \<open>src/security/xlines.rs\<close> and the ban matching of \<open>src/security/mod.rs\<close>: extended bans, the
  attributes of a user they look at, and the test that joins and messages use for both hostmasks
  and extended bans.
\<close>

section \<open>Definitions\<close>

datatype extended_ban =
    EbAccount string
  | EbRealname string
  | EbServer string
  | EbChannel string
  | EbOper string
  | EbCertificate string
  | EbSasl string
  | EbJoin string
  | EbUnregistered

definition extban_parse :: "string \<Rightarrow> extended_ban option" where
  "extban_parse ban_string =
    (if \<not> (ban_string \<noteq> [] \<and> hd ban_string = CHR ''$'') then None
     else case split_once CHR '':'' ban_string of
       None \<Rightarrow> if ban_string = ''$U'' then Some EbUnregistered else None
     | Some (ban_type, pattern) \<Rightarrow>
         if ban_type = ''$a'' then Some (EbAccount pattern)
         else if ban_type = ''$r'' then Some (EbRealname pattern)
         else if ban_type = ''$s'' then Some (EbServer pattern)
         else if ban_type = ''$c'' then Some (EbChannel pattern)
         else if ban_type = ''$o'' then Some (EbOper pattern)
         else if ban_type = ''$x'' then Some (EbCertificate pattern)
         else if ban_type = ''$z'' then Some (EbSasl pattern)
         else if ban_type = ''$j'' then Some (EbJoin pattern)
         else None)"

record user_context =
  ctx_nickname :: string
  ctx_username :: string
  ctx_hostname :: string
  ctx_realname :: string
  ctx_account :: "string option"
  ctx_server :: string
  ctx_channels :: "string list"
  ctx_is_oper :: bool
  ctx_oper_type :: "string option"
  ctx_certificate_fp :: "string option"
  ctx_sasl_mechanism :: "string option"
  ctx_is_registered :: bool
  ctx_is_tls :: bool

record registration_params =
  rp_hostname :: string
  rp_nickname :: string
  rp_username :: string
  rp_realname :: string
  rp_server :: string
  rp_account :: "string option"
  rp_is_tls :: bool
  rp_is_oper :: bool
  rp_oper_type :: "string option"

definition for_registration :: "registration_params \<Rightarrow> user_context" where
  "for_registration p =
    \<lparr>ctx_nickname = rp_nickname p, ctx_username = rp_username p, ctx_hostname = rp_hostname p,
     ctx_realname = rp_realname p, ctx_account = rp_account p, ctx_server = rp_server p,
     ctx_channels = [], ctx_is_oper = rp_is_oper p, ctx_oper_type = rp_oper_type p,
     ctx_certificate_fp = None, ctx_sasl_mechanism = None,
     ctx_is_registered = (rp_account p \<noteq> None), ctx_is_tls = rp_is_tls p\<rparr>"

fun matches_extended_ban :: "extended_ban \<Rightarrow> user_context \<Rightarrow> bool" where
  "matches_extended_ban (EbAccount pattern) ctx =
    (case ctx_account ctx of Some account \<Rightarrow> wildcard_match pattern account | None \<Rightarrow> False)"
| "matches_extended_ban (EbRealname pattern) ctx = wildcard_match pattern (ctx_realname ctx)"
| "matches_extended_ban (EbServer pattern) ctx = wildcard_match pattern (ctx_server ctx)"
| "matches_extended_ban (EbChannel pattern) ctx = list_ex (\<lambda>chan. wildcard_match pattern chan) (ctx_channels ctx)"
| "matches_extended_ban (EbOper pattern) ctx =
    (if ctx_is_oper ctx
     then case ctx_oper_type ctx of Some oper_type \<Rightarrow> wildcard_match pattern oper_type | None \<Rightarrow> pattern = ''*''
     else False)"
| "matches_extended_ban (EbCertificate pattern) ctx =
    (case ctx_certificate_fp ctx of Some fp \<Rightarrow> wildcard_match pattern fp | None \<Rightarrow> False)"
| "matches_extended_ban (EbSasl pattern) ctx =
    (case ctx_sasl_mechanism ctx of Some sasl \<Rightarrow> wildcard_match pattern sasl | None \<Rightarrow> False)"
| "matches_extended_ban (EbJoin pattern) ctx = wildcard_match pattern (ctx_nickname ctx)"
| "matches_extended_ban EbUnregistered ctx = (\<not> ctx_is_registered ctx)"

definition matches_ban_or_except :: "string \<Rightarrow> string \<Rightarrow> user_context \<Rightarrow> bool" where
  "matches_ban_or_except bmask user_mask ctx =
    (if bmask \<noteq> [] \<and> hd bmask = CHR ''$''
     then case extban_parse bmask of Some extban \<Rightarrow> matches_extended_ban extban ctx | None \<Rightarrow> False
     else matches_hostmask bmask user_mask)"

section \<open>Parsing\<close>

lemma extban_parse_None:
  "\<lbrakk>CHR '':'' \<notin> set s; s \<noteq> ''$U''\<rbrakk> \<Longrightarrow> extban_parse s = None"
  by (simp add: extban_parse_def split_once_def)

end
