(* ===== verification/Mode_Types.thy ===== *)
theory Mode_Types
  imports Prelude
begin

text \<open>
  \<open>crates/slirc-proto/src/mode/\<close>: user and channel modes of the protocol, their letters, and the
  parser of mode strings with arguments.  The trait \<open>ModeType\<close> is a record of its three methods
  that \<open>parse_modes\<close> takes; the locale \<open>mode_letters\<close> states when letters identify modes.
\<close>

section \<open>Modes\<close>

datatype user_mode =
      UAway | UInvisible | UWallops | URegistered | URegisteredOnly | UBot | UService | UOper
  | ULocalOper | UServerNotices | UMaskedHost | UHideChannels | UDeaf | UCallerId | UNetAdmin
  | UUnknown string

datatype proto_mode =
      PBan | PException | PInviteException | PQuiet | PLimit | PFlood | PJoinForward | PKey
  | PInviteOnly | PModerated | PModeratedUnreg | POpModerated | PNoExternalMessages
  | PRegisteredOnly | PSecret | PProtectedTopic | PNoColors | PNoCTCP | PNoNickChange
  | PNoKnock | PNoInvite | PNoChannelNotice | PNoKick | PAuditorium | PPermanent | POperOnly
  | PFreeInvite | PTlsOnly | PRoleplay | PDelayedJoin | PStripColors | PAntiCaps | PRedirect
  | PCensor | PFounder | PAdmin | POper | PHalfop | PVoice | PUnknown string

text \<open>The methods of the trait \<open>ModeType\<close>, and the letter \<open>Display\<close> writes.\<close>

record 'm mode_type =
  takes_arg :: "'m \<Rightarrow> bool"
  is_list_mode :: "'m \<Rightarrow> bool"
  from_char :: "string \<Rightarrow> 'm"
  letter :: "'m \<Rightarrow> string"

definition user_mode_takes_arg :: "user_mode \<Rightarrow> bool" where
  "user_mode_takes_arg m \<longleftrightarrow> m = UServerNotices"

definition user_mode_from_char :: "string \<Rightarrow> user_mode" where
  "user_mode_from_char c =
    (if c = ''a'' then UAway
     else if c = ''i'' then UInvisible
     else if c = ''w'' then UWallops
     else if c = ''r'' then URegistered
     else if c = ''R'' then URegisteredOnly
     else if c = ''B'' then UBot
     else if c = ''S'' then UService
     else if c = ''o'' then UOper
     else if c = ''O'' then ULocalOper
     else if c = ''s'' then UServerNotices
     else if c = ''x'' then UMaskedHost
     else if c = ''p'' then UHideChannels
     else if c = ''d'' then UDeaf
     else if c = ''g'' then UCallerId
     else if c = ''N'' then UNetAdmin
     else UUnknown c)"

fun user_mode_letter :: "user_mode \<Rightarrow> string" where
  "user_mode_letter UAway = ''a''"
| "user_mode_letter UInvisible = ''i''"
| "user_mode_letter UWallops = ''w''"
| "user_mode_letter URegistered = ''r''"
| "user_mode_letter URegisteredOnly = ''R''"
| "user_mode_letter UBot = ''B''"
| "user_mode_letter UService = ''S''"
| "user_mode_letter UOper = ''o''"
| "user_mode_letter ULocalOper = ''O''"
| "user_mode_letter UServerNotices = ''s''"
| "user_mode_letter UMaskedHost = ''x''"
| "user_mode_letter UHideChannels = ''p''"
| "user_mode_letter UDeaf = ''d''"
| "user_mode_letter UCallerId = ''g''"
| "user_mode_letter UNetAdmin = ''N''"
| "user_mode_letter (UUnknown c) = c"

definition user_mode_type :: "user_mode mode_type" where
  "user_mode_type =
    \<lparr>takes_arg = user_mode_takes_arg, is_list_mode = (\<lambda>_. False),
     from_char = user_mode_from_char, letter = user_mode_letter\<rparr>"

definition proto_mode_takes_arg :: "proto_mode \<Rightarrow> bool" where
  "proto_mode_takes_arg m \<longleftrightarrow> m \<in> {PBan, PException, PInviteException, PQuiet, PLimit, PKey, PFlood, PJoinForward, PFounder, PAdmin, POper, PHalfop, PVoice, PRedirect}"

definition proto_mode_is_list_mode :: "proto_mode \<Rightarrow> bool" where
  "proto_mode_is_list_mode m \<longleftrightarrow> m \<in> {PBan, PException, PInviteException, PQuiet}"

definition proto_mode_from_char :: "string \<Rightarrow> proto_mode" where
  "proto_mode_from_char c =
    (if c = ''b'' then PBan
     else if c = ''e'' then PException
     else if c = ''I'' then PInviteException
     else if c = ''l'' then PLimit
     else if c = ''k'' then PKey
     else if c = ''f'' then PFlood
     else if c = ''F'' then PJoinForward
     else if c = ''i'' then PInviteOnly
     else if c = ''m'' then PModerated
     else if c = ''M'' then PModeratedUnreg
     else if c = ''U'' then POpModerated
     else if c = ''n'' then PNoExternalMessages
     else if c = ''r'' then PRegisteredOnly
     else if c = ''s'' then PSecret
     else if c = ''t'' then PProtectedTopic
     else if c = ''c'' then PNoColors
     else if c = ''C'' then PNoCTCP
     else if c = ''N'' then PNoNickChange
     else if c = ''K'' then PNoKnock
     else if c = ''V'' then PNoInvite
     else if c = ''T'' then PNoChannelNotice
     else if c = ''Q'' then PNoKick
     else if c = ''u'' then PAuditorium
     else if c = ''P'' then PPermanent
     else if c = ''O'' then POperOnly
     else if c = ''g'' then PFreeInvite
     else if c = ''z'' then PTlsOnly
     else if c = ''E'' then PRoleplay
     else if c = ''D'' then PDelayedJoin
     else if c = ''S'' then PStripColors
     else if c = ''B'' then PAntiCaps
     else if c = ''L'' then PRedirect
     else if c = ''G'' then PCensor
     else if c = ''q'' then PQuiet
     else if c = ''a'' then PAdmin
     else if c = ''o'' then POper
     else if c = ''h'' then PHalfop
     else if c = ''v'' then PVoice
     else PUnknown c)"

fun proto_mode_letter :: "proto_mode \<Rightarrow> string" where
  "proto_mode_letter PBan = ''b''"
| "proto_mode_letter PException = ''e''"
| "proto_mode_letter PInviteException = ''I''"
| "proto_mode_letter PLimit = ''l''"
| "proto_mode_letter PKey = ''k''"
| "proto_mode_letter PFlood = ''f''"
| "proto_mode_letter PJoinForward = ''F''"
| "proto_mode_letter PInviteOnly = ''i''"
| "proto_mode_letter PModerated = ''m''"
| "proto_mode_letter PNoExternalMessages = ''n''"
| "proto_mode_letter PRegisteredOnly = ''r''"
| "proto_mode_letter PSecret = ''s''"
| "proto_mode_letter PProtectedTopic = ''t''"
| "proto_mode_letter PNoColors = ''c''"
| "proto_mode_letter PNoCTCP = ''C''"
| "proto_mode_letter PNoNickChange = ''N''"
| "proto_mode_letter PNoKnock = ''K''"
| "proto_mode_letter PNoInvite = ''V''"
| "proto_mode_letter PNoChannelNotice = ''T''"
| "proto_mode_letter PNoKick = ''Q''"
| "proto_mode_letter PPermanent = ''P''"
| "proto_mode_letter POperOnly = ''O''"
| "proto_mode_letter PFreeInvite = ''g''"
| "proto_mode_letter PTlsOnly = ''z''"
| "proto_mode_letter PRoleplay = ''E''"
| "proto_mode_letter PDelayedJoin = ''D''"
| "proto_mode_letter PStripColors = ''S''"
| "proto_mode_letter PAntiCaps = ''B''"
| "proto_mode_letter PRedirect = ''L''"
| "proto_mode_letter PCensor = ''G''"
| "proto_mode_letter PQuiet = ''q''"
| "proto_mode_letter PFounder = ''q''"
| "proto_mode_letter PAdmin = ''a''"
| "proto_mode_letter POper = ''o''"
| "proto_mode_letter PHalfop = ''h''"
| "proto_mode_letter PVoice = ''v''"
| "proto_mode_letter PModeratedUnreg = ''M''"
| "proto_mode_letter POpModerated = ''U''"
| "proto_mode_letter PAuditorium = ''u''"
| "proto_mode_letter (PUnknown c) = c"

definition proto_mode_type :: "proto_mode mode_type" where
  "proto_mode_type =
    \<lparr>takes_arg = proto_mode_takes_arg, is_list_mode = proto_mode_is_list_mode,
     from_char = proto_mode_from_char, letter = proto_mode_letter\<rparr>"

section \<open>Mode changes\<close>

datatype 'm mode = Plus 'm "string option" | Minus 'm "string option" | NoPrefix 'm

fun mode_flag :: "'m mode_type \<Rightarrow> 'm mode \<Rightarrow> string" where
  "mode_flag T (Plus m _) = ''+'' @ letter T m"
| "mode_flag T (Minus m _) = ''-'' @ letter T m"
| "mode_flag T (NoPrefix m) = letter T m"

fun mode_arg :: "'m mode \<Rightarrow> string option" where
  "mode_arg (Plus _ a) = a"
| "mode_arg (Minus _ a) = a"
| "mode_arg (NoPrefix _) = None"

fun mode_mode :: "'m mode \<Rightarrow> 'm" where
  "mode_mode (Plus m _) = m"
| "mode_mode (Minus m _) = m"
| "mode_mode (NoPrefix m) = m"

fun is_plus :: "'m mode \<Rightarrow> bool" where
  "is_plus (Plus _ _) = True"
| "is_plus _ = False"

fun is_minus :: "'m mode \<Rightarrow> bool" where
  "is_minus (Minus _ _) = True"
| "is_minus _ = False"

fun mode_display :: "'m mode_type \<Rightarrow> 'm mode \<Rightarrow> string" where
  "mode_display T (Plus m arg) = ''+'' @ letter T m @ (case arg of Some a \<Rightarrow> '' '' @ a | None \<Rightarrow> [])"
| "mode_display T (Minus m arg) = ''-'' @ letter T m @ (case arg of Some a \<Rightarrow> '' '' @ a | None \<Rightarrow> [])"
| "mode_display T (NoPrefix m) = letter T m"

section \<open>Parsing\<close>

datatype plus_minus = PmPlus | PmMinus | PmNoPrefix

datatype mode_error = InvalidModeArg string

text \<open>The argument of a mode and the arguments left, or the error.\<close>

definition resolve_mode_arg ::
  "'m mode_type \<Rightarrow> 'm \<Rightarrow> string \<Rightarrow> string list \<Rightarrow> mode_error + (string option \<times> string list)" where
  "resolve_mode_arg T m mode_char args =
    (if \<not> takes_arg T m then Inr (None, args)
     else case args of
       arg # rest \<Rightarrow> Inr (Some arg, rest)
     | [] \<Rightarrow> if is_list_mode T m then Inr (None, [])
            else Inl (InvalidModeArg (''Mode '' @ [CHR 0x27] @ mode_char @ [CHR 0x27] @
                  '' requires an argument but none provided'')))"

text \<open>The loop over the characters: the current sign, the arguments left and the changes so far.\<close>

fun parse_modes_loop ::
  "'m mode_type \<Rightarrow> string list \<Rightarrow> plus_minus \<Rightarrow> string list \<Rightarrow> 'm mode list \<Rightarrow> mode_error + 'm mode list" where
  "parse_modes_loop T [] cur_mod args res =
    (if args \<noteq> [] then Inl (InvalidModeArg ''Unused arguments provided for mode parsing'') else Inr res)"
| "parse_modes_loop T (c # cs) cur_mod args res =
    (if c = ''+'' then parse_modes_loop T cs PmPlus args res
     else if c = ''-'' then parse_modes_loop T cs PmMinus args res
     else case resolve_mode_arg T (from_char T c) c args of
       Inl e \<Rightarrow> Inl e
     | Inr (arg, rest) \<Rightarrow>
         parse_modes_loop T cs cur_mod rest
           (res @ [case cur_mod of PmPlus \<Rightarrow> Plus (from_char T c) arg
                   | PmMinus \<Rightarrow> Minus (from_char T c) arg
                   | PmNoPrefix \<Rightarrow> NoPrefix (from_char T c)]))"

definition parse_modes :: "'m mode_type \<Rightarrow> string list \<Rightarrow> mode_error + 'm mode list" where
  "parse_modes T pieces =
    (case pieces of
       [] \<Rightarrow> Inr []
     | first # args \<Rightarrow>
         (case rust_chars first of
            [] \<Rightarrow> Inr []
          | c # cs \<Rightarrow>
              if c = ''+'' then parse_modes_loop T cs PmPlus args []
              else if c = ''-'' then parse_modes_loop T cs PmMinus args []
              else parse_modes_loop T (c # cs) PmNoPrefix args []))"

definition as_user_modes :: "string list \<Rightarrow> mode_error + user_mode mode list" where
  "as_user_modes pieces = parse_modes user_mode_type pieces"

definition as_channel_modes :: "string list \<Rightarrow> mode_error + proto_mode mode list" where
  "as_channel_modes pieces = parse_modes proto_mode_type pieces"

section \<open>Letters that identify modes\<close>

lemma sign_chars: "is_rust_char ''+''" "is_rust_char ''-''"
  by (simp_all add: is_rust_char_def is_cont_def byte_of_def)

lemma map_filter_append: "List.map_filter f (xs @ ys) = List.map_filter f xs @ List.map_filter f ys"
  by (simp add: List.map_filter_def)

locale mode_letters =
  fixes T :: "'m mode_type" and ok :: "'m \<Rightarrow> bool"
  assumes from_letter: "ok m \<Longrightarrow> from_char T (letter T m) = m"
    and letter_char: "ok m \<Longrightarrow> is_rust_char (letter T m)"
    and letter_sign: "ok m \<Longrightarrow> letter T m \<noteq> ''+'' \<and> letter T m \<noteq> ''-''"
begin

text \<open>A change as it can be written on the wire: a sign, and an argument exactly if the mode takes one.\<close>

fun ok_change :: "'m mode \<Rightarrow> bool" where
  "ok_change (Plus m a) \<longleftrightarrow> ok m \<and> (takes_arg T m \<longleftrightarrow> a \<noteq> None)"
| "ok_change (Minus m a) \<longleftrightarrow> ok m \<and> (takes_arg T m \<longleftrightarrow> a \<noteq> None)"
| "ok_change (NoPrefix m) \<longleftrightarrow> False"

fun change_chars :: "'m mode \<Rightarrow> string list" where
  "change_chars (Plus m a) = [''+'', letter T m]"
| "change_chars (Minus m a) = [''-'', letter T m]"
| "change_chars (NoPrefix m) = [letter T m]"

lemma flag_chars: "mode_flag T c = concat (change_chars c)"
  by (cases c) auto

lemma ok_change_chars: "ok_change c \<Longrightarrow> list_all is_rust_char (change_chars c)"
  by (cases c) (auto simp: letter_char sign_chars)

lemma flags_chars:
  "list_all ok_change cs \<Longrightarrow>
    rust_chars (concat (map (mode_flag T) cs)) = concat (map change_chars cs)"
proof -
  assume "list_all ok_change cs"
  then have "list_all is_rust_char (concat (map change_chars cs))"
    using ok_change_chars by (auto simp: list_all_iff)
  moreover have "concat (map (mode_flag T) cs) = concat (concat (map change_chars cs))"
    by (induction cs) (auto simp: flag_chars)
  ultimately show ?thesis by (simp add: rust_chars_concat)
qed

lemma resolve_ok:
  "\<lbrakk>ok m; takes_arg T m \<longleftrightarrow> a \<noteq> None\<rbrakk> \<Longrightarrow>
    resolve_mode_arg T m c (case a of None \<Rightarrow> args | Some x \<Rightarrow> x # args) = Inr (a, args)"
  by (cases a) (auto simp: resolve_mode_arg_def)

lemma map_filter_arg:
  "List.map_filter mode_arg (c # cs) =
    (case mode_arg c of None \<Rightarrow> List.map_filter mode_arg cs | Some x \<Rightarrow> x # List.map_filter mode_arg cs)"
  by (simp add: List.map_filter_simps)

lemma parse_loop_changes:
  "list_all ok_change cs \<Longrightarrow>
    parse_modes_loop T (concat (map change_chars cs)) cur (List.map_filter mode_arg cs) res = Inr (res @ cs)"
proof (induction cs arbitrary: cur res)
  case Nil
  then show ?case by (simp add: List.map_filter_simps)
next
  case (Cons c cs)
  show ?case
  proof (cases c)
    case (Plus m a)
    then show ?thesis
      using Cons letter_sign [of m] from_letter [of m] resolve_ok [of m a "letter T m" "List.map_filter mode_arg cs"]
      by (simp add: map_filter_arg)
  next
    case (Minus m a)
    then show ?thesis
      using Cons letter_sign [of m] from_letter [of m] resolve_ok [of m a "letter T m" "List.map_filter mode_arg cs"]
      by (simp add: map_filter_arg)
  qed (use Cons in auto)
qed

lemma parse_flags:
  assumes "list_all ok_change cs"
  shows "parse_modes T (concat (map (mode_flag T) cs) # List.map_filter mode_arg cs) = Inr cs"
proof (cases cs)
  case Nil
  then show ?thesis by (simp add: parse_modes_def)
next
  case (Cons c ds)
  obtain x xs where x: "change_chars c = x # xs" "x = ''+'' \<or> x = ''-''"
    using assms Cons by (cases c) auto
  have "rust_chars (concat (map (mode_flag T) cs)) = x # xs @ concat (map change_chars ds)"
    unfolding flags_chars [OF assms] using Cons x(1) by simp
  then have "parse_modes T (concat (map (mode_flag T) cs) # List.map_filter mode_arg cs) =
      parse_modes_loop T (concat (map change_chars cs)) PmNoPrefix (List.map_filter mode_arg cs) []"
    unfolding parse_modes_def using x by (auto simp: Cons)
  then show ?thesis using assms by (simp add: parse_loop_changes)
qed

end

definition user_mode_ok :: "user_mode \<Rightarrow> bool" where
  "user_mode_ok m \<longleftrightarrow> (case m of UUnknown _ \<Rightarrow> False | _ \<Rightarrow> True)"

definition proto_mode_ok :: "proto_mode \<Rightarrow> bool" where
  "proto_mode_ok m \<longleftrightarrow> (case m of PUnknown _ \<Rightarrow> False | PFounder \<Rightarrow> False | _ \<Rightarrow> True)"

interpretation user_letters: mode_letters user_mode_type user_mode_ok
proof
  fix m
  show "user_mode_ok m \<Longrightarrow> from_char user_mode_type (letter user_mode_type m) = m"
    by (cases m) (simp_all add: user_mode_ok_def user_mode_type_def user_mode_from_char_def)
  show "user_mode_ok m \<Longrightarrow> is_rust_char (letter user_mode_type m)"
    by (cases m) (simp_all add: user_mode_ok_def user_mode_type_def is_rust_char_def is_cont_def byte_of_def)
  show "user_mode_ok m \<Longrightarrow> letter user_mode_type m \<noteq> ''+'' \<and> letter user_mode_type m \<noteq> ''-''"
    by (cases m) (simp_all add: user_mode_ok_def user_mode_type_def)
qed

interpretation proto_letters: mode_letters proto_mode_type proto_mode_ok
proof
  fix m
  show "proto_mode_ok m \<Longrightarrow> from_char proto_mode_type (letter proto_mode_type m) = m"
    by (cases m) (simp_all add: proto_mode_ok_def proto_mode_type_def proto_mode_from_char_def)
  show "proto_mode_ok m \<Longrightarrow> is_rust_char (letter proto_mode_type m)"
    by (cases m) (simp_all add: proto_mode_ok_def proto_mode_type_def is_rust_char_def is_cont_def byte_of_def)
  show "proto_mode_ok m \<Longrightarrow> letter proto_mode_type m \<noteq> ''+'' \<and> letter proto_mode_type m \<noteq> ''-''"
    by (cases m) (simp_all add: proto_mode_ok_def proto_mode_type_def)
qed

lemma takes_arg_proto: "takes_arg proto_mode_type m = proto_mode_takes_arg m"
  by (simp add: proto_mode_type_def)

section \<open>Arguments of the parser\<close>

text \<open>A signed parse hands every argument it was given to a change.\<close>

lemma parse_modes_loop_args:
  "\<lbrakk>parse_modes_loop T cs cur args res = Inr out; cur \<noteq> PmNoPrefix\<rbrakk> \<Longrightarrow>
    List.map_filter mode_arg out = List.map_filter mode_arg res @ args"
proof (induction T cs cur args res rule: parse_modes_loop.induct)
  case (1 T cur args res)
  then show ?case by (simp split: if_splits)
next
  case (2 T c cs cur args res)
  consider "c = ''+''" | "c = ''-''" | (mode) arg rest where "c \<noteq> ''+''" "c \<noteq> ''-''"
    "resolve_mode_arg T (from_char T c) c args = Inr (arg, rest)"
    using 2(4) by (cases "resolve_mode_arg T (from_char T c) c args") (auto split: if_splits)
  then show ?case
  proof cases
    case mode
    have "args = (case arg of None \<Rightarrow> rest | Some x \<Rightarrow> x # rest)"
      using mode(3) by (auto simp: resolve_mode_arg_def split: if_splits list.splits)
    moreover obtain s where s: "cur = PmPlus \<and> s = Plus (from_char T c) arg \<or> cur = PmMinus \<and> s = Minus (from_char T c) arg"
      using 2(5) by (cases cur) auto
    then have "parse_modes_loop T cs cur rest (res @ [s]) = Inr out" "mode_arg s = arg"
      using 2(4) mode by auto
    moreover have "List.map_filter mode_arg out = List.map_filter mode_arg (res @ [s]) @ rest"
      using 2(3) [OF mode(1,2,3) refl] 2(4,5) mode s by auto
    ultimately show ?thesis
      by (cases arg) (simp_all add: map_filter_append List.map_filter_simps)
  qed (use 2 in auto)
qed

section \<open>Properties\<close>

text \<open>C38. Writing channel mode changes with \<open>flag\<close> and \<open>arg\<close> and parsing the result gives the changes
  back, for every list of signed changes of known modes other than \<open>Founder\<close> whose arguments are
  present exactly where the mode takes one.\<close>

theorem channel_modes_roundtrip:
  assumes "list_all (\<lambda>c. c \<noteq> NoPrefix (mode_mode c) \<and> proto_mode_ok (mode_mode c) \<and>
      (proto_mode_takes_arg (mode_mode c) \<longleftrightarrow> mode_arg c \<noteq> None)) cs"
  shows "as_channel_modes (concat (map (mode_flag proto_mode_type) cs) # List.map_filter mode_arg cs) = Inr cs"
proof -
  have "proto_letters.ok_change c"
    if "c \<noteq> NoPrefix (mode_mode c) \<and> proto_mode_ok (mode_mode c) \<and>
      (proto_mode_takes_arg (mode_mode c) \<longleftrightarrow> mode_arg c \<noteq> None)" for c
    using that takes_arg_proto by (cases c) auto
  then have "list_all proto_letters.ok_change cs" using assms by (auto simp: list_all_iff)
  then show ?thesis unfolding as_channel_modes_def by (rule proto_letters.parse_flags)
qed

theorem channel_modes_roundtrip_witness:
  "as_channel_modes [''+o-k+i'', ''nick'', ''key''] =
    Inr [Plus POper (Some ''nick''), Minus PKey (Some ''key''), Plus PInviteOnly None]"
  using channel_modes_roundtrip [of "[Plus POper (Some ''nick''), Minus PKey (Some ''key''), Plus PInviteOnly None]"]
  by (simp add: proto_mode_ok_def proto_mode_takes_arg_def proto_mode_type_def List.map_filter_simps)

text \<open>\<open>Founder\<close> has no letter of its own: what it displays parses back as \<open>Quiet\<close>.\<close>

theorem founder_parses_as_quiet:
  "as_channel_modes [mode_flag proto_mode_type (Plus PFounder (Some ''nick'')), ''nick''] =
    Inr [Plus PQuiet (Some ''nick'')]"
  by (simp add: as_channel_modes_def parse_modes_def proto_mode_type_def is_cont_def byte_of_def
      resolve_mode_arg_def proto_mode_from_char_def proto_mode_takes_arg_def)

text \<open>A parse that succeeds on a signed mode string uses every argument exactly once and in
  order: the arguments of the changes are the arguments given.\<close>

theorem channel_modes_use_all_args:
  assumes "as_channel_modes (first # args) = Inr changes"
    and "hd (rust_chars first) = ''+'' \<or> hd (rust_chars first) = ''-''"
    and "first \<noteq> []"
  shows "List.map_filter mode_arg changes = args"
proof -
  obtain c cs where c: "rust_chars first = c # cs" using assms(3) by (cases first) auto
  then show ?thesis
    using assms(1,2) parse_modes_loop_args [of proto_mode_type cs _ args "[]" changes]
    unfolding as_channel_modes_def parse_modes_def by (auto simp: List.map_filter_simps split: if_splits)
qed

end
