(* ===== verification/Clock.thy ===== *)
theory Clock
  imports Prelude
begin

text \<open>
  \<open>crates/slirc-proto/src/sync/clock.rs\<close>: server identifiers, hybrid logical timestamps with
  their total order, and vector clocks with their causal comparison.  The hash of a server
  identifier (\<open>DefaultHasher\<close>, whose algorithm the Rust documentation leaves unspecified) and
  the wall clock are arguments.
\<close>

section \<open>Server identifiers and hybrid timestamps\<close>

datatype server_id = ServerId (sid_str: string)

text \<open>\<open>i64\<close> milliseconds are an \<^typ>\<open>int\<close>, the counter and the server hash keep their width.\<close>

datatype hybrid_timestamp = HybridTimestamp (millis: int) (counter: "32 word") (server_hash: "64 word")

definition ht_new :: "(string \<Rightarrow> 64 word) \<Rightarrow> int \<Rightarrow> 32 word \<Rightarrow> server_id \<Rightarrow> hybrid_timestamp" where
  "ht_new hash ms c server = HybridTimestamp ms c (hash (sid_str server))"

definition ht_now :: "(string \<Rightarrow> 64 word) \<Rightarrow> int \<Rightarrow> server_id \<Rightarrow> hybrid_timestamp" where
  "ht_now hash now server = ht_new hash now 0 server"

definition ht_increment :: "hybrid_timestamp \<Rightarrow> hybrid_timestamp" where
  "ht_increment t = HybridTimestamp (millis t) (saturating_inc (counter t)) (server_hash t)"

definition ht_update :: "int \<Rightarrow> hybrid_timestamp \<Rightarrow> hybrid_timestamp \<Rightarrow> hybrid_timestamp" where
  "ht_update now self other =
    (let max_millis = max (max (millis self) (millis other)) now;
         c = (if max_millis = millis self \<and> max_millis = millis other
              then saturating_inc (max (counter self) (counter other))
              else if max_millis = millis self then saturating_inc (counter self)
              else if max_millis = millis other then saturating_inc (counter other)
              else 0)
     in HybridTimestamp max_millis c (server_hash self))"

definition ht_cmp :: "hybrid_timestamp \<Rightarrow> hybrid_timestamp \<Rightarrow> ordering" where
  "ht_cmp a b = then_ord (then_ord (cmp_of (millis a) (millis b)) (cmp_of (counter a) (counter b)))
                         (cmp_of (server_hash a) (server_hash b))"

instantiation hybrid_timestamp :: linorder
begin

definition less_hybrid_timestamp :: "hybrid_timestamp \<Rightarrow> hybrid_timestamp \<Rightarrow> bool" where
  "a < b \<longleftrightarrow> ht_cmp a b = Less"

definition less_eq_hybrid_timestamp :: "hybrid_timestamp \<Rightarrow> hybrid_timestamp \<Rightarrow> bool" where
  "a \<le> b \<longleftrightarrow> ht_cmp a b \<noteq> Greater"

instance
proof
  fix a b c :: hybrid_timestamp
  show "(a < b) = (a \<le> b \<and> \<not> b \<le> a)"
    by (auto simp: less_hybrid_timestamp_def less_eq_hybrid_timestamp_def ht_cmp_def)
  show "a \<le> a" by (simp add: less_eq_hybrid_timestamp_def ht_cmp_def)
  show "\<lbrakk>a \<le> b; b \<le> c\<rbrakk> \<Longrightarrow> a \<le> c"
    by (auto simp: less_eq_hybrid_timestamp_def ht_cmp_def not_less)
  show "\<lbrakk>a \<le> b; b \<le> a\<rbrakk> \<Longrightarrow> a = b"
    by (cases a; cases b) (auto simp: less_eq_hybrid_timestamp_def ht_cmp_def not_less)
  show "a \<le> b \<or> b \<le> a"
    by (auto simp: less_eq_hybrid_timestamp_def ht_cmp_def)
qed

end

lemma ht_less_iff:
  "a < b \<longleftrightarrow> millis a < millis b \<or> (millis a = millis b \<and>
     (counter a < counter b \<or> (counter a = counter b \<and> server_hash a < server_hash b)))"
  by (auto simp: less_hybrid_timestamp_def ht_cmp_def)

lemma ht_le_iff:
  "a \<le> b \<longleftrightarrow> millis a < millis b \<or> (millis a = millis b \<and>
     (counter a < counter b \<or> (counter a = counter b \<and> server_hash a \<le> server_hash b)))"
  for a b :: hybrid_timestamp
  by (auto simp: less_eq_hybrid_timestamp_def ht_cmp_def not_less)

section \<open>Vector clocks\<close>

record vector_clock =
  entries :: "(string \<times> 64 word) list"

definition vc_new :: vector_clock where
  "vc_new = \<lparr>entries = []\<rparr>"

definition vc_lookup :: "vector_clock \<Rightarrow> string \<Rightarrow> 64 word" where
  "vc_lookup vc k = (case map_of (entries vc) k of None \<Rightarrow> 0 | Some n \<Rightarrow> n)"

definition vc_get :: "vector_clock \<Rightarrow> server_id \<Rightarrow> 64 word" where
  "vc_get vc server = vc_lookup vc (sid_str server)"

definition vc_increment :: "server_id \<Rightarrow> vector_clock \<Rightarrow> vector_clock" where
  "vc_increment server vc =
    vc\<lparr>entries := AList.update (sid_str server) (saturating_inc (vc_lookup vc (sid_str server))) (entries vc)\<rparr>"

fun vc_merge_step :: "string \<times> 64 word \<Rightarrow> vector_clock \<Rightarrow> vector_clock" where
  "vc_merge_step (server, c) vc =
    vc\<lparr>entries := AList.update server (max (vc_lookup vc server) c) (entries vc)\<rparr>"

definition vc_merge :: "vector_clock \<Rightarrow> vector_clock \<Rightarrow> vector_clock" where
  "vc_merge self other = fold vc_merge_step (entries other) self"

text \<open>The loop of \<open>partial_cmp_causal\<close>, with its two flags.\<close>

fun vc_cmp_loop :: "vector_clock \<Rightarrow> vector_clock \<Rightarrow> string list \<Rightarrow> bool \<times> bool \<Rightarrow> bool \<times> bool" where
  "vc_cmp_loop self other [] flags = flags"
| "vc_cmp_loop self other (server # servers) (self_greater, other_greater) =
    vc_cmp_loop self other servers
      (if vc_lookup self server > vc_lookup other server then (True, other_greater)
       else if vc_lookup other server > vc_lookup self server then (self_greater, True)
       else (self_greater, other_greater))"

definition vc_partial_cmp_causal :: "vector_clock \<Rightarrow> vector_clock \<Rightarrow> ordering option" where
  "vc_partial_cmp_causal self other =
    (case vc_cmp_loop self other (remdups (keys (entries self) @ keys (entries other))) (False, False) of
       (False, False) \<Rightarrow> Some Equal
     | (True, False) \<Rightarrow> Some Greater
     | (False, True) \<Rightarrow> Some Less
     | (True, True) \<Rightarrow> None)"

definition vc_happened_before :: "vector_clock \<Rightarrow> vector_clock \<Rightarrow> bool" where
  "vc_happened_before self other \<longleftrightarrow> vc_partial_cmp_causal self other = Some Less"

definition vc_wf :: "vector_clock \<Rightarrow> bool" where
  "vc_wf vc \<longleftrightarrow> distinct (keys (entries vc))"

section \<open>Hybrid timestamps: monotonicity\<close>

lemma ht_increment_gt: "counter t \<noteq> -1 \<Longrightarrow> t < ht_increment t"
  by (simp add: ht_less_iff ht_increment_def saturating_inc_gt)

lemma ht_update_millis: "millis (ht_update now a b) = max (max (millis a) (millis b)) now"
  by (simp add: ht_update_def Let_def)

lemma ht_update_gt_self: "counter a \<noteq> -1 \<Longrightarrow> counter b \<noteq> -1 \<Longrightarrow> a < ht_update now a b"
  by (auto simp: ht_less_iff ht_update_def Let_def max_def saturating_inc_gt not_le
      intro: le_less_trans [OF _ saturating_inc_gt])

lemma ht_update_gt_other: "counter a \<noteq> -1 \<Longrightarrow> counter b \<noteq> -1 \<Longrightarrow> b < ht_update now a b"
  by (auto simp: ht_less_iff ht_update_def Let_def max_def saturating_inc_gt not_le
      intro: le_less_trans [OF _ saturating_inc_gt])

section \<open>Vector clocks: lookups and comparison\<close>

lemma vc_lookup_increment [hash_simps]:
  "vc_lookup (vc_increment server vc) k =
    (if k = sid_str server then saturating_inc (vc_lookup vc k) else vc_lookup vc k)"
  by (simp add: vc_lookup_def vc_increment_def hash_simps)

interpretation vcm: keyed_loop vc_merge_step vc_lookup "\<lambda>c x. max x c"
  by unfold_locales (simp add: vc_lookup_def hash_simps)

lemma vc_lookup_merge [hash_simps]:
  "vc_wf b \<Longrightarrow> vc_lookup (vc_merge a b) k = max (vc_lookup a k) (vc_lookup b k)"
  by (simp add: vc_merge_def vc_wf_def vcm.lookup_fold)
     (simp add: vc_lookup_def split: option.split)

lemma vc_wf_step [inv_intros]: "vc_wf s \<Longrightarrow> vc_wf (vc_merge_step e s)"
  by (cases e) (simp add: vc_wf_def distinct_update)

lemma vc_wf_fold [inv_intros]: "vc_wf s \<Longrightarrow> vc_wf (fold vc_merge_step es s)"
  by (induction es arbitrary: s) (auto intro: inv_intros)

lemma vc_wf_merge [inv_intros]: "vc_wf a \<Longrightarrow> vc_wf (vc_merge a b)"
  by (simp add: vc_merge_def vc_wf_fold)

lemma vc_wf_increment [inv_intros]: "vc_wf vc \<Longrightarrow> vc_wf (vc_increment s vc)"
  by (simp add: vc_wf_def vc_increment_def distinct_update)

lemma vc_cmp_loop_flags:
  "vc_cmp_loop a b ks (x, y) =
    (x \<or> (\<exists>k \<in> set ks. vc_lookup b k < vc_lookup a k), y \<or> (\<exists>k \<in> set ks. vc_lookup a k < vc_lookup b k))"
  by (induction ks arbitrary: x y) auto

lemma vc_lookup_absent: "k \<notin> set (keys (entries vc)) \<Longrightarrow> vc_lookup vc k = 0"
  by (metis map_of_None_iff option.case(1) vc_lookup_def)

lemma vc_exceeds_known:
  "(\<exists>k \<in> set (remdups (keys (entries a) @ keys (entries b))). vc_lookup a k < vc_lookup b k)
    \<longleftrightarrow> (\<exists>k. vc_lookup a k < vc_lookup b k)"
  "(\<exists>k \<in> set (remdups (keys (entries a) @ keys (entries b))). vc_lookup b k < vc_lookup a k)
    \<longleftrightarrow> (\<exists>k. vc_lookup b k < vc_lookup a k)"
  using vc_lookup_absent by (fastforce simp del: map_append)+

lemma vc_partial_cmp_causal_alt:
  "vc_partial_cmp_causal a b =
    (if \<forall>k. vc_lookup a k \<le> vc_lookup b k
     then if \<forall>k. vc_lookup b k \<le> vc_lookup a k then Some Equal else Some Less
     else if \<forall>k. vc_lookup b k \<le> vc_lookup a k then Some Greater else None)"
proof -
  let ?ks = "remdups (keys (entries a) @ keys (entries b))"
  have "vc_cmp_loop a b ?ks (False, False) =
      (\<exists>k. vc_lookup b k < vc_lookup a k, \<exists>k. vc_lookup a k < vc_lookup b k)"
    unfolding vc_cmp_loop_flags vc_exceeds_known by simp
  then show ?thesis
    unfolding vc_partial_cmp_causal_def by (auto simp: not_less [symmetric] split: bool.splits)
qed

section \<open>Properties\<close>

text \<open>The timestamp \<open>HybridTimestamp::update\<close> returns is strictly after both of its
  arguments, whatever the wall clock reads, as long as neither logical counter is at its maximum.\<close>

theorem ht_update_after_both:
  assumes "counter a \<noteq> -1" and "counter b \<noteq> -1"
  shows "a < ht_update now a b \<and> b < ht_update now a b"
  using assms by (simp add: ht_update_gt_self ht_update_gt_other)

text \<open>A saturated logical counter breaks that promise: the timestamp \<open>update\<close> returns can
  then be equal to one of its arguments.\<close>

theorem ht_update_saturated:
  "ht_update 0 (HybridTimestamp 5 (-1) 1) (HybridTimestamp 5 (-1) 1) = HybridTimestamp 5 (-1) 1"
  by (simp add: ht_update_def saturating_inc_def)

text \<open>\<open>VectorClock::partial_cmp_causal\<close> decides the pointwise order of the two clocks over
  all servers (absent entries count as 0), and \<open>None\<close> is exactly concurrency.\<close>

theorem vc_partial_cmp_causal_pointwise:
  "(vc_partial_cmp_causal a b = Some Equal \<longleftrightarrow> (\<forall>s. vc_get a s = vc_get b s)) \<and>
   (vc_happened_before a b \<longleftrightarrow> (\<forall>s. vc_get a s \<le> vc_get b s) \<and> (\<exists>s. vc_get a s < vc_get b s)) \<and>
   (vc_partial_cmp_causal a b = Some Greater \<longleftrightarrow> vc_happened_before b a) \<and>
   (vc_partial_cmp_causal a b = None \<longleftrightarrow>
     (\<exists>s. vc_get a s < vc_get b s) \<and> (\<exists>s. vc_get b s < vc_get a s))"
proof -
  have q: "(\<forall>s. P s) \<longleftrightarrow> (\<forall>k. P (ServerId k))" "(\<exists>s. P s) \<longleftrightarrow> (\<exists>k. P (ServerId k))" for P
    by (metis server_id.exhaust)+
  define P Q where "P = (\<forall>k. vc_lookup a k \<le> vc_lookup b k)" and "Q = (\<forall>k. vc_lookup b k \<le> vc_lookup a k)"
  have "(\<forall>s. vc_get a s = vc_get b s) = (P \<and> Q)" "(\<forall>s. vc_get a s \<le> vc_get b s) = P"
    "(\<exists>s. vc_get a s < vc_get b s) = (\<not> Q)" "(\<exists>s. vc_get b s < vc_get a s) = (\<not> P)"
    unfolding q P_def Q_def by (auto simp: vc_get_def not_le intro: antisym)
  then show ?thesis
    unfolding vc_happened_before_def vc_partial_cmp_causal_alt P_def [symmetric] Q_def [symmetric] by auto
qed

end
