(* ===== verification/Channel_State.thy ===== *)
theory Channel_State
  imports Extban Mode_Types Clock
begin

text \<open>
  The data a channel actor owns and the pure helpers on it: \<open>src/state/channel.rs\<close> (members, list
  entries, topic), the modes and flood parameters of \<open>src/state/actor/types.rs\<close>, and
  \<open>src/state/actor/helpers/\<close> and \<open>validation/\<close>: mode letters, the persisted mode string, list
  modes, ban tests.  A \<open>HashSet\<close> of modes is a duplicate-free list; its order stands for the
  iteration order.
\<close>

section \<open>Members, lists, topic\<close>

record list_entry =
  en_mask :: string
  en_set_by :: string
  en_set_at :: int

record topic =
  tp_text :: string
  tp_set_by :: string
  tp_set_at :: int

record member_modes =
  mo_owner :: bool
  mo_owner_ts :: "hybrid_timestamp option"
  mo_admin :: bool
  mo_admin_ts :: "hybrid_timestamp option"
  mo_op :: bool
  mo_op_ts :: "hybrid_timestamp option"
  mo_halfop :: bool
  mo_halfop_ts :: "hybrid_timestamp option"
  mo_voice :: bool
  mo_voice_ts :: "hybrid_timestamp option"
  mo_join_time :: "int option"

definition default_modes :: member_modes where
  "default_modes =
    \<lparr>mo_owner = False, mo_owner_ts = None, mo_admin = False, mo_admin_ts = None, mo_op = False,
     mo_op_ts = None, mo_halfop = False, mo_halfop_ts = None, mo_voice = False, mo_voice_ts = None,
     mo_join_time = None\<rparr>"

definition prefix_char :: "member_modes \<Rightarrow> char option" where
  "prefix_char m =
    (if mo_owner m then Some CHR ''~'' else if mo_admin m then Some CHR ''&''
     else if mo_op m then Some CHR ''@'' else if mo_halfop m then Some CHR ''%''
     else if mo_voice m then Some CHR ''+'' else None)"

definition all_prefix_chars :: "member_modes \<Rightarrow> string" where
  "all_prefix_chars m =
    (if mo_owner m then ''~'' else []) @ (if mo_admin m then ''&'' else []) @
    (if mo_op m then ''@'' else []) @ (if mo_halfop m then ''%'' else []) @
    (if mo_voice m then ''+'' else [])"

definition has_op_or_higher :: "member_modes \<Rightarrow> bool" where
  "has_op_or_higher m \<longleftrightarrow> mo_owner m \<or> mo_admin m \<or> mo_op m"

definition has_voice_or_higher :: "member_modes \<Rightarrow> bool" where
  "has_voice_or_higher m \<longleftrightarrow> mo_owner m \<or> mo_admin m \<or> mo_op m \<or> mo_halfop m \<or> mo_voice m"

definition has_halfop_or_higher :: "member_modes \<Rightarrow> bool" where
  "has_halfop_or_higher m \<longleftrightarrow> mo_owner m \<or> mo_admin m \<or> mo_op m \<or> mo_halfop m"

section \<open>Channel modes\<close>

datatype channel_mode =
    MNoExternal | MTopicLock | MModerated | MModeratedUnreg | MOpModerated | MNoNickChange
  | MNoColors | MTlsOnly | MNoKnock | MNoInvite | MNoNotice | MFreeInvite | MOperOnly
  | MAdminOnly | MAuditorium | MRegistered | MNoKicks | MSecret | MPrivate | MInviteOnly
  | MNoCtcp | MPermanent | MRegisteredOnly | MRoleplay | MDelayedJoin | MStripColors
  | MAntiCaps | MCensor | MKey string hybrid_timestamp | MLimit nat hybrid_timestamp
  | MJoinForward string hybrid_timestamp | MFlood string hybrid_timestamp
  | MRedirect string hybrid_timestamp

fun mode_to_char :: "channel_mode \<Rightarrow> string option" where
  "mode_to_char MNoExternal = Some ''n''"
| "mode_to_char MTopicLock = Some ''t''"
| "mode_to_char MModerated = Some ''m''"
| "mode_to_char MModeratedUnreg = Some ''M''"
| "mode_to_char MOpModerated = Some ''U''"
| "mode_to_char MNoNickChange = Some ''N''"
| "mode_to_char MNoColors = Some ''c''"
| "mode_to_char MTlsOnly = Some ''z''"
| "mode_to_char MNoKnock = Some ''K''"
| "mode_to_char MNoInvite = Some ''V''"
| "mode_to_char MNoNotice = Some ''T''"
| "mode_to_char MFreeInvite = Some ''g''"
| "mode_to_char MOperOnly = Some ''O''"
| "mode_to_char MAdminOnly = Some ''A''"
| "mode_to_char MAuditorium = Some ''u''"
| "mode_to_char MRegistered = Some ''r''"
| "mode_to_char MNoKicks = Some ''Q''"
| "mode_to_char MSecret = Some ''s''"
| "mode_to_char MPrivate = Some ''p''"
| "mode_to_char MInviteOnly = Some ''i''"
| "mode_to_char MNoCtcp = Some ''C''"
| "mode_to_char MPermanent = Some ''P''"
| "mode_to_char MRegisteredOnly = Some ''R''"
| "mode_to_char MRoleplay = Some ''E''"
| "mode_to_char MDelayedJoin = Some ''D''"
| "mode_to_char MStripColors = Some ''S''"
| "mode_to_char MAntiCaps = Some ''B''"
| "mode_to_char MCensor = Some ''G''"
| "mode_to_char (MKey _ _) = None"
| "mode_to_char (MLimit _ _) = None"
| "mode_to_char (MJoinForward _ _) = None"
| "mode_to_char (MFlood _ _) = None"
| "mode_to_char (MRedirect _ _) = None"

definition char_to_mode :: "string \<Rightarrow> channel_mode option" where
  "char_to_mode c =
    (if c = ''n'' then Some MNoExternal
     else if c = ''t'' then Some MTopicLock
     else if c = ''m'' then Some MModerated
     else if c = ''M'' then Some MModeratedUnreg
     else if c = ''U'' then Some MOpModerated
     else if c = ''N'' then Some MNoNickChange
     else if c = ''c'' then Some MNoColors
     else if c = ''z'' then Some MTlsOnly
     else if c = ''K'' then Some MNoKnock
     else if c = ''V'' then Some MNoInvite
     else if c = ''T'' then Some MNoNotice
     else if c = ''g'' then Some MFreeInvite
     else if c = ''O'' then Some MOperOnly
     else if c = ''A'' then Some MAdminOnly
     else if c = ''u'' then Some MAuditorium
     else if c = ''r'' then Some MRegistered
     else if c = ''Q'' then Some MNoKicks
     else if c = ''s'' then Some MSecret
     else if c = ''p'' then Some MPrivate
     else if c = ''i'' then Some MInviteOnly
     else if c = ''C'' then Some MNoCtcp
     else if c = ''P'' then Some MPermanent
     else if c = ''R'' then Some MRegisteredOnly
     else if c = ''E'' then Some MRoleplay
     else if c = ''D'' then Some MDelayedJoin
     else if c = ''S'' then Some MStripColors
     else if c = ''B'' then Some MAntiCaps
     else if c = ''G'' then Some MCensor
     else None)"

text \<open>The letters \<open>modes_to_string\<close> writes for the modes without parameter, in its order.\<close>

definition simple_flags :: "(channel_mode \<times> string) list" where
  "simple_flags =
    [(MNoExternal, ''n''), (MTopicLock, ''t''), (MModerated, ''m''), (MModeratedUnreg, ''M''),
     (MOpModerated, ''U''), (MNoNickChange, ''N''), (MNoColors, ''c''), (MTlsOnly, ''z''),
     (MNoKnock, ''K''), (MNoInvite, ''V''), (MNoNotice, ''T''), (MFreeInvite, ''g''),
     (MOperOnly, ''O''), (MAdminOnly, ''A''), (MAuditorium, ''u''), (MRegistered, ''r''),
     (MNoKicks, ''Q''), (MSecret, ''s''), (MPrivate, ''p''), (MInviteOnly, ''i''),
     (MNoCtcp, ''C''), (MPermanent, ''P''), (MRegisteredOnly, ''R''), (MDelayedJoin, ''D''),
     (MStripColors, ''S''), (MAntiCaps, ''B''), (MCensor, ''G''), (MRoleplay, ''E'')]"

text \<open>The loop over the modes that adds the parametric ones: flags and parameters so far.\<close>

fun param_step :: "channel_mode \<Rightarrow> string \<times> string list \<Rightarrow> string \<times> string list" where
  "param_step (MKey k _) (flags, params) =
    (if CHR ''k'' \<notin> set flags then (flags @ ''k'', params @ [k]) else (flags, params))"
| "param_step (MLimit l _) (flags, params) =
    (if CHR ''l'' \<notin> set flags then (flags @ ''l'', params @ [show_nat l]) else (flags, params))"
| "param_step (MJoinForward target _) (flags, params) =
    (if CHR ''F'' \<notin> set flags then (flags @ ''F'', params @ [target]) else (flags, params))"
| "param_step (MFlood target _) (flags, params) =
    (if CHR ''f'' \<notin> set flags then (flags @ ''f'', params @ [target]) else (flags, params))"
| "param_step (MRedirect target _) (flags, params) =
    (if CHR ''L'' \<notin> set flags then (flags @ ''L'', params @ [target]) else (flags, params))"
| "param_step _ acc = acc"

definition modes_to_string :: "channel_mode list \<Rightarrow> string" where
  "modes_to_string modes =
    (let flags = ''+'' @ concat (map (\<lambda>(m, c). if m \<in> set modes then c else []) simple_flags);
         (flags, params) = fold param_step modes (flags, [])
     in if params = [] then flags else flags @ '' '' @ join_with '' '' params)"

definition insert_char_mode :: "string \<Rightarrow> channel_mode list \<Rightarrow> channel_mode list" where
  "insert_char_mode c modes = (case char_to_mode c of Some m \<Rightarrow> List.insert m modes | None \<Rightarrow> modes)"

text \<open>\<open>l as usize\<close> for an \<open>i32\<close> on a 64-bit target: sign extension.\<close>

definition i32_as_usize :: "int \<Rightarrow> nat" where
  "i32_as_usize l = nat (l mod 2 ^ 64)"

definition modes_from_string ::
  "(string \<Rightarrow> 64 word) \<Rightarrow> string \<Rightarrow> string option \<Rightarrow> int option \<Rightarrow> channel_mode list" where
  "modes_from_string hash modes_str key limit =
    (let modes = (case rust_chars modes_str of
                    [] \<Rightarrow> []
                  | first # chars \<Rightarrow>
                      fold insert_char_mode chars (if first \<noteq> ''+'' then insert_char_mode first [] else []));
         ts = ht_new hash 0 0 (ServerId ''000'');
         modes = (case key of Some k \<Rightarrow> List.insert (MKey k ts) modes | None \<Rightarrow> modes)
     in case limit of Some l \<Rightarrow> List.insert (MLimit (i32_as_usize l) ts) modes | None \<Rightarrow> modes)"

section \<open>Flood parameters\<close>

datatype flood_type = FloodMessage | FloodJoin

record flood_param =
  fp_count :: nat
  fp_period :: nat
  fp_type :: flood_type

definition U32_MAX :: nat where
  "U32_MAX = 2 ^ 32 - 1"

definition flood_from_str :: "string \<Rightarrow> string + flood_param" where
  "flood_from_str s =
    (case rsplit_once CHR '':'' s of
       None \<Rightarrow> Inl (''Missing period separator '' @ [CHR 0x27, CHR '':'', CHR 0x27])
     | Some (rest, period_str) \<Rightarrow>
         (case parse_uint U32_MAX period_str of
            None \<Rightarrow> Inl ''Invalid period''
          | Some period \<Rightarrow>
              if period = 0 then Inl ''Period must be positive''
              else let count_str = takeWhile is_ascii_digit rest; type_str = dropWhile is_ascii_digit rest
              in (case parse_uint U32_MAX count_str of
                   None \<Rightarrow> Inl ''Invalid count''
                 | Some count \<Rightarrow>
                     if count = 0 then Inl ''Count must be positive''
                     else if type_str = [] \<or> type_str = ''m''
                     then Inr \<lparr>fp_count = count, fp_period = period, fp_type = FloodMessage\<rparr>
                     else if type_str = ''j''
                     then Inr \<lparr>fp_count = count, fp_period = period, fp_type = FloodJoin\<rparr>
                     else Inl ''Unknown flood type (supported: m, j)'')))"

definition flood_display :: "flood_param \<Rightarrow> string" where
  "flood_display p =
    show_nat (fp_count p) @ '':'' @ show_nat (fp_period p) @ '':'' @
    (case fp_type p of FloodMessage \<Rightarrow> ''m'' | FloodJoin \<Rightarrow> ''j'')"

section \<open>List modes and bans\<close>

definition MAX_MASK_LENGTH :: nat where
  "MAX_MASK_LENGTH = 350"

definition MAX_LIST_ENTRIES :: nat where
  "MAX_LIST_ENTRIES = 100"

definition apply_list_mode ::
  "int \<Rightarrow> list_entry list \<Rightarrow> string \<Rightarrow> bool \<Rightarrow> string \<Rightarrow> list_entry list \<times> bool" where
  "apply_list_mode now lst bmask adding set_by =
    (if length bmask > MAX_MASK_LENGTH then (lst, False)
     else let normalized = irc_to_lower bmask in
       if adding then
         if length lst \<ge> MAX_LIST_ENTRIES then (lst, False)
         else if list_ex (\<lambda>e. irc_eq (en_mask e) normalized) lst then (lst, False)
         else (lst @ [\<lparr>en_mask = normalized, en_set_by = set_by, en_set_at = now\<rparr>], True)
       else let kept = filter (\<lambda>e. \<not> irc_eq (en_mask e) normalized) lst
         in (kept, length lst \<noteq> length kept))"

definition format_user_mask :: "string \<Rightarrow> string \<Rightarrow> string \<Rightarrow> string" where
  "format_user_mask nick user host = nick @ ''!'' @ user @ ''@'' @ host"

definition create_user_mask :: "user_context \<Rightarrow> string" where
  "create_user_mask ctx = format_user_mask (ctx_nickname ctx) (ctx_username ctx) (ctx_hostname ctx)"

fun is_banned :: "string \<Rightarrow> user_context \<Rightarrow> list_entry list \<Rightarrow> list_entry list \<Rightarrow> bool" where
  "is_banned user_mask ctx [] excepts = False"
| "is_banned user_mask ctx (ban # bans) excepts =
    (if matches_ban_or_except (en_mask ban) user_mask ctx \<and>
        \<not> list_ex (\<lambda>e. matches_ban_or_except (en_mask e) user_mask ctx) excepts
     then True else is_banned user_mask ctx bans excepts)"

section \<open>Mode letters\<close>

fun is_param_mode :: "channel_mode \<Rightarrow> bool" where
  "is_param_mode (MKey _ _) = True"
| "is_param_mode (MLimit _ _) = True"
| "is_param_mode (MJoinForward _ _) = True"
| "is_param_mode (MFlood _ _) = True"
| "is_param_mode (MRedirect _ _) = True"
| "is_param_mode _ = False"

lemma mode_to_char_None: "mode_to_char m = None \<longleftrightarrow> is_param_mode m"
  by (cases m) auto

lemma char_to_mode_to_char: "mode_to_char m = Some c \<Longrightarrow> char_to_mode c = Some m"
  by (cases m; simp only: mode_to_char.simps option.inject option.distinct; hypsubst?; code_simp?)

lemma simple_flags_letters: "(m, c) \<in> set simple_flags \<longleftrightarrow> mode_to_char m = Some c"
  by (cases m) (auto simp: simple_flags_def)

lemma simple_flags_char: "(m, c) \<in> set simple_flags \<Longrightarrow> is_rust_char c"
  by (auto simp: simple_flags_def is_rust_char_def is_cont_def byte_of_def)

lemma set_insert_char_modes:
  "set (fold insert_char_mode cs modes) = set modes \<union> {m. \<exists>c \<in> set cs. char_to_mode c = Some m}"
  by (induction cs arbitrary: modes) (auto simp: insert_char_mode_def split: option.splits)

lemma fold_param_step_simple: "list_all (\<lambda>m. \<not> is_param_mode m) modes \<Longrightarrow> fold param_step modes acc = acc"
proof (induction modes)
  case (Cons m modes)
  then have "param_step m acc = acc" by (cases m; cases acc) auto
  then show ?case using Cons by simp
qed simp

lemma rust_chars_flags:
  "rust_chars (''+'' @ concat (map (\<lambda>(m, c). if m \<in> set modes then c else []) simple_flags)) =
    ''+'' # map snd (filter (\<lambda>(m, c). m \<in> set modes) simple_flags)"
proof -
  let ?cs = "map snd (filter (\<lambda>(m, c). m \<in> set modes) simple_flags)"
  have "concat (map (\<lambda>(m, c). if m \<in> set modes then c else []) xs) =
      concat (map snd (filter (\<lambda>(m, c). m \<in> set modes) xs))" for xs :: "(channel_mode \<times> string) list"
    by (induction xs) auto
  moreover have "list_all is_rust_char (''+'' # ?cs)"
    using simple_flags_char sign_chars by (auto simp: list_all_iff)
  ultimately show ?thesis using rust_chars_concat [of "''+'' # ?cs"] by simp
qed

section \<open>Flood parameters\<close>

lemma takeWhile_digits:
  "list_all is_ascii_digit ds \<Longrightarrow> (r = [] \<or> \<not> is_ascii_digit (hd r)) \<Longrightarrow>
    takeWhile is_ascii_digit (ds @ r) = ds \<and> dropWhile is_ascii_digit (ds @ r) = r"
  by (induction ds) (cases r; auto)+

lemma colon_not_shown: "CHR '':'' \<notin> set (show_nat n)"
  using show_nat_digits [of n] not_digit by (auto simp: list_all_iff)

lemma flood_from_str_parts:
  assumes "0 < c" "c \<le> U32_MAX" "0 < p" "p \<le> U32_MAX" "t = [] \<or> t = ''m'' \<or> t = ''j''"
  shows "flood_from_str (show_nat c @ t @ '':'' @ show_nat p) =
    Inr \<lparr>fp_count = c, fp_period = p, fp_type = (if t = ''j'' then FloodJoin else FloodMessage)\<rparr>"
proof -
  have "rsplit_once CHR '':'' ((show_nat c @ t) @ CHR '':'' # show_nat p) = Some (show_nat c @ t, show_nat p)"
    by (rule rsplit_once_append [OF colon_not_shown])
  moreover have "takeWhile is_ascii_digit (show_nat c @ t) = show_nat c" "dropWhile is_ascii_digit (show_nat c @ t) = t"
    using takeWhile_digits [OF show_nat_digits, of t c] assms(5)
    by (auto simp: is_ascii_digit_def byte_of_def)
  ultimately show ?thesis
    using assms by (auto simp: flood_from_str_def parse_show)
qed

section \<open>List modes\<close>

definition list_ok :: "list_entry list \<Rightarrow> bool" where
  "list_ok lst \<longleftrightarrow> length lst \<le> MAX_LIST_ENTRIES"

lemma apply_list_mode_bound: "length (fst (apply_list_mode now lst bmask adding by)) \<le> max (length lst) MAX_LIST_ENTRIES"
  by (auto simp: apply_list_mode_def Let_def le_max_iff_disj)

lemma list_ok_apply [inv_intros]: "list_ok lst \<Longrightarrow> list_ok (fst (apply_list_mode now lst bmask adding by))"
  using apply_list_mode_bound [of now lst bmask adding "by"] by (simp add: list_ok_def)

lemma is_banned_iff:
  "is_banned user_mask ctx bans excepts \<longleftrightarrow>
    (\<exists>b \<in> set bans. matches_ban_or_except (en_mask b) user_mask ctx) \<and>
    (\<forall>e \<in> set excepts. \<not> matches_ban_or_except (en_mask e) user_mask ctx)"
  by (induction bans) (auto simp: list_ex_iff)

section \<open>Properties\<close>

text \<open>The mode string a channel is saved with restores exactly its modes when it has none with a
  parameter.\<close>

theorem simple_modes_roundtrip:
  assumes "list_all (\<lambda>m. \<not> is_param_mode m) modes"
  shows "set (modes_from_string hash (modes_to_string modes) None None) = set modes"
proof -
  have *: "modes_to_string modes = ''+'' @ concat (map (\<lambda>(m, c). if m \<in> set modes then c else []) simple_flags)"
    using assms by (simp add: modes_to_string_def fold_param_step_simple)
  let ?cs = "map snd (filter (\<lambda>(m, c). m \<in> set modes) simple_flags)"
  have "{m. \<exists>c \<in> set ?cs. char_to_mode c = Some m} = set modes"
  proof (intro set_eqI iffI)
    fix m assume "m \<in> {m. \<exists>c \<in> set ?cs. char_to_mode c = Some m}"
    then obtain m' c where "(m', c) \<in> set simple_flags" "m' \<in> set modes" "char_to_mode c = Some m" by auto
    then show "m \<in> set modes" using char_to_mode_to_char [of m' c] by (simp add: simple_flags_letters)
  next
    fix m assume m: "m \<in> set modes"
    then obtain c where "mode_to_char m = Some c" using assms mode_to_char_None [of m] by (auto simp: list_all_iff)
    then show "m \<in> {m. \<exists>c \<in> set ?cs. char_to_mode c = Some m}"
      using m char_to_mode_to_char by (force simp: simple_flags_letters [symmetric])
  qed
  moreover have "rust_chars (modes_to_string modes) = ''+'' # ?cs"
    unfolding * by (rule rust_chars_flags)
  ultimately show ?thesis by (simp add: modes_from_string_def set_insert_char_modes del: set_map)
qed

text \<open>A channel key leaks into the modes on restore: the saved string carries the key, whose
  letters are read back as modes nobody set.\<close>

theorem key_letters_become_modes:
  "MSecret \<in> set (modes_from_string (\<lambda>_. 0) (modes_to_string [MKey ''secret'' ts]) (Some ''secret'') None) \<and>
   MNoColors \<in> set (modes_from_string (\<lambda>_. 0) (modes_to_string [MKey ''secret'' ts]) (Some ''secret'') None)"
  by (simp add: modes_from_string_def modes_to_string_def simple_flags_def Let_def set_insert_char_modes
      char_to_mode_def is_cont_def byte_of_def insert_char_mode_def)

text \<open>Flood settings in the documented syntax (count, optional type, colon, seconds) parse to
  what they say, for all positive 32-bit numbers.\<close>

theorem flood_syntax_accepted:
  assumes "0 < c" and "c < 2 ^ 32" and "0 < p" and "p < 2 ^ 32" and "t = [] \<or> t = ''m'' \<or> t = ''j''"
  shows "flood_from_str (show_nat c @ t @ '':'' @ show_nat p) =
    Inr \<lparr>fp_count = c, fp_period = p, fp_type = (if t = ''j'' then FloodJoin else FloodMessage)\<rparr>"
  using assms by (intro flood_from_str_parts) (auto simp: U32_MAX_def)

text \<open>The canonical form a flood setting is displayed in is never accepted back: the type comes
  last there and is taken for the period.\<close>

theorem flood_display_rejected: "flood_from_str (flood_display p) = Inl ''Invalid period''"
proof -
  let ?t = "case fp_type p of FloodMessage \<Rightarrow> ''m'' | FloodJoin \<Rightarrow> ''j''"
  have t: "CHR '':'' \<notin> set ?t" "parse_uint U32_MAX ?t = None"
    by (cases "fp_type p"; simp add: parse_uint_def is_ascii_digit_def byte_of_def)+
  have "rsplit_once CHR '':'' (flood_display p) = Some (show_nat (fp_count p) @ '':'' @ show_nat (fp_period p), ?t)"
    using rsplit_once_append [OF t(1), of "show_nat (fp_count p) @ '':'' @ show_nat (fp_period p)"]
    by (simp add: flood_display_def)
  then show ?thesis using t(2) by (simp add: flood_from_str_def)
qed

text \<open>Adding and removing list entries is case-insensitive and undoes itself: a mask that was
  added to a list with room and not there yet can be removed in any other case spelling, which gives
  the list back.\<close>

theorem list_mode_add_remove:
  assumes "utf8 bmask" and "utf8 bmask2" and "irc_to_lower bmask = irc_to_lower bmask2"
    and "length bmask \<le> MAX_MASK_LENGTH" and "length lst < MAX_LIST_ENTRIES"
    and "list_all (\<lambda>e. \<not> irc_eq (en_mask e) (irc_to_lower bmask)) lst"
  shows "apply_list_mode now2 (fst (apply_list_mode now lst bmask True set_by)) bmask2 False set_by2 = (lst, True)"
proof -
  have "length bmask2 = length bmask" using assms(3) by (metis irc_to_lower_length)
  moreover have "irc_eq (irc_to_lower bmask) (irc_to_lower bmask2)"
    using assms(1-3) by (simp add: irc_eq_lower)
  moreover have "filter (\<lambda>e. \<not> irc_eq (en_mask e) (irc_to_lower bmask)) lst = lst"
    using assms(6) by (simp add: list_all_iff)
  moreover have "\<not> list_ex (\<lambda>e. irc_eq (en_mask e) (irc_to_lower bmask)) lst"
    using assms(6) by (auto simp: list_all_iff list_ex_iff)
  ultimately show ?thesis using assms(3-5) by (simp add: apply_list_mode_def)
qed

text \<open>An extended ban on unregistered users set through a mode change bans nobody: the list stores
  the lowercased mask, which is not an extended ban.\<close>

theorem unregistered_ban_is_dead:
  assumes "length lst < MAX_LIST_ENTRIES" and "list_all (\<lambda>e. \<not> irc_eq (en_mask e) ''$u'') lst"
    and "\<not> is_banned user_mask ctx lst excepts"
  shows "\<not> is_banned user_mask ctx (fst (apply_list_mode now lst ''$U'' True set_by)) excepts"
proof -
  have low: "irc_to_lower ''$U'' = ''$u''" by code_simp
  have "\<not> list_ex (\<lambda>e. irc_eq (en_mask e) ''$u'') lst" using assms(2) by (auto simp: list_all_iff list_ex_iff)
  then have "fst (apply_list_mode now lst ''$U'' True set_by) =
      lst @ [\<lparr>en_mask = ''$u'', en_set_by = set_by, en_set_at = now\<rparr>]"
    using assms(1) low by (simp add: apply_list_mode_def MAX_MASK_LENGTH_def)
  moreover have "\<not> matches_ban_or_except ''$u'' user_mask ctx"
    by (simp add: matches_ban_or_except_def extban_parse_None)
  ultimately show ?thesis using assms(3) unfolding is_banned_iff by auto
qed

end
