(* ===== verification/Crdt.thy ===== *)
theory Crdt
  imports Clock
begin

text \<open>
  \<open>crates/slirc-proto/src/sync/traits.rs\<close>: the \<open>Crdt\<close> contract as a locale, the
  last-writer-wins register and the add-wins set.  The locale \<open>replicated\<close> states what a type
  that implements \<open>Crdt\<close> owes (its merge refines an associative, idempotent and, on compatible
  replicas, commutative join of observable contents) and proves, once for all of them, that
  replicas which have received the same states agree, whatever the order and the repetitions.
\<close>

section \<open>Last-writer-wins registers\<close>

datatype 'a lww_register = LwwRegister (lww_value: 'a) (lww_timestamp: hybrid_timestamp)

definition lww_new :: "'a \<Rightarrow> hybrid_timestamp \<Rightarrow> 'a lww_register" where
  "lww_new v ts = LwwRegister v ts"

definition lww_update :: "'a \<Rightarrow> hybrid_timestamp \<Rightarrow> 'a lww_register \<Rightarrow> 'a lww_register" where
  "lww_update v ts self = (if ts > lww_timestamp self then LwwRegister v ts else self)"

text \<open>The default method \<open>Mergeable::merge_with\<close>, over the \<open>timestamp\<close> method of the type.\<close>

definition merge_with :: "('a \<Rightarrow> hybrid_timestamp) \<Rightarrow> 'a \<Rightarrow> 'a \<Rightarrow> 'a" where
  "merge_with timestamp self other = (if timestamp other > timestamp self then other else self)"

definition lww_merge :: "'a lww_register \<Rightarrow> 'a lww_register \<Rightarrow> 'a lww_register" where
  "lww_merge self other =
    (if lww_timestamp other > lww_timestamp self
     then LwwRegister (lww_value other) (lww_timestamp other) else self)"

definition lww_dominates :: "'a lww_register \<Rightarrow> 'a lww_register \<Rightarrow> bool" where
  "lww_dominates self other \<longleftrightarrow> lww_timestamp self \<ge> lww_timestamp other"

text \<open>Two registers written at one timestamp hold one value.\<close>

definition lww_compat :: "'a lww_register \<Rightarrow> 'a lww_register \<Rightarrow> bool" where
  "lww_compat a b \<longleftrightarrow> (lww_timestamp a = lww_timestamp b \<longrightarrow> lww_value a = lww_value b)"

section \<open>Add-wins sets\<close>

record 'a aw_set =
  elements :: "('a \<times> hybrid_timestamp) list"
  tombstones :: "('a \<times> hybrid_timestamp) list"

definition aw_new :: "'a aw_set" where
  "aw_new = \<lparr>elements = [], tombstones = []\<rparr>"

definition aw_add :: "'a \<Rightarrow> hybrid_timestamp \<Rightarrow> 'a aw_set \<Rightarrow> 'a aw_set" where
  "aw_add e ts self =
    (if (case map_of (tombstones self) e of None \<Rightarrow> True | Some tomb \<Rightarrow> ts \<ge> tomb)
     then self\<lparr>elements := AList.update e ts (elements self)\<rparr> else self)"

definition aw_remove :: "'a \<Rightarrow> hybrid_timestamp \<Rightarrow> 'a aw_set \<Rightarrow> 'a aw_set" where
  "aw_remove e ts self =
    (case map_of (elements self) e of
       None \<Rightarrow> self
     | Some add_ts \<Rightarrow>
         if ts > add_ts
         then self\<lparr>elements := AList.delete e (elements self),
                    tombstones := AList.update e ts (tombstones self)\<rparr>
         else self)"

definition aw_contains :: "'a aw_set \<Rightarrow> 'a \<Rightarrow> bool" where
  "aw_contains self e \<longleftrightarrow> map_of (elements self) e \<noteq> None"

definition aw_iter :: "'a aw_set \<Rightarrow> 'a list" where
  "aw_iter self = keys (elements self)"

definition aw_len :: "'a aw_set \<Rightarrow> nat" where
  "aw_len self = length (elements self)"

definition aw_is_empty :: "'a aw_set \<Rightarrow> bool" where
  "aw_is_empty self \<longleftrightarrow> elements self = []"

text \<open>The bodies of the two loops of \<open>merge\<close>, over the elements and the tombstones of the other set.\<close>

fun aw_merge_element :: "'a \<times> hybrid_timestamp \<Rightarrow> 'a aw_set \<Rightarrow> 'a aw_set" where
  "aw_merge_element (elem, other_ts) self =
    (let insert_unless_tombstoned =
       (if (case map_of (tombstones self) elem of None \<Rightarrow> True | Some ts \<Rightarrow> other_ts \<ge> ts)
        then self\<lparr>elements := AList.update elem other_ts (elements self)\<rparr> else self)
     in case map_of (elements self) elem of
       Some self_ts \<Rightarrow> if self_ts \<ge> other_ts then self else insert_unless_tombstoned
     | None \<Rightarrow> insert_unless_tombstoned)"

fun aw_merge_tombstone :: "'a \<times> hybrid_timestamp \<Rightarrow> 'a aw_set \<Rightarrow> 'a aw_set" where
  "aw_merge_tombstone (elem, other_ts) self =
    (let bury =
       (let s = self\<lparr>tombstones := AList.update elem other_ts (tombstones self)\<rparr>
        in case map_of (elements s) elem of
             Some add_ts \<Rightarrow> if other_ts > add_ts then s\<lparr>elements := AList.delete elem (elements s)\<rparr> else s
           | None \<Rightarrow> s)
     in case map_of (tombstones self) elem of
       Some self_ts \<Rightarrow> if self_ts \<ge> other_ts then self else bury
     | None \<Rightarrow> bury)"

definition aw_merge :: "'a aw_set \<Rightarrow> 'a aw_set \<Rightarrow> 'a aw_set" where
  "aw_merge self other =
    fold aw_merge_tombstone (tombstones other) (fold aw_merge_element (elements other) self)"

definition covered_by :: "('a \<times> hybrid_timestamp) list \<Rightarrow> 'a \<times> hybrid_timestamp \<Rightarrow> bool" where
  "covered_by table e = (case map_of table (fst e) of Some self_ts \<Rightarrow> self_ts \<ge> snd e | None \<Rightarrow> False)"

definition aw_dominates :: "'a aw_set \<Rightarrow> 'a aw_set \<Rightarrow> bool" where
  "aw_dominates self other \<longleftrightarrow>
    list_all (covered_by (elements self)) (elements other) \<and>
    list_all (covered_by (tombstones self)) (tombstones other)"

text \<open>Keys are unique and a present element is not older than its tombstone.\<close>

definition aw_wf :: "'a aw_set \<Rightarrow> bool" where
  "aw_wf s \<longleftrightarrow> distinct (keys (elements s)) \<and> distinct (keys (tombstones s)) \<and>
    list_all (\<lambda>(e, ts). map_of (tombstones s) e \<le> Some ts) (elements s)"

text \<open>
  The content of a set: for each element its add and its tombstone timestamp.  The join of two
  contents keeps the later add and the later tombstone, and the add only if it is not older.
\<close>

type_synonym 'a aw_content = "'a \<Rightarrow> hybrid_timestamp option \<times> hybrid_timestamp option"

definition aw_view :: "'a aw_set \<Rightarrow> 'a aw_content" where
  "aw_view s e = (map_of (elements s) e, map_of (tombstones s) e)"

fun aw_cell_join :: "'t::linorder option \<times> 't option \<Rightarrow> 't option \<times> 't option \<Rightarrow> 't option \<times> 't option" where
  "aw_cell_join (a1, t1) (a2, t2) =
    (let a = max a1 a2; t = max t1 t2 in (if a < t then None else a, t))"

definition aw_join :: "'a aw_content \<Rightarrow> 'a aw_content \<Rightarrow> 'a aw_content" where
  "aw_join x y = (\<lambda>e. aw_cell_join (x e) (y e))"

section \<open>The contract of a replicated type\<close>

text \<open>A replica that merges, one after the other, the states it receives.\<close>

definition deliver :: "('s \<Rightarrow> 's \<Rightarrow> 's) \<Rightarrow> 's \<Rightarrow> 's list \<Rightarrow> 's" where
  "deliver merge s xs = fold (\<lambda>x s. merge s x) xs s"

lemma deliver_simps [simp]:
  "deliver merge s [] = s"
  "deliver merge s (x # xs) = deliver merge (merge s x) xs"
  "deliver merge s (xs @ [x]) = merge (deliver merge s xs) x"
  by (simp_all add: deliver_def)

locale replicated =
  fixes merge :: "'s \<Rightarrow> 's \<Rightarrow> 's"
    and view :: "'s \<Rightarrow> 'v"
    and join :: "'v \<Rightarrow> 'v \<Rightarrow> 'v"
    and wf :: "'s \<Rightarrow> bool"
    and compat :: "'s \<Rightarrow> 's \<Rightarrow> bool"
  assumes wf_merge: "\<lbrakk>wf a; wf b\<rbrakk> \<Longrightarrow> wf (merge a b)"
    and view_merge: "\<lbrakk>wf a; wf b\<rbrakk> \<Longrightarrow> view (merge a b) = join (view a) (view b)"
    and join_assoc: "join (join x y) z = join x (join y z)"
    and join_idem: "wf a \<Longrightarrow> join (view a) (view a) = view a"
    and join_commute: "\<lbrakk>wf a; wf b; compat a b\<rbrakk> \<Longrightarrow> join (view a) (view b) = join (view b) (view a)"
    and compat_sym: "compat a b \<Longrightarrow> compat b a"
    and compat_merge: "\<lbrakk>wf a; wf b; wf c; compat a c; compat b c\<rbrakk> \<Longrightarrow> compat (merge a b) c"
begin

lemma merge_commute: "\<lbrakk>wf a; wf b; compat a b\<rbrakk> \<Longrightarrow> view (merge a b) = view (merge b a)"
  using join_commute [of a b] by (simp add: view_merge)

lemma merge_assoc:
  "\<lbrakk>wf a; wf b; wf c\<rbrakk> \<Longrightarrow> view (merge (merge a b) c) = view (merge a (merge b c))"
  by (simp add: view_merge wf_merge join_assoc)

lemma merge_idem: "wf a \<Longrightarrow> view (merge a a) = view a"
  by (simp add: view_merge join_idem)

lemma wf_deliver: "\<lbrakk>wf s; \<And>x. x \<in> set xs \<Longrightarrow> wf x\<rbrakk> \<Longrightarrow> wf (deliver merge s xs)"
  by (induction xs arbitrary: s) (auto intro: wf_merge)

lemma compat_deliver:
  "\<lbrakk>wf s; wf c; \<And>x. x \<in> set xs \<Longrightarrow> wf x; compat s c; \<And>x. x \<in> set xs \<Longrightarrow> compat x c\<rbrakk>
    \<Longrightarrow> compat (deliver merge s xs) c"
  by (induction xs arbitrary: s) (auto intro: wf_merge compat_merge)

text \<open>A state that has been delivered, or the initial one, is absorbed from then on.\<close>

lemma deliver_absorbs:
  assumes wf: "\<And>x. x \<in> insert s (set xs) \<Longrightarrow> wf x"
    and compat: "\<And>x y. \<lbrakk>x \<in> insert s (set xs); y \<in> insert s (set xs)\<rbrakk> \<Longrightarrow> compat x y"
    and y: "y \<in> insert s (set xs)"
  shows "join (view (deliver merge s xs)) (view y) = view (deliver merge s xs)"
  using assms
proof (induction xs arbitrary: y rule: rev_induct)
  case Nil
  then show ?case by (simp add: join_idem)
next
  case (snoc x xs)
  have wfs: "wf (deliver merge s xs)" "wf x" "wf y" using snoc.prems by (auto intro!: wf_deliver)
  have xy: "join (view x) (view y) = join (view y) (view x)"
    using snoc.prems wfs by (auto intro!: join_commute)
  show ?case
  proof (cases "y = x")
    case True
    then show ?thesis using wfs by (simp add: view_merge join_assoc join_idem)
  next
    case False
    then have "join (view (deliver merge s xs)) (view y) = view (deliver merge s xs)"
      using snoc.prems by (intro snoc.IH) auto
    then show ?thesis using wfs xy by (simp add: view_merge) (metis join_assoc)
  qed
qed

lemma deliver_absorbs_all:
  assumes "wf a" "wf s" "\<And>x. x \<in> set ys \<Longrightarrow> wf x"
    and "\<And>y. y \<in> insert s (set ys) \<Longrightarrow> join (view a) (view y) = view a"
  shows "join (view a) (view (deliver merge s ys)) = view a"
  using assms
proof (induction ys rule: rev_induct)
  case (snoc y ys)
  then have "wf (deliver merge s ys)" by (auto intro!: wf_deliver)
  moreover have "join (view a) (view (deliver merge s ys)) = view a"
    using snoc.prems by (intro snoc.IH) auto
  ultimately show ?case using snoc.prems by (simp add: view_merge join_assoc [symmetric])
qed simp

theorem convergence:
  assumes wf: "\<And>x. x \<in> insert s (set xs) \<Longrightarrow> wf x"
    and compat: "\<And>x y. \<lbrakk>x \<in> insert s (set xs); y \<in> insert s (set xs)\<rbrakk> \<Longrightarrow> compat x y"
    and same: "insert s (set xs) = insert t (set ys)"
  shows "view (deliver merge s xs) = view (deliver merge t ys)"
proof -
  have wft: "\<And>x. x \<in> insert t (set ys) \<Longrightarrow> wf x" and
    compatt: "\<And>x y. \<lbrakk>x \<in> insert t (set ys); y \<in> insert t (set ys)\<rbrakk> \<Longrightarrow> compat x y"
    using wf compat same by blast+
  let ?a = "deliver merge s xs" and ?b = "deliver merge t ys"
  have wfs: "wf ?a" "wf ?b" using wf wft by (auto intro!: wf_deliver)
  have "join (view ?a) (view y) = view ?a" if "y \<in> insert t (set ys)" for y
    using that unfolding same [symmetric] by - (assumption | rule deliver_absorbs wf compat)+
  then have 1: "join (view ?a) (view ?b) = view ?a"
    using wfs wft by (intro deliver_absorbs_all) auto
  have "join (view ?b) (view y) = view ?b" if "y \<in> insert s (set xs)" for y
    using that unfolding same by - (assumption | rule deliver_absorbs wft compatt)+
  then have 2: "join (view ?b) (view ?a) = view ?b"
    using wfs wf by (intro deliver_absorbs_all) auto
  have "compat ?a y" if "y \<in> insert t (set ys)" for y
    using that unfolding same [symmetric] by - (assumption | rule compat_deliver wf compat insertI1 insertI2)+
  then have "compat ?b ?a"
    using wfs wft by (intro compat_deliver) (auto intro: compat_sym)
  then show ?thesis using 1 2 join_commute [of ?b ?a] wfs by simp
qed

end

section \<open>The register meets the contract\<close>

lemma lww_merge_cases: "lww_merge a b = a \<or> lww_merge a b = b"
  by (cases b) (simp add: lww_merge_def)

lemma lww_merge_idem [simp]: "lww_merge a a = a"
  by (simp add: lww_merge_def)

lemma lww_merge_assoc: "lww_merge (lww_merge a b) c = lww_merge a (lww_merge b c)"
  by (auto simp: lww_merge_def)

lemma lww_merge_commute: "lww_compat a b \<Longrightarrow> lww_merge a b = lww_merge b a"
  by (cases a; cases b) (auto simp: lww_merge_def lww_compat_def)

lemma lww_compat_sym: "lww_compat a b \<Longrightarrow> lww_compat b a"
  by (auto simp: lww_compat_def)

lemma lww_compat_refl [simp]: "lww_compat a a"
  by (simp add: lww_compat_def)

lemma lww_compat_merge: "\<lbrakk>lww_compat a c; lww_compat b c\<rbrakk> \<Longrightarrow> lww_compat (lww_merge a b) c"
  using lww_merge_cases [of a b] by auto

lemma lww_merge_timestamp [view_simps]:
  "lww_timestamp (lww_merge a b) = max (lww_timestamp a) (lww_timestamp b)"
  by (auto simp: lww_merge_def max_def)

lemma lww_dominates_merge: "lww_dominates a b \<Longrightarrow> lww_merge a b = a"
  by (auto simp: lww_dominates_def lww_merge_def)

lemma lww_merge_with: "lww_merge a b = merge_with lww_timestamp a b"
  by (cases b) (simp add: lww_merge_def merge_with_def)

lemmas lww_laws = lww_merge_assoc lww_merge_commute lww_compat_sym lww_compat_merge

interpretation lww: replicated lww_merge id lww_merge "\<lambda>_. True" lww_compat
  by unfold_locales (auto simp: lww_merge_assoc intro: lww_merge_commute lww_compat_sym lww_compat_merge)

interpretation vclock: replicated vc_merge vc_lookup "\<lambda>f g k. max (f k) (g k)" vc_wf "\<lambda>_ _. True"
  by unfold_locales (auto simp: fun_eq_iff vc_lookup_merge ac_simps intro: inv_intros)

section \<open>The add-wins set meets the contract\<close>

text \<open>What one iteration of each loop of \<open>merge\<close> does to the cell of its element.\<close>

fun element_cell :: "'t::linorder \<Rightarrow> 't option \<times> 't option \<Rightarrow> 't option \<times> 't option" where
  "element_cell ts (a, t) = (if a < Some ts \<and> t \<le> Some ts then Some ts else a, t)"

fun tombstone_cell :: "'t::linorder \<Rightarrow> 't option \<times> 't option \<Rightarrow> 't option \<times> 't option" where
  "tombstone_cell ts (a, t) = (if t < Some ts then (if a < Some ts then None else a, Some ts) else (a, t))"

lemma aw_view_merge_element:
  "aw_view (aw_merge_element (e, ts) s) j = (if j = e then element_cell ts (aw_view s e) else aw_view s j)"
  by (cases "map_of (elements s) e"; cases "map_of (tombstones s) e")
     (auto simp: aw_view_def hash_simps Let_def)

lemma aw_view_merge_tombstone:
  "aw_view (aw_merge_tombstone (e, ts) s) j =
    (if j = e then tombstone_cell ts (aw_view s e) else aw_view s j)"
  by (cases "map_of (elements s) e"; cases "map_of (tombstones s) e")
     (auto simp: aw_view_def hash_simps Let_def)

interpretation awe: keyed_loop aw_merge_element aw_view element_cell
  by unfold_locales (rule aw_view_merge_element)

interpretation awt: keyed_loop aw_merge_tombstone aw_view tombstone_cell
  by unfold_locales (rule aw_view_merge_tombstone)

lemma cell_wf:
  "aw_wf s \<Longrightarrow> map_of (elements s) e = Some a \<Longrightarrow> map_of (tombstones s) e \<le> Some a"
  by (auto simp: aw_wf_def list_all_iff dest: map_of_SomeD)

lemma aw_wf_iff:
  "aw_wf s \<longleftrightarrow> distinct (keys (elements s)) \<and> distinct (keys (tombstones s)) \<and>
    (\<forall>e a. fst (aw_view s e) = Some a \<longrightarrow> snd (aw_view s e) \<le> Some a)"
  by (auto simp: aw_wf_def list_all_iff aw_view_def dest: map_of_SomeD)

lemma merge_cells:
  assumes "a1 = None \<or> t1 \<le> a1" "a2 = None \<or> t2 \<le> a2"
  shows "(case t2 of None \<Rightarrow> id | Some t \<Rightarrow> tombstone_cell t)
    ((case a2 of None \<Rightarrow> id | Some a \<Rightarrow> element_cell a) (a1, t1)) = aw_cell_join (a1, t1) (a2, t2)"
  using assms by (cases a1; cases t1; cases a2; cases t2) (auto simp: max_def Let_def)

lemma aw_view_merge [view_simps]:
  assumes "aw_wf a" "aw_wf b"
  shows "aw_view (aw_merge a b) = aw_join (aw_view a) (aw_view b)"
proof
  fix e
  let ?a1 = "map_of (elements a) e" and ?a2 = "map_of (elements b) e"
  have wf1: "?a1 = None \<or> map_of (tombstones a) e \<le> ?a1"
    using assms(1) cell_wf by (cases ?a1) fastforce+
  have wf2: "?a2 = None \<or> map_of (tombstones b) e \<le> ?a2"
    using assms(2) cell_wf by (cases ?a2) fastforce+
  have "aw_view (aw_merge a b) e =
      (case map_of (tombstones b) e of None \<Rightarrow> id | Some t \<Rightarrow> tombstone_cell t)
        ((case map_of (elements b) e of None \<Rightarrow> id | Some t \<Rightarrow> element_cell t) (aw_view a e))"
    using assms(2) unfolding aw_merge_def aw_wf_def
    by (simp add: awe.lookup_fold awt.lookup_fold split: option.split)
  also have "\<dots> = aw_cell_join (aw_view a e) (aw_view b e)"
    unfolding aw_view_def by (rule merge_cells [OF wf1 wf2])
  finally show "aw_view (aw_merge a b) e = aw_join (aw_view a) (aw_view b) e"
    by (simp add: aw_join_def)
qed

lemma aw_keys_element: "distinct (keys (elements s)) \<Longrightarrow> distinct (keys (elements (aw_merge_element e s)))"
  "tombstones (aw_merge_element e s) = tombstones s"
  by (cases e; auto simp: Let_def distinct_update split: option.split)+

lemma aw_keys_tombstone:
  "distinct (keys (elements s)) \<Longrightarrow> distinct (keys (elements (aw_merge_tombstone e s)))"
  "distinct (keys (tombstones s)) \<Longrightarrow> distinct (keys (tombstones (aw_merge_tombstone e s)))"
  by (cases e; auto simp: Let_def distinct_update distinct_delete split: option.split)+

lemma aw_keys_merge:
  assumes "distinct (keys (elements a))" "distinct (keys (tombstones a))"
  shows "distinct (keys (elements (aw_merge a b)))" "distinct (keys (tombstones (aw_merge a b)))"
proof -
  have 1: "distinct (keys (elements s)) \<Longrightarrow> distinct (keys (elements (fold aw_merge_element es s)))"
    "tombstones (fold aw_merge_element es s) = tombstones s" for es s
    by (induction es arbitrary: s) (auto simp: aw_keys_element)
  have 2: "distinct (keys (elements s)) \<Longrightarrow> distinct (keys (elements (fold aw_merge_tombstone es s)))"
    "distinct (keys (tombstones s)) \<Longrightarrow> distinct (keys (tombstones (fold aw_merge_tombstone es s)))" for es s
    by (induction es arbitrary: s) (auto simp: aw_keys_tombstone)
  show "distinct (keys (elements (aw_merge a b)))" "distinct (keys (tombstones (aw_merge a b)))"
    using assms by (simp_all add: aw_merge_def 1 2)
qed

lemma aw_cell_join_wf:
  fixes x y :: "'t::linorder option \<times> 't option"
  shows "fst (aw_cell_join x y) = Some a \<Longrightarrow> snd (aw_cell_join x y) \<le> Some a"
proof (cases x; cases y)
  fix a1 t1 a2 t2
  assume "fst (aw_cell_join x y) = Some a" and "x = (a1, t1)" "y = (a2, t2)"
  moreover have "\<lbrakk>(if m < t then None else m) = Some v\<rbrakk> \<Longrightarrow> t \<le> Some v" for m t :: "'t option" and v
    by (auto simp: not_less split: if_splits)
  ultimately show ?thesis by (simp add: Let_def del: max.bounded_iff max_less_iff_conj)
qed

lemma aw_wf_merge [inv_intros]:
  assumes "aw_wf a" "aw_wf b"
  shows "aw_wf (aw_merge a b)"
proof -
  have "distinct (keys (elements (aw_merge a b)))" "distinct (keys (tombstones (aw_merge a b)))"
    using aw_keys_merge [of a b] assms(1) by (simp_all add: aw_wf_def)
  then show ?thesis
    unfolding aw_wf_iff aw_view_merge [OF assms] aw_join_def using aw_cell_join_wf by blast
qed

lemma aw_drop_drop:
  fixes a b t T :: "'t::linorder option"
  assumes "t \<le> T"
  shows "(let m = max (if a < t then None else a) b in if m < T then None else m) =
    (let m = max a b in if m < T then None else m)"
proof (cases "a < t")
  case True
  then have "a < T" using assms by simp
  then show ?thesis using True by (cases "b < T") (auto simp: Let_def max_def not_less)
qed simp

lemma aw_cell_join_assoc: "aw_cell_join (aw_cell_join x y) z = aw_cell_join x (aw_cell_join y z)"
proof -
  obtain a1 t1 a2 t2 a3 t3 where xyz: "x = (a1, t1)" "y = (a2, t2)" "z = (a3, t3)"
    by (metis surj_pair)
  have "aw_cell_join (aw_cell_join x y) z =
      (let m = max (max a1 a2) a3; T = max (max t1 t2) t3 in (if m < T then None else m, T))"
    using aw_drop_drop [of "max t1 t2" "max (max t1 t2) t3" "max a1 a2" a3] by (simp add: xyz Let_def)
  moreover have "aw_cell_join x (aw_cell_join y z) =
      (let m = max a1 (max a2 a3); T = max t1 (max t2 t3) in (if m < T then None else m, T))"
    using aw_drop_drop [of "max t2 t3" "max t1 (max t2 t3)" "max a2 a3" a1]
    by (simp add: xyz Let_def max.commute)
  ultimately show ?thesis by (simp add: max.assoc)
qed

interpretation aws: replicated aw_merge aw_view aw_join aw_wf "\<lambda>_ _. True"
proof unfold_locales
  fix a b :: "'a aw_set" and x y z :: "'a \<Rightarrow> hybrid_timestamp option \<times> hybrid_timestamp option"
  show "aw_join (aw_join x y) z = aw_join x (aw_join y z)"
    by (simp add: aw_join_def aw_cell_join_assoc)
  show "aw_join (aw_view a) (aw_view b) = aw_join (aw_view b) (aw_view a)"
    by (simp add: aw_join_def aw_view_def max.commute)
  show "aw_join (aw_view a) (aw_view a) = aw_view a" if "aw_wf a"
    using cell_wf [OF that]
    by (auto simp: aw_join_def aw_view_def fun_eq_iff Let_def not_less split: option.split)
       (metis leD less_option_None_Some option.exhaust)
qed (simp_all add: aw_view_merge aw_wf_merge)

section \<open>Local operations on an add-wins set\<close>

lemma aw_wf_new [inv_intros, simp]: "aw_wf aw_new"
  by (simp add: aw_wf_def aw_new_def)

lemma aw_view_add [view_simps]:
  "aw_view (aw_add e ts s) =
    (if snd (aw_view s e) \<le> Some ts then (aw_view s)(e := (Some ts, snd (aw_view s e))) else aw_view s)"
  by (cases "map_of (tombstones s) e") (auto simp: aw_add_def aw_view_def hash_simps fun_eq_iff)

lemma aw_view_remove [view_simps]:
  "aw_view (aw_remove e ts s) =
    (if fst (aw_view s e) \<noteq> None \<and> fst (aw_view s e) < Some ts
     then (aw_view s)(e := (None, Some ts)) else aw_view s)"
  by (cases "map_of (elements s) e") (auto simp: aw_remove_def aw_view_def hash_simps fun_eq_iff)

lemma aw_wf_add [inv_intros]: "aw_wf s \<Longrightarrow> aw_wf (aw_add e ts s)"
proof -
  assume "aw_wf s"
  moreover have "distinct (keys (elements (aw_add e ts s)))" "distinct (keys (tombstones (aw_add e ts s)))"
    using \<open>aw_wf s\<close> by (auto simp: aw_wf_def aw_add_def distinct_update)
  ultimately show ?thesis unfolding aw_wf_iff by (auto simp: aw_view_add)
qed

lemma aw_wf_remove [inv_intros]: "aw_wf s \<Longrightarrow> aw_wf (aw_remove e ts s)"
proof -
  assume "aw_wf s"
  moreover have "distinct (keys (elements (aw_remove e ts s)))" "distinct (keys (tombstones (aw_remove e ts s)))"
    using \<open>aw_wf s\<close>
    by (auto simp: aw_wf_def aw_remove_def distinct_update distinct_delete split: option.split)
  ultimately show ?thesis unfolding aw_wf_iff by (auto simp: aw_view_remove)
qed

lemma aw_contains_view: "aw_contains s e \<longleftrightarrow> fst (aw_view s e) \<noteq> None"
  by (simp add: aw_contains_def aw_view_def)

lemma aw_iter_contains: "e \<in> set (aw_iter s) \<longleftrightarrow> aw_contains s e"
  by (auto simp: aw_iter_def aw_contains_def map_of_eq_None_iff)

lemma aw_len_card: "aw_wf s \<Longrightarrow> aw_len s = card {e. aw_contains s e}"
proof -
  assume "aw_wf s"
  then have "length (keys (elements s)) = card (set (keys (elements s)))"
    by (metis aw_wf_def distinct_card)
  moreover have "{e. aw_contains s e} = set (keys (elements s))"
    by (auto simp: aw_contains_def map_of_None_iff)
  ultimately show ?thesis by (simp add: aw_len_def)
qed

lemma covered_by_iff:
  "distinct (keys t2) \<Longrightarrow> list_all (covered_by t1) t2 \<longleftrightarrow> (\<forall>e. map_of t2 e \<le> map_of t1 e)"
  by (force simp: list_all_iff covered_by_def less_eq_option_def split: option.splits)

lemma aw_dominates_merge:
  assumes "aw_wf a" "aw_wf b" "aw_dominates a b"
  shows "aw_view (aw_merge a b) = aw_view a"
proof
  fix e
  have "map_of (elements b) e \<le> map_of (elements a) e" "map_of (tombstones b) e \<le> map_of (tombstones a) e"
    using assms by (auto simp: aw_dominates_def aw_wf_def covered_by_iff)
  then have "aw_cell_join (aw_view a e) (aw_view b e) = aw_cell_join (aw_view a e) (aw_view a e)"
    by (simp add: aw_view_def max_absorb1)
  then show "aw_view (aw_merge a b) e = aw_view a e"
    using aws.join_idem [OF assms(1)] assms by (simp add: aw_view_merge aw_join_def fun_eq_iff)
qed

section \<open>Properties\<close>

text \<open>C36. After a merge of two well-formed add-wins sets an element is present exactly if some
  replica holds it and no replica has a later tombstone for it: an add wins over a remove at the
  same timestamp and only a strictly later remove deletes.\<close>

theorem aw_merge_add_wins:
  assumes "aw_wf a" and "aw_wf b"
  shows "aw_contains (aw_merge a b) e \<longleftrightarrow>
    (\<exists>ts. Some ts = max (map_of (elements a) e) (map_of (elements b) e) \<and>
      map_of (tombstones a) e \<le> Some ts \<and> map_of (tombstones b) e \<le> Some ts)"
proof -
  let ?m = "max (map_of (elements a) e) (map_of (elements b) e)"
  have "aw_contains (aw_merge a b) e \<longleftrightarrow> ?m \<noteq> None \<and>
      \<not> ?m < max (map_of (tombstones a) e) (map_of (tombstones b) e)"
    unfolding aw_contains_view aw_view_merge [OF assms] aw_join_def
    by (simp add: aw_view_def Let_def del: max_less_iff_conj)
  then show ?thesis by (cases ?m) (auto simp: not_less max_def split: if_splits)
qed

theorem aw_merge_add_wins_witness:
  "aw_contains (aw_merge (aw_add ''u'' (HybridTimestamp 2 0 0) aw_new)
     (aw_remove ''u'' (HybridTimestamp 2 0 0) (aw_add ''u'' (HybridTimestamp 1 0 0) aw_new))) ''u''"
  by (subst aw_merge_add_wins)
     (simp_all add: aw_wf_add aw_wf_remove,
      simp add: aw_add_def aw_remove_def aw_new_def ht_less_iff ht_le_iff max_def)

text \<open>\<open>dominates\<close> of an add-wins set is sound: a set that dominates another is not changed
  by merging it.\<close>

theorem aw_dominates_unchanged:
  assumes "aw_wf a" and "aw_wf b" and "aw_dominates a b"
  shows "aw_view (aw_merge a b) = aw_view a"
  using assms by (rule aw_dominates_merge)

text \<open>The order in which registers are merged is irrelevant when writes at one timestamp
  agree, and only then: the merge of two registers is symmetric exactly if they are compatible.\<close>

theorem lww_merge_symmetric_iff: "lww_merge a b = lww_merge b a \<longleftrightarrow> lww_compat a b"
  by (cases a; cases b) (auto simp: lww_merge_def lww_compat_def)

end
