(* ===== verification/Channel_Crdt.thy ===== *)
theory Channel_Crdt
  imports Crdt
begin

text \<open>
  \<open>crates/slirc-proto/src/sync/channel.rs\<close>: the replicated channel.  Modes are one
  last-writer-wins register each, membership is an add-wins set with per-member registers, the
  ban, invite and exception lists are add-wins sets, and the creation time is the earliest one.
  Every layer is shown to meet the contract of \<open>replicated\<close>.
\<close>

section \<open>Data\<close>

record topic_crdt =
  tc_text :: string
  tc_set_by :: string
  tc_set_at :: int

datatype list_entry_crdt = ListEntryCrdt (le_mask: string) (le_set_by: string) (le_set_at: int)

record channel_modes_crdt =
  cm_no_external :: "bool lww_register"
  cm_topic_ops_only :: "bool lww_register"
  cm_moderated :: "bool lww_register"
  cm_invite_only :: "bool lww_register"
  cm_secret :: "bool lww_register"
  cm_private :: "bool lww_register"
  cm_registered_only :: "bool lww_register"
  cm_no_colors :: "bool lww_register"
  cm_no_ctcp :: "bool lww_register"
  cm_ssl_only :: "bool lww_register"
  cm_delayed_join :: "bool lww_register"
  cm_strip_colors :: "bool lww_register"
  cm_anti_caps :: "bool lww_register"
  cm_redirect :: "string option lww_register"
  cm_censor :: "bool lww_register"

record member_modes_crdt =
  mm_owner :: "bool lww_register"
  mm_admin :: "bool lww_register"
  mm_op :: "bool lww_register"
  mm_halfop :: "bool lww_register"
  mm_voice :: "bool lww_register"
  mm_join_time :: int

record membership_crdt =
  ms_presence :: "string aw_set"
  ms_modes :: "(string \<times> member_modes_crdt) list"

record channel_crdt =
  cc_name :: string
  cc_topic :: "topic_crdt option lww_register"
  cc_modes :: channel_modes_crdt
  cc_key :: "string option lww_register"
  cc_limit :: "32 word option lww_register"
  cc_members :: membership_crdt
  cc_bans :: "list_entry_crdt aw_set"
  cc_invites :: "list_entry_crdt aw_set"
  cc_excepts :: "list_entry_crdt aw_set"
  cc_created_at :: hybrid_timestamp

section \<open>Channel modes\<close>

definition cm_new :: "hybrid_timestamp \<Rightarrow> channel_modes_crdt" where
  "cm_new ts =
    \<lparr>cm_no_external = lww_new True ts,
     cm_topic_ops_only = lww_new True ts,
     cm_moderated = lww_new False ts,
     cm_invite_only = lww_new False ts,
     cm_secret = lww_new False ts,
     cm_private = lww_new False ts,
     cm_registered_only = lww_new False ts,
     cm_no_colors = lww_new False ts,
     cm_no_ctcp = lww_new False ts,
     cm_ssl_only = lww_new False ts,
     cm_delayed_join = lww_new False ts,
     cm_strip_colors = lww_new False ts,
     cm_anti_caps = lww_new False ts,
     cm_redirect = lww_new None ts,
     cm_censor = lww_new False ts\<rparr>"

definition cm_merge :: "channel_modes_crdt \<Rightarrow> channel_modes_crdt \<Rightarrow> channel_modes_crdt" where
  "cm_merge self other =
    \<lparr>cm_no_external = lww_merge (cm_no_external self) (cm_no_external other),
     cm_topic_ops_only = lww_merge (cm_topic_ops_only self) (cm_topic_ops_only other),
     cm_moderated = lww_merge (cm_moderated self) (cm_moderated other),
     cm_invite_only = lww_merge (cm_invite_only self) (cm_invite_only other),
     cm_secret = lww_merge (cm_secret self) (cm_secret other),
     cm_private = lww_merge (cm_private self) (cm_private other),
     cm_registered_only = lww_merge (cm_registered_only self) (cm_registered_only other),
     cm_no_colors = lww_merge (cm_no_colors self) (cm_no_colors other),
     cm_no_ctcp = lww_merge (cm_no_ctcp self) (cm_no_ctcp other),
     cm_ssl_only = lww_merge (cm_ssl_only self) (cm_ssl_only other),
     cm_delayed_join = lww_merge (cm_delayed_join self) (cm_delayed_join other),
     cm_strip_colors = lww_merge (cm_strip_colors self) (cm_strip_colors other),
     cm_anti_caps = lww_merge (cm_anti_caps self) (cm_anti_caps other),
     cm_redirect = lww_merge (cm_redirect self) (cm_redirect other),
     cm_censor = lww_merge (cm_censor self) (cm_censor other)\<rparr>"

definition cm_dominates :: "channel_modes_crdt \<Rightarrow> channel_modes_crdt \<Rightarrow> bool" where
  "cm_dominates self other \<longleftrightarrow>
    lww_dominates (cm_no_external self) (cm_no_external other) \<and>
    lww_dominates (cm_topic_ops_only self) (cm_topic_ops_only other) \<and>
    lww_dominates (cm_moderated self) (cm_moderated other) \<and>
    lww_dominates (cm_invite_only self) (cm_invite_only other) \<and>
    lww_dominates (cm_secret self) (cm_secret other) \<and>
    lww_dominates (cm_private self) (cm_private other) \<and>
    lww_dominates (cm_registered_only self) (cm_registered_only other) \<and>
    lww_dominates (cm_no_colors self) (cm_no_colors other) \<and>
    lww_dominates (cm_no_ctcp self) (cm_no_ctcp other) \<and>
    lww_dominates (cm_ssl_only self) (cm_ssl_only other) \<and>
    lww_dominates (cm_delayed_join self) (cm_delayed_join other) \<and>
    lww_dominates (cm_strip_colors self) (cm_strip_colors other) \<and>
    lww_dominates (cm_anti_caps self) (cm_anti_caps other) \<and>
    lww_dominates (cm_redirect self) (cm_redirect other) \<and>
    lww_dominates (cm_censor self) (cm_censor other)"

definition cm_compat :: "channel_modes_crdt \<Rightarrow> channel_modes_crdt \<Rightarrow> bool" where
  "cm_compat a b \<longleftrightarrow>
    lww_compat (cm_no_external a) (cm_no_external b) \<and>
    lww_compat (cm_topic_ops_only a) (cm_topic_ops_only b) \<and>
    lww_compat (cm_moderated a) (cm_moderated b) \<and>
    lww_compat (cm_invite_only a) (cm_invite_only b) \<and>
    lww_compat (cm_secret a) (cm_secret b) \<and>
    lww_compat (cm_private a) (cm_private b) \<and>
    lww_compat (cm_registered_only a) (cm_registered_only b) \<and>
    lww_compat (cm_no_colors a) (cm_no_colors b) \<and>
    lww_compat (cm_no_ctcp a) (cm_no_ctcp b) \<and>
    lww_compat (cm_ssl_only a) (cm_ssl_only b) \<and>
    lww_compat (cm_delayed_join a) (cm_delayed_join b) \<and>
    lww_compat (cm_strip_colors a) (cm_strip_colors b) \<and>
    lww_compat (cm_anti_caps a) (cm_anti_caps b) \<and>
    lww_compat (cm_redirect a) (cm_redirect b) \<and>
    lww_compat (cm_censor a) (cm_censor b)"

section \<open>Member modes and membership\<close>

definition mm_new :: "int \<Rightarrow> hybrid_timestamp \<Rightarrow> member_modes_crdt" where
  "mm_new join_time ts =
    \<lparr>mm_owner = lww_new False ts, mm_admin = lww_new False ts, mm_op = lww_new False ts,
     mm_halfop = lww_new False ts, mm_voice = lww_new False ts, mm_join_time = join_time\<rparr>"

definition mm_merge :: "member_modes_crdt \<Rightarrow> member_modes_crdt \<Rightarrow> member_modes_crdt" where
  "mm_merge self other =
    \<lparr>mm_owner = lww_merge (mm_owner self) (mm_owner other),
     mm_admin = lww_merge (mm_admin self) (mm_admin other),
     mm_op = lww_merge (mm_op self) (mm_op other),
     mm_halfop = lww_merge (mm_halfop self) (mm_halfop other),
     mm_voice = lww_merge (mm_voice self) (mm_voice other),
     mm_join_time = (if mm_join_time other < mm_join_time self then mm_join_time other else mm_join_time self)\<rparr>"

definition mm_dominates :: "member_modes_crdt \<Rightarrow> member_modes_crdt \<Rightarrow> bool" where
  "mm_dominates self other \<longleftrightarrow>
    lww_dominates (mm_owner self) (mm_owner other) \<and>
    lww_dominates (mm_admin self) (mm_admin other) \<and>
    lww_dominates (mm_op self) (mm_op other) \<and>
    lww_dominates (mm_halfop self) (mm_halfop other) \<and>
    lww_dominates (mm_voice self) (mm_voice other)"

definition mm_compat :: "member_modes_crdt \<Rightarrow> member_modes_crdt \<Rightarrow> bool" where
  "mm_compat a b \<longleftrightarrow>
    lww_compat (mm_owner a) (mm_owner b) \<and> lww_compat (mm_admin a) (mm_admin b) \<and>
    lww_compat (mm_op a) (mm_op b) \<and> lww_compat (mm_halfop a) (mm_halfop b) \<and>
    lww_compat (mm_voice a) (mm_voice b)"

definition ms_new :: membership_crdt where
  "ms_new = \<lparr>ms_presence = aw_new, ms_modes = []\<rparr>"

definition ms_join :: "int \<Rightarrow> string \<Rightarrow> hybrid_timestamp \<Rightarrow> membership_crdt \<Rightarrow> membership_crdt" where
  "ms_join now uid ts self =
    self\<lparr>ms_presence := aw_add uid ts (ms_presence self),
         ms_modes := (case map_of (ms_modes self) uid of
                        Some _ \<Rightarrow> ms_modes self
                      | None \<Rightarrow> AList.update uid (mm_new now ts) (ms_modes self))\<rparr>"

definition ms_part :: "string \<Rightarrow> hybrid_timestamp \<Rightarrow> membership_crdt \<Rightarrow> membership_crdt" where
  "ms_part uid ts self = self\<lparr>ms_presence := aw_remove uid ts (ms_presence self)\<rparr>"

definition ms_contains :: "membership_crdt \<Rightarrow> string \<Rightarrow> bool" where
  "ms_contains self uid \<longleftrightarrow> aw_contains (ms_presence self) uid"

definition ms_get_modes :: "membership_crdt \<Rightarrow> string \<Rightarrow> member_modes_crdt option" where
  "ms_get_modes self uid = (if aw_contains (ms_presence self) uid then map_of (ms_modes self) uid else None)"

text \<open>\<open>get_modes_mut\<close>: the change the caller makes through the mutable reference is an argument.\<close>

definition ms_get_modes_mut ::
  "string \<Rightarrow> (member_modes_crdt \<Rightarrow> member_modes_crdt) \<Rightarrow> membership_crdt \<Rightarrow> membership_crdt" where
  "ms_get_modes_mut uid f self =
    (case ms_get_modes self uid of
       Some m \<Rightarrow> self\<lparr>ms_modes := AList.update uid (f m) (ms_modes self)\<rparr>
     | None \<Rightarrow> self)"

definition ms_iter :: "membership_crdt \<Rightarrow> string list" where
  "ms_iter self = aw_iter (ms_presence self)"

definition ms_len :: "membership_crdt \<Rightarrow> nat" where
  "ms_len self = aw_len (ms_presence self)"

definition ms_is_empty :: "membership_crdt \<Rightarrow> bool" where
  "ms_is_empty self \<longleftrightarrow> aw_is_empty (ms_presence self)"

fun ms_merge_mode :: "string \<times> member_modes_crdt \<Rightarrow> (string \<times> member_modes_crdt) list
    \<Rightarrow> (string \<times> member_modes_crdt) list" where
  "ms_merge_mode (uid, other_modes) table =
    (case map_of table uid of
       Some self_modes \<Rightarrow> AList.update uid (mm_merge self_modes other_modes) table
     | None \<Rightarrow> AList.update uid other_modes table)"

definition ms_merge :: "membership_crdt \<Rightarrow> membership_crdt \<Rightarrow> membership_crdt" where
  "ms_merge self other =
    \<lparr>ms_presence = aw_merge (ms_presence self) (ms_presence other),
     ms_modes = fold ms_merge_mode (ms_modes other) (ms_modes self)\<rparr>"

definition ms_dominates :: "membership_crdt \<Rightarrow> membership_crdt \<Rightarrow> bool" where
  "ms_dominates self other \<longleftrightarrow>
    aw_dominates (ms_presence self) (ms_presence other) \<and>
    list_all (\<lambda>(uid, other_modes). case map_of (ms_modes self) uid of
        Some self_modes \<Rightarrow> mm_dominates self_modes other_modes | None \<Rightarrow> False) (ms_modes other)"

definition ms_wf :: "membership_crdt \<Rightarrow> bool" where
  "ms_wf m \<longleftrightarrow> aw_wf (ms_presence m) \<and> distinct (keys (ms_modes m))"

definition ms_compat :: "membership_crdt \<Rightarrow> membership_crdt \<Rightarrow> bool" where
  "ms_compat a b \<longleftrightarrow>
    (\<forall>u m m'. map_of (ms_modes a) u = Some m \<longrightarrow> map_of (ms_modes b) u = Some m' \<longrightarrow> mm_compat m m')"

type_synonym membership_view = "string aw_content \<times> (string \<rightharpoonup> member_modes_crdt)"

definition ms_view :: "membership_crdt \<Rightarrow> membership_view" where
  "ms_view m = (aw_view (ms_presence m), map_of (ms_modes m))"

text \<open>The join of two optional states, present if either is.\<close>

fun option_join :: "('a \<Rightarrow> 'a \<Rightarrow> 'a) \<Rightarrow> 'a option \<Rightarrow> 'a option \<Rightarrow> 'a option" where
  "option_join f None y = y"
| "option_join f x None = x"
| "option_join f (Some x) (Some y) = Some (f x y)"

fun ms_view_join :: "membership_view \<Rightarrow> membership_view \<Rightarrow> membership_view" where
  "ms_view_join (p1, m1) (p2, m2) = (aw_join p1 p2, \<lambda>u. option_join mm_merge (m1 u) (m2 u))"

section \<open>Channels\<close>

definition cc_new :: "string \<Rightarrow> hybrid_timestamp \<Rightarrow> channel_crdt" where
  "cc_new name ts =
    \<lparr>cc_name = name, cc_topic = lww_new None ts, cc_modes = cm_new ts, cc_key = lww_new None ts,
     cc_limit = lww_new None ts, cc_members = ms_new, cc_bans = aw_new, cc_invites = aw_new,
     cc_excepts = aw_new, cc_created_at = ts\<rparr>"

definition cc_set_topic :: "int \<Rightarrow> string \<Rightarrow> string \<Rightarrow> hybrid_timestamp \<Rightarrow> channel_crdt \<Rightarrow> channel_crdt" where
  "cc_set_topic now text set_by ts self =
    self\<lparr>cc_topic := lww_update (Some \<lparr>tc_text = text, tc_set_by = set_by, tc_set_at = now\<rparr>) ts (cc_topic self)\<rparr>"

definition cc_clear_topic :: "hybrid_timestamp \<Rightarrow> channel_crdt \<Rightarrow> channel_crdt" where
  "cc_clear_topic ts self = self\<lparr>cc_topic := lww_update None ts (cc_topic self)\<rparr>"

definition cc_join :: "int \<Rightarrow> string \<Rightarrow> hybrid_timestamp \<Rightarrow> channel_crdt \<Rightarrow> channel_crdt" where
  "cc_join now uid ts self = self\<lparr>cc_members := ms_join now uid ts (cc_members self)\<rparr>"

definition cc_part :: "string \<Rightarrow> hybrid_timestamp \<Rightarrow> channel_crdt \<Rightarrow> channel_crdt" where
  "cc_part uid ts self = self\<lparr>cc_members := ms_part uid ts (cc_members self)\<rparr>"

definition cc_add_ban :: "int \<Rightarrow> string \<Rightarrow> string \<Rightarrow> hybrid_timestamp \<Rightarrow> channel_crdt \<Rightarrow> channel_crdt" where
  "cc_add_ban now bmask set_by ts self =
    self\<lparr>cc_bans := aw_add (ListEntryCrdt bmask set_by now) ts (cc_bans self)\<rparr>"

definition cc_remove_ban :: "string \<Rightarrow> hybrid_timestamp \<Rightarrow> channel_crdt \<Rightarrow> channel_crdt" where
  "cc_remove_ban bmask ts self =
    (let to_remove = filter (\<lambda>e. le_mask e = bmask) (aw_iter (cc_bans self))
     in self\<lparr>cc_bans := fold (\<lambda>entry. aw_remove entry ts) to_remove (cc_bans self)\<rparr>)"

definition cc_merge :: "channel_crdt \<Rightarrow> channel_crdt \<Rightarrow> channel_crdt" where
  "cc_merge self other =
    \<lparr>cc_name = cc_name self,
     cc_topic = lww_merge (cc_topic self) (cc_topic other),
     cc_modes = cm_merge (cc_modes self) (cc_modes other),
     cc_key = lww_merge (cc_key self) (cc_key other),
     cc_limit = lww_merge (cc_limit self) (cc_limit other),
     cc_members = ms_merge (cc_members self) (cc_members other),
     cc_bans = aw_merge (cc_bans self) (cc_bans other),
     cc_invites = aw_merge (cc_invites self) (cc_invites other),
     cc_excepts = aw_merge (cc_excepts self) (cc_excepts other),
     cc_created_at = (if cc_created_at other < cc_created_at self then cc_created_at other else cc_created_at self)\<rparr>"

definition cc_dominates :: "channel_crdt \<Rightarrow> channel_crdt \<Rightarrow> bool" where
  "cc_dominates self other \<longleftrightarrow>
    lww_dominates (cc_topic self) (cc_topic other) \<and>
    cm_dominates (cc_modes self) (cc_modes other) \<and>
    lww_dominates (cc_key self) (cc_key other) \<and>
    lww_dominates (cc_limit self) (cc_limit other) \<and>
    ms_dominates (cc_members self) (cc_members other) \<and>
    aw_dominates (cc_bans self) (cc_bans other) \<and>
    aw_dominates (cc_invites self) (cc_invites other) \<and>
    aw_dominates (cc_excepts self) (cc_excepts other)"

text \<open>
  Well-formedness, compatibility (one channel; registers written at one timestamp agree) and
  observable content of a channel.
\<close>

definition cc_wf :: "channel_crdt \<Rightarrow> bool" where
  "cc_wf c \<longleftrightarrow> ms_wf (cc_members c) \<and> aw_wf (cc_bans c) \<and> aw_wf (cc_invites c) \<and> aw_wf (cc_excepts c)"

definition cc_compat :: "channel_crdt \<Rightarrow> channel_crdt \<Rightarrow> bool" where
  "cc_compat a b \<longleftrightarrow> cc_name a = cc_name b \<and> lww_compat (cc_topic a) (cc_topic b) \<and>
    cm_compat (cc_modes a) (cc_modes b) \<and> lww_compat (cc_key a) (cc_key b) \<and>
    lww_compat (cc_limit a) (cc_limit b) \<and> ms_compat (cc_members a) (cc_members b)"

record channel_view =
  cv_name :: string
  cv_topic :: "topic_crdt option lww_register"
  cv_modes :: channel_modes_crdt
  cv_key :: "string option lww_register"
  cv_limit :: "32 word option lww_register"
  cv_members :: membership_view
  cv_bans :: "list_entry_crdt aw_content"
  cv_invites :: "list_entry_crdt aw_content"
  cv_excepts :: "list_entry_crdt aw_content"
  cv_created_at :: hybrid_timestamp

definition cc_view :: "channel_crdt \<Rightarrow> channel_view" where
  "cc_view c =
    \<lparr>cv_name = cc_name c, cv_topic = cc_topic c, cv_modes = cc_modes c, cv_key = cc_key c,
     cv_limit = cc_limit c, cv_members = ms_view (cc_members c), cv_bans = aw_view (cc_bans c),
     cv_invites = aw_view (cc_invites c), cv_excepts = aw_view (cc_excepts c),
     cv_created_at = cc_created_at c\<rparr>"

definition cc_view_join :: "channel_view \<Rightarrow> channel_view \<Rightarrow> channel_view" where
  "cc_view_join x y =
    \<lparr>cv_name = cv_name x, cv_topic = lww_merge (cv_topic x) (cv_topic y),
     cv_modes = cm_merge (cv_modes x) (cv_modes y), cv_key = lww_merge (cv_key x) (cv_key y),
     cv_limit = lww_merge (cv_limit x) (cv_limit y),
     cv_members = ms_view_join (cv_members x) (cv_members y),
     cv_bans = aw_join (cv_bans x) (cv_bans y), cv_invites = aw_join (cv_invites x) (cv_invites y),
     cv_excepts = aw_join (cv_excepts x) (cv_excepts y),
     cv_created_at = min (cv_created_at x) (cv_created_at y)\<rparr>"

section \<open>Modes and membership meet the contract\<close>

lemma cm_merge_idem [simp]: "cm_merge a a = a"
  by (simp add: cm_merge_def)

lemma cm_merge_assoc: "cm_merge (cm_merge a b) c = cm_merge a (cm_merge b c)"
  by (simp add: cm_merge_def lww_merge_assoc)

lemma cm_merge_commute: "cm_compat a b \<Longrightarrow> cm_merge a b = cm_merge b a"
  by (auto simp: cm_merge_def cm_compat_def intro: lww_merge_commute)

lemma cm_compat_sym: "cm_compat a b \<Longrightarrow> cm_compat b a"
  by (simp add: cm_compat_def lww_compat_sym)

lemma cm_compat_merge: "\<lbrakk>cm_compat a c; cm_compat b c\<rbrakk> \<Longrightarrow> cm_compat (cm_merge a b) c"
  by (simp add: cm_merge_def cm_compat_def lww_compat_merge)

lemma cm_dominates_merge: "cm_dominates a b \<Longrightarrow> cm_merge a b = a"
  by (simp add: cm_merge_def cm_dominates_def lww_dominates_merge)

interpretation cmodes: replicated cm_merge id cm_merge "\<lambda>_. True" cm_compat
  by unfold_locales (auto simp: cm_merge_assoc intro: cm_merge_commute cm_compat_sym cm_compat_merge)

lemma mm_merge_idem [simp]: "mm_merge a a = a"
  by (simp add: mm_merge_def)

lemma mm_merge_assoc: "mm_merge (mm_merge a b) c = mm_merge a (mm_merge b c)"
  by (simp add: mm_merge_def lww_merge_assoc)

lemma mm_merge_commute: "mm_compat a b \<Longrightarrow> mm_merge a b = mm_merge b a"
  by (auto simp: mm_merge_def mm_compat_def intro: lww_merge_commute)

lemma mm_compat_sym: "mm_compat a b \<Longrightarrow> mm_compat b a"
  by (simp add: mm_compat_def lww_compat_sym)

lemma mm_compat_merge: "\<lbrakk>mm_compat a c; mm_compat b c\<rbrakk> \<Longrightarrow> mm_compat (mm_merge a b) c"
  by (simp add: mm_merge_def mm_compat_def lww_compat_merge)

interpretation mmodes: replicated mm_merge id mm_merge "\<lambda>_. True" mm_compat
  by unfold_locales (auto simp: mm_merge_assoc intro: mm_merge_commute mm_compat_sym mm_compat_merge)

interpretation msm: keyed_loop ms_merge_mode map_of "\<lambda>m x. option_join mm_merge x (Some m)"
  by unfold_locales (auto simp: hash_simps split: option.split)

lemma ms_modes_fold:
  "distinct (keys t) \<Longrightarrow> map_of (fold ms_merge_mode t s) u = option_join mm_merge (map_of s u) (map_of t u)"
  by (cases "map_of s u"; cases "map_of t u") (simp_all add: msm.lookup_fold)

lemma ms_view_merge [view_simps]:
  "\<lbrakk>ms_wf a; ms_wf b\<rbrakk> \<Longrightarrow> ms_view (ms_merge a b) = ms_view_join (ms_view a) (ms_view b)"
  by (simp add: ms_view_def ms_merge_def ms_wf_def aw_view_merge ms_modes_fold fun_eq_iff)

lemma ms_wf_merge [inv_intros]: "\<lbrakk>ms_wf a; ms_wf b\<rbrakk> \<Longrightarrow> ms_wf (ms_merge a b)"
proof -
  have "distinct (keys (ms_merge_mode e t))" if "distinct (keys t)" for e t
    using that by (cases e) (auto simp: distinct_update split: option.split)
  then have "distinct (keys t) \<Longrightarrow> distinct (keys (fold ms_merge_mode es t))" for es t
    by (induction es arbitrary: t) auto
  then show "\<lbrakk>ms_wf a; ms_wf b\<rbrakk> \<Longrightarrow> ms_wf (ms_merge a b)"
    by (simp add: ms_wf_def ms_merge_def aw_wf_merge)
qed

lemma option_join_assoc:
  "(\<And>x y z. f (f x y) z = f x (f y z)) \<Longrightarrow>
    option_join f (option_join f x y) z = option_join f x (option_join f y z)"
  by (cases x; cases y; cases z) auto

lemma ms_modes_merge:
  assumes "ms_wf a" "ms_wf b"
  shows "map_of (ms_modes (ms_merge a b)) u = option_join mm_merge (map_of (ms_modes a) u) (map_of (ms_modes b) u)"
  using assms by (simp add: ms_merge_def ms_modes_fold ms_wf_def)

lemma ms_compat_merge:
  assumes "ms_wf a" "ms_wf b" "ms_compat a c" "ms_compat b c"
  shows "ms_compat (ms_merge a b) c"
  unfolding ms_compat_def
proof (intro allI impI)
  fix u m m'
  assume "map_of (ms_modes (ms_merge a b)) u = Some m" "map_of (ms_modes c) u = Some m'"
  then show "mm_compat m m'"
    using assms(3,4) unfolding ms_modes_merge [OF assms(1,2)] ms_compat_def
    by (cases "map_of (ms_modes a) u"; cases "map_of (ms_modes b) u") (auto intro: mm_compat_merge)
qed

interpretation membership: replicated ms_merge ms_view ms_view_join ms_wf ms_compat
proof unfold_locales
  fix a b :: membership_crdt and x y z
  show "ms_view_join (ms_view_join x y) z = ms_view_join x (ms_view_join y z)"
    by (cases x; cases y; cases z) (simp add: aws.join_assoc option_join_assoc mm_merge_assoc)
  show "ms_view_join (ms_view a) (ms_view a) = ms_view a" if "ms_wf a"
  proof -
    have "option_join mm_merge v v = v" for v by (cases v) auto
    then show ?thesis using that by (simp add: ms_view_def ms_wf_def aws.join_idem)
  qed
  show "ms_view_join (ms_view a) (ms_view b) = ms_view_join (ms_view b) (ms_view a)"
    if "ms_wf a" "ms_wf b" "ms_compat a b"
  proof -
    have "option_join mm_merge (map_of (ms_modes a) u) (map_of (ms_modes b) u) =
        option_join mm_merge (map_of (ms_modes b) u) (map_of (ms_modes a) u)" for u
      using \<open>ms_compat a b\<close> unfolding ms_compat_def
      by (cases "map_of (ms_modes a) u"; cases "map_of (ms_modes b) u") (auto intro: mm_merge_commute)
    then show ?thesis
      using that aws.join_commute [of "ms_presence a" "ms_presence b"] by (simp add: ms_view_def ms_wf_def)
  qed
  show "ms_compat a b \<Longrightarrow> ms_compat b a"
    by (auto simp: ms_compat_def intro: mm_compat_sym)
qed (simp_all add: ms_view_merge ms_wf_merge ms_compat_merge)

section \<open>The channel meets the contract\<close>

lemma cc_view_merge [view_simps]:
  "\<lbrakk>cc_wf a; cc_wf b\<rbrakk> \<Longrightarrow> cc_view (cc_merge a b) = cc_view_join (cc_view a) (cc_view b)"
  by (auto simp: cc_view_def cc_view_join_def cc_merge_def cc_wf_def ms_view_merge aw_view_merge min_def)

lemma cc_wf_merge [inv_intros]: "\<lbrakk>cc_wf a; cc_wf b\<rbrakk> \<Longrightarrow> cc_wf (cc_merge a b)"
  by (simp add: cc_wf_def cc_merge_def ms_wf_merge aw_wf_merge)

interpretation channel: replicated cc_merge cc_view cc_view_join cc_wf cc_compat
proof unfold_locales
  fix a b c :: channel_crdt and x y z
  show "cc_view_join (cc_view_join x y) z = cc_view_join x (cc_view_join y z)"
    by (simp add: cc_view_join_def lww_merge_assoc cm_merge_assoc membership.join_assoc
        aws.join_assoc min.assoc)
  show "cc_wf a \<Longrightarrow> cc_view_join (cc_view a) (cc_view a) = cc_view a"
    by (simp add: cc_view_def cc_view_join_def cc_wf_def membership.join_idem aws.join_idem)
  show "cc_view_join (cc_view a) (cc_view b) = cc_view_join (cc_view b) (cc_view a)"
    if "cc_wf a" "cc_wf b" "cc_compat a b"
    using that membership.join_commute [of "cc_members a" "cc_members b"]
      aws.join_commute [of "cc_bans a" "cc_bans b"] aws.join_commute [of "cc_invites a" "cc_invites b"]
      aws.join_commute [of "cc_excepts a" "cc_excepts b"]
    by (auto simp: cc_view_def cc_view_join_def cc_wf_def cc_compat_def min.commute
        intro: lww_merge_commute cm_merge_commute)
  show "cc_compat a b \<Longrightarrow> cc_compat b a"
    by (simp add: cc_compat_def lww_compat_sym cm_compat_sym membership.compat_sym)
  show "\<lbrakk>cc_wf a; cc_wf b; cc_wf c; cc_compat a c; cc_compat b c\<rbrakk> \<Longrightarrow> cc_compat (cc_merge a b) c"
    by (simp add: cc_compat_def cc_merge_def cc_wf_def lww_compat_merge cm_compat_merge ms_compat_merge)
qed (simp_all add: cc_view_merge cc_wf_merge)

section \<open>Operations keep a channel well-formed\<close>

lemma ms_wf_ops [inv_intros]:
  "ms_wf ms_new"
  "ms_wf m \<Longrightarrow> ms_wf (ms_join now uid ts m)"
  "ms_wf m \<Longrightarrow> ms_wf (ms_part uid ts m)"
  "ms_wf m \<Longrightarrow> ms_wf (ms_get_modes_mut uid f m)"
  by (auto simp: ms_wf_def ms_new_def ms_join_def ms_part_def ms_get_modes_mut_def distinct_update
      aw_wf_add aw_wf_remove split: option.split)

lemma aw_wf_remove_all [inv_intros]: "aw_wf s \<Longrightarrow> aw_wf (fold (\<lambda>e. aw_remove e ts) es s)"
  by (induction es arbitrary: s) (auto intro: aw_wf_remove)

lemma cc_wf_ops [inv_intros]:
  "cc_wf (cc_new name ts)"
  "cc_wf c \<Longrightarrow> cc_wf (cc_set_topic now text by ts c)"
  "cc_wf c \<Longrightarrow> cc_wf (cc_clear_topic ts c)"
  "cc_wf c \<Longrightarrow> cc_wf (cc_join now uid ts c)"
  "cc_wf c \<Longrightarrow> cc_wf (cc_part uid ts c)"
  "cc_wf c \<Longrightarrow> cc_wf (cc_add_ban now bmask by ts c)"
  "cc_wf c \<Longrightarrow> cc_wf (cc_remove_ban bmask ts c)"
  by (simp_all add: cc_wf_def cc_new_def cc_set_topic_def cc_clear_topic_def cc_join_def cc_part_def
      cc_add_ban_def cc_remove_ban_def Let_def ms_wf_ops aw_wf_add aw_wf_remove_all)

section \<open>Domination and removal of bans\<close>

definition mm_flags :: "member_modes_crdt \<Rightarrow> bool lww_register list" where
  "mm_flags m = [mm_owner m, mm_admin m, mm_op m, mm_halfop m, mm_voice m]"

lemma mm_dominates_merge: "mm_dominates a b \<Longrightarrow> mm_flags (mm_merge a b) = mm_flags a"
  by (simp add: mm_dominates_def mm_flags_def mm_merge_def lww_dominates_merge)

lemma ms_dominates_merge:
  assumes "ms_wf a" "ms_wf b" "ms_dominates a b"
  shows "aw_view (ms_presence (ms_merge a b)) = aw_view (ms_presence a)"
    and "map_option mm_flags (map_of (ms_modes (ms_merge a b)) u) = map_option mm_flags (map_of (ms_modes a) u)"
proof -
  show "aw_view (ms_presence (ms_merge a b)) = aw_view (ms_presence a)"
    using assms by (simp add: ms_merge_def ms_wf_def ms_dominates_def aw_dominates_merge)
  have "case map_of (ms_modes a) u of Some x \<Rightarrow> mm_dominates x m | None \<Rightarrow> False"
    if "map_of (ms_modes b) u = Some m" for m
    using map_of_SomeD [OF that] assms(3) by (auto simp: ms_dominates_def list_all_iff)
  then show "map_option mm_flags (map_of (ms_modes (ms_merge a b)) u) = map_option mm_flags (map_of (ms_modes a) u)"
    unfolding ms_modes_merge [OF assms(1,2)]
    by (cases "map_of (ms_modes a) u"; cases "map_of (ms_modes b) u") (auto simp: mm_dominates_merge)
qed

lemma aw_view_remove_all [view_simps]:
  "aw_view (fold (\<lambda>e. aw_remove e ts) es s) k =
    (if k \<in> set es \<and> fst (aw_view s k) \<noteq> None \<and> fst (aw_view s k) < Some ts
     then (None, Some ts) else aw_view s k)"
  by (induction es arbitrary: s) (auto simp: aw_view_remove)

lemma cc_bans_remove_ban:
  "aw_view (cc_bans (cc_remove_ban bmask ts c)) e =
    (if le_mask e = bmask \<and> aw_contains (cc_bans c) e \<and> fst (aw_view (cc_bans c) e) < Some ts
     then (None, Some ts) else aw_view (cc_bans c) e)"
  by (auto simp: cc_remove_ban_def Let_def aw_view_remove_all aw_iter_contains aw_contains_view)

section \<open>Properties\<close>

text \<open>C34. Strong eventual consistency of channels: two servers that have seen the same states of a
  channel (their own and the ones received, in any order and with any repetitions) hold the same name,
  topic, modes, key, limit, members with their flags, bans, invites, exceptions and creation time.  The
  states are arbitrary but for the shape \<open>cc_wf\<close> that every operation keeps (each hash map has one
  entry per key, and an element of a set is not older than its tombstone), and register writes at one
  timestamp have to agree.\<close>

theorem channel_convergence:
  assumes "\<And>c. c \<in> insert s (set xs) \<Longrightarrow> cc_wf c"
    and "\<And>c d. \<lbrakk>c \<in> insert s (set xs); d \<in> insert s (set xs)\<rbrakk> \<Longrightarrow> cc_compat c d"
    and "insert s (set xs) = insert t (set ys)"
  shows "cc_view (deliver cc_merge s xs) = cc_view (deliver cc_merge t ys)"
  using assms by (intro channel.convergence) auto

theorem channel_convergence_witness:
  "let c0 = cc_new ''#c'' (HybridTimestamp 1 0 0);
       c1 = cc_join 5 ''u1'' (HybridTimestamp 2 0 0) c0;
       c2 = c0\<lparr>cc_key := lww_update (Some ''key'') (HybridTimestamp 4 0 0) (cc_key c0),
               cc_invites := aw_add (ListEntryCrdt ''*!*@*'' ''bob'' 4) (HybridTimestamp 4 0 0) (cc_invites c0)\<rparr>
   in cc_view (deliver cc_merge c0 [c1, c2]) = cc_view (deliver cc_merge c2 [c0, c1, c0])"
  unfolding Let_def
proof (rule channel_convergence)
  fix c d
  let ?c0 = "cc_new ''#c'' (HybridTimestamp 1 0 0)"
  let ?S = "insert ?c0 (set [cc_join 5 ''u1'' (HybridTimestamp 2 0 0) ?c0,
      ?c0\<lparr>cc_key := lww_update (Some ''key'') (HybridTimestamp 4 0 0) (cc_key ?c0),
          cc_invites := aw_add (ListEntryCrdt ''*!*@*'' ''bob'' 4) (HybridTimestamp 4 0 0) (cc_invites ?c0)\<rparr>])"
  have "cc_wf ?c0" by (rule cc_wf_ops(1))
  then show "c \<in> ?S \<Longrightarrow> cc_wf c"
    by (auto intro: cc_wf_ops) (simp add: cc_wf_def aw_wf_add)
  show "\<lbrakk>c \<in> ?S; d \<in> ?S\<rbrakk> \<Longrightarrow> cc_compat c d"
    by (auto simp: cc_compat_def cm_compat_def ms_compat_def mm_compat_def lww_compat_def cc_new_def
        cc_join_def cc_set_topic_def lww_update_def lww_new_def ms_new_def ms_join_def ht_less_iff)
qed auto

text \<open>\<open>dominates\<close> of channels is sound for everything but the two times: merging a dominated
  channel changes no register, no member flag, no presence and no list.\<close>

theorem channel_dominates_contents:
  assumes "cc_wf a" and "cc_wf b" and "cc_dominates a b"
  shows "cc_topic (cc_merge a b) = cc_topic a \<and> cc_modes (cc_merge a b) = cc_modes a \<and>
    cc_key (cc_merge a b) = cc_key a \<and> cc_limit (cc_merge a b) = cc_limit a \<and>
    aw_view (cc_bans (cc_merge a b)) = aw_view (cc_bans a) \<and>
    aw_view (cc_invites (cc_merge a b)) = aw_view (cc_invites a) \<and>
    aw_view (cc_excepts (cc_merge a b)) = aw_view (cc_excepts a) \<and>
    aw_view (ms_presence (cc_members (cc_merge a b))) = aw_view (ms_presence (cc_members a)) \<and>
    map_option mm_flags (map_of (ms_modes (cc_members (cc_merge a b))) u) =
      map_option mm_flags (map_of (ms_modes (cc_members a)) u)"
  using assms ms_dominates_merge [of "cc_members a" "cc_members b"]
  by (simp add: cc_wf_def cc_dominates_def cc_merge_def lww_dominates_merge cm_dominates_merge aw_dominates_merge)

text \<open>\<open>dominates\<close> of channels ignores the creation time, so it does not mean, as the trait
  promises, that merging would not change the channel.\<close>

theorem channel_dominates_ignores_created_at:
  "cc_dominates (cc_new ''#c'' (HybridTimestamp 2 0 0)) (cc_new ''#c'' (HybridTimestamp 1 0 0)) \<and>
   cc_merge (cc_new ''#c'' (HybridTimestamp 2 0 0)) (cc_new ''#c'' (HybridTimestamp 1 0 0))
     \<noteq> cc_new ''#c'' (HybridTimestamp 2 0 0)"
  by (simp add: cc_dominates_def cm_dominates_def ms_dominates_def aw_dominates_def lww_dominates_def
      cc_new_def cm_new_def ms_new_def aw_new_def lww_new_def ht_le_iff ht_less_iff cc_merge_def)

text \<open>\<open>remove_ban\<close> with a timestamp later than every ban on the mask removes all of them,
  whoever set them, and leaves every other ban as it was.\<close>

theorem remove_ban_clears_mask:
  assumes "\<And>e ts'. \<lbrakk>le_mask e = bmask; map_of (elements (cc_bans c)) e = Some ts'\<rbrakk> \<Longrightarrow> ts' < ts"
  shows "aw_contains (cc_bans (cc_remove_ban bmask ts c)) e \<longleftrightarrow>
    aw_contains (cc_bans c) e \<and> le_mask e \<noteq> bmask"
  using assms [of e] cc_bans_remove_ban [of bmask ts c e]
  by (auto simp: aw_contains_view aw_view_def)

end
