(* ===== verification/Proto_Text.thy ===== *)
theory Proto_Text
  imports Casemap
begin

text \<open>
  The textual parts of \<open>crates/slirc-proto/src\<close> the channel actor relies on: message prefixes
  (\<open>prefix/types.rs\<close>, \<open>prefix/serialize.rs\<close>), tag values (\<open>message/tags.rs\<close>), nickname and channel
  name checks (\<open>nick.rs\<close>, \<open>chan.rs\<close>), CTCP bodies (\<open>ctcp.rs\<close>) and formatting codes (\<open>colors.rs\<close>).

  Where a loop over the characters of a string only compares them with ASCII characters and copies
  them, the model runs over the bytes: the bytes of a longer character are all above 127, so they
  take the same branch as the character itself.  Checks that look at other characters
  (\<open>char::is_control\<close>) run over \<^const>\<open>rust_chars\<close>.
\<close>

section \<open>Prefixes\<close>

datatype msg_prefix =
    ServerName string
  | Nickname string string string

datatype prefix_part = PartName | PartUser | PartHost

text \<open>The state of the loop: name, user, host, the current part and \<open>is_server\<close>.\<close>

fun prefix_loop ::
  "string \<Rightarrow> string \<Rightarrow> string \<Rightarrow> string \<Rightarrow> prefix_part \<Rightarrow> bool \<Rightarrow> msg_prefix" where
  "prefix_loop [] name user host part is_server =
    (if is_server then ServerName name else Nickname name user host)"
| "prefix_loop (c # cs) name user host part is_server =
    (let is_server = (if c = CHR ''.'' \<and> part = PartName then True else is_server) in
     if c = CHR ''!'' \<and> part = PartName then prefix_loop cs name user host PartUser False
     else if c = CHR ''@'' \<and> part \<noteq> PartHost then prefix_loop cs name user host PartHost False
     else (case part of
         PartName \<Rightarrow> prefix_loop cs (name @ [c]) user host part is_server
       | PartUser \<Rightarrow> prefix_loop cs name (user @ [c]) host part is_server
       | PartHost \<Rightarrow> prefix_loop cs name user (host @ [c]) part is_server))"

definition prefix_new_from_str :: "string \<Rightarrow> msg_prefix" where
  "prefix_new_from_str s = prefix_loop s [] [] [] PartName False"

fun prefix_nick :: "msg_prefix \<Rightarrow> string option" where
  "prefix_nick (Nickname nick _ _) = (if nick \<noteq> [] then Some nick else None)"
| "prefix_nick _ = None"

fun prefix_user :: "msg_prefix \<Rightarrow> string option" where
  "prefix_user (Nickname _ user _) = (if user \<noteq> [] then Some user else None)"
| "prefix_user _ = None"

fun prefix_host :: "msg_prefix \<Rightarrow> string option" where
  "prefix_host (ServerName name) = Some name"
| "prefix_host (Nickname _ _ host) = (if host \<noteq> [] then Some host else None)"

fun prefix_display :: "msg_prefix \<Rightarrow> string" where
  "prefix_display (ServerName name) = name"
| "prefix_display (Nickname name user host) =
    (if name = [] \<and> user = [] \<and> host = [] then []
     else if user = [] \<and> host = [] then name
     else if host = [] then name @ ''!'' @ user
     else if user = [] then name @ ''@'' @ host
     else name @ ''!'' @ user @ ''@'' @ host)"

text \<open>\<open>char::is_control\<close>: the characters U+0000 to U+001F and U+007F to U+009F.\<close>

definition is_control :: "string \<Rightarrow> bool" where
  "is_control g \<longleftrightarrow>
    (case g of
       [b] \<Rightarrow> byte_of b < 32 \<or> byte_of b = 127
     | [b1, b2] \<Rightarrow> byte_of b1 = 194 \<and> 128 \<le> byte_of b2 \<and> byte_of b2 < 160
     | _ \<Rightarrow> False)"

definition is_ascii_alphabetic :: "char \<Rightarrow> bool" where
  "is_ascii_alphabetic c \<longleftrightarrow> (65 \<le> byte_of c \<and> byte_of c \<le> 90) \<or> (97 \<le> byte_of c \<and> byte_of c \<le> 122)"

definition is_special_range :: "char \<Rightarrow> bool" where
  "is_special_range c \<longleftrightarrow> (91 \<le> byte_of c \<and> byte_of c \<le> 96) \<or> (123 \<le> byte_of c \<and> byte_of c \<le> 125)"

definition validate_nickname :: "string \<Rightarrow> bool" where
  "validate_nickname nick =
    (case nick of
       [] \<Rightarrow> False
     | first # rest \<Rightarrow>
         if \<not> (is_ascii_alphabetic first \<or> is_special_range first) then False
         else if \<not> list_all (\<lambda>c. is_ascii_alphabetic c \<or> is_ascii_digit c \<or> is_special_range c \<or> c = CHR ''-'') rest
         then False
         else length nick \<le> 50)"

definition validate_prefix :: "string \<Rightarrow> bool" where
  "validate_prefix s =
    (if s = [] then False
     else if list_ex (\<lambda>c. is_control c \<or> c = '' '') (rust_chars s) then False
     else if CHR ''!'' \<notin> set s \<and> CHR ''@'' \<notin> set s then True
     else (case split_once CHR ''@'' s of
         None \<Rightarrow> False
       | Some (before_at, host) \<Rightarrow>
           if host = [] then False
           else let (nick, user) = (case split_once CHR ''!'' before_at of
                      Some (nick, user) \<Rightarrow> (nick, user) | None \<Rightarrow> (before_at, []))
             in if nick = [] then False
                else if \<not> validate_nickname nick then False
                else if user \<noteq> [] \<and> list_ex (\<lambda>c. c = ''@'' \<or> c = '' '' \<or> is_control c) (rust_chars user) then False
                else if list_ex (\<lambda>c. c = '' '' \<or> is_control c) (rust_chars host) then False
                else True))"

definition prefix_try_from_str :: "string \<Rightarrow> string + msg_prefix" where
  "prefix_try_from_str s = (if validate_prefix s then Inr (prefix_new_from_str s) else Inl s)"

text \<open>The borrowed parser.\<close>

record prefix_ref =
  pr_nick :: "string option"
  pr_user :: "string option"
  pr_host :: "string option"
  pr_raw :: string

definition non_empty :: "string \<Rightarrow> string option" where
  "non_empty s = (if s = [] then None else Some s)"

definition prefix_ref_parse :: "string \<Rightarrow> prefix_ref" where
  "prefix_ref_parse s =
    (case split_once CHR ''@'' s of
       Some (before, host) \<Rightarrow>
         let (nick, user) = (case split_once CHR ''!'' before of
               Some (n, u) \<Rightarrow> (non_empty n, non_empty u)
             | None \<Rightarrow> (non_empty before, None))
         in \<lparr>pr_nick = nick, pr_user = user, pr_host = Some host, pr_raw = s\<rparr>
     | None \<Rightarrow>
         (case split_once CHR ''!'' s of
            Some (nick, user) \<Rightarrow>
              \<lparr>pr_nick = non_empty nick, pr_user = non_empty user, pr_host = None, pr_raw = s\<rparr>
          | None \<Rightarrow>
              if CHR ''.'' \<in> set s
              then \<lparr>pr_nick = None, pr_user = None, pr_host = Some s, pr_raw = s\<rparr>
              else \<lparr>pr_nick = Some s, pr_user = None, pr_host = None, pr_raw = s\<rparr>))"

definition prefix_ref_is_server :: "prefix_ref \<Rightarrow> bool" where
  "prefix_ref_is_server p \<longleftrightarrow> pr_nick p = None \<and> pr_user p = None \<and> pr_host p \<noteq> None"

section \<open>Tag values\<close>

definition escape_tag_char :: "char \<Rightarrow> string" where
  "escape_tag_char c =
    (if c = CHR '';'' then [CHR 0x5C, CHR '':'']
     else if c = CHR '' '' then [CHR 0x5C, CHR ''s'']
     else if c = CHR 0x5C then [CHR 0x5C, CHR 0x5C]
     else if c = CHR 0x0D then [CHR 0x5C, CHR ''r'']
     else if c = CHR 0x0A then [CHR 0x5C, CHR ''n'']
     else [c])"

definition escape_tag_value :: "string \<Rightarrow> string" where
  "escape_tag_value v = concat (map escape_tag_char v)"

text \<open>The writer variant: the bytes written and their number, for a writer such as \<open>Vec<u8>\<close> that takes every
  \<open>write\<close> whole; the code does not retry a short write.\<close>

fun escape_tag_value_to_writer :: "string \<Rightarrow> string \<times> nat \<Rightarrow> string \<times> nat" where
  "escape_tag_value_to_writer [] (w, written) = (w, written)"
| "escape_tag_value_to_writer (c # cs) (w, written) =
    escape_tag_value_to_writer cs (w @ escape_tag_char c, written + length (escape_tag_char c))"

fun unescape_tag_value :: "string \<Rightarrow> string" where
  "unescape_tag_value [] = []"
| "unescape_tag_value [c] = (if c = CHR 0x5C then [] else [c])"
| "unescape_tag_value (c # d # cs) =
    (if c = CHR 0x5C then
       (if d = CHR '':'' then CHR '';''
        else if d = CHR ''s'' then CHR '' ''
        else if d = CHR 0x5C then CHR 0x5C
        else if d = CHR ''r'' then CHR 0x0D
        else if d = CHR ''n'' then CHR 0x0A
        else d) # unescape_tag_value cs
     else c # unescape_tag_value (d # cs))"

section \<open>Nicknames and channel names\<close>

definition DEFAULT_NICK_MAX_LEN :: nat where
  "DEFAULT_NICK_MAX_LEN = 30"

definition is_special :: "char \<Rightarrow> bool" where
  "is_special c \<longleftrightarrow> c \<in> {CHR ''['', CHR '']'', CHR 0x5C, CHR 0x60, CHR ''_'', CHR ''^'', CHR ''{'', CHR ''|'', CHR ''}''}"

definition is_valid_nick_len :: "string \<Rightarrow> nat \<Rightarrow> bool" where
  "is_valid_nick_len s max_len =
    (if s = [] \<or> length s > max_len then False
     else (case s of
         [] \<Rightarrow> False
       | first # rest \<Rightarrow>
           if \<not> is_ascii_alphabetic first \<and> \<not> is_special first then False
           else list_all (\<lambda>c. is_ascii_alphabetic c \<or> is_ascii_digit c \<or> is_special c \<or> c = CHR ''-'') rest))"

definition is_valid_nick :: "string \<Rightarrow> bool" where
  "is_valid_nick s = is_valid_nick_len s DEFAULT_NICK_MAX_LEN"

definition is_channel_name :: "string \<Rightarrow> bool" where
  "is_channel_name s =
    (case rust_chars s of
       [] \<Rightarrow> False
     | first # chars \<Rightarrow>
         if \<not> (first = ''#'' \<or> first = ''&'' \<or> first = ''+'' \<or> first = ''!'') then False
         else if length (rust_chars s) > 50 then False
         else list_all (\<lambda>c. \<not> (c = '' '' \<or> c = '','' \<or> c = [CHR 0x07] \<or> c = [CHR 0x00] \<or> is_control c)) chars)"

section \<open>CTCP bodies\<close>

datatype ctcp_kind =
    CtcpAction | CtcpVersion | CtcpPing | CtcpTime | CtcpUserinfo | CtcpClientinfo
  | CtcpSource | CtcpFinger | CtcpDcc | CtcpUnknown string

definition to_ascii_uppercase :: "string \<Rightarrow> string" where
  "to_ascii_uppercase s = map (\<lambda>c. if 97 \<le> byte_of c \<and> byte_of c \<le> 122 then char_of (byte_of c - 32) else c) s"

definition ctcp_kind_parse :: "string \<Rightarrow> ctcp_kind" where
  "ctcp_kind_parse name =
    (let up = to_ascii_uppercase name in
     if up = ''ACTION'' then CtcpAction
     else if up = ''VERSION'' then CtcpVersion
     else if up = ''PING'' then CtcpPing
     else if up = ''TIME'' then CtcpTime
     else if up = ''USERINFO'' then CtcpUserinfo
     else if up = ''CLIENTINFO'' then CtcpClientinfo
     else if up = ''SOURCE'' then CtcpSource
     else if up = ''FINGER'' then CtcpFinger
     else if up = ''DCC'' then CtcpDcc
     else CtcpUnknown name)"

fun ctcp_kind_as_str :: "ctcp_kind \<Rightarrow> string" where
  "ctcp_kind_as_str CtcpAction = ''ACTION''"
| "ctcp_kind_as_str CtcpVersion = ''VERSION''"
| "ctcp_kind_as_str CtcpPing = ''PING''"
| "ctcp_kind_as_str CtcpTime = ''TIME''"
| "ctcp_kind_as_str CtcpUserinfo = ''USERINFO''"
| "ctcp_kind_as_str CtcpClientinfo = ''CLIENTINFO''"
| "ctcp_kind_as_str CtcpSource = ''SOURCE''"
| "ctcp_kind_as_str CtcpFinger = ''FINGER''"
| "ctcp_kind_as_str CtcpDcc = ''DCC''"
| "ctcp_kind_as_str (CtcpUnknown s) = s"

definition CTCP_DELIM :: char where
  "CTCP_DELIM = CHR 0x01"

record ctcp =
  ctcp_knd :: ctcp_kind
  ctcp_params :: "string option"

definition ctcp_parse :: "string \<Rightarrow> ctcp option" where
  "ctcp_parse body =
    (case body of
       [] \<Rightarrow> None
     | c # t \<Rightarrow>
         if c \<noteq> CTCP_DELIM then None
         else let t = (if t \<noteq> [] \<and> last t = CTCP_DELIM then butlast t else t) in
           if t = [] then None
           else let (command, params) = (case split_once CHR '' '' t of
                      Some (cmd, params) \<Rightarrow> (cmd, if params = [] then None else Some params)
                    | None \<Rightarrow> (t, None))
             in Some \<lparr>ctcp_knd = ctcp_kind_parse command, ctcp_params = params\<rparr>)"

definition is_ctcp :: "string \<Rightarrow> bool" where
  "is_ctcp body \<longleftrightarrow> (case body of [] \<Rightarrow> False | c # _ \<Rightarrow> c = CTCP_DELIM)"

definition ctcp_display :: "ctcp \<Rightarrow> string" where
  "ctcp_display c =
    CTCP_DELIM # ctcp_kind_as_str (ctcp_knd c) @
    (case ctcp_params c of Some p \<Rightarrow> '' '' @ p | None \<Rightarrow> []) @ [CTCP_DELIM]"

section \<open>Formatting codes\<close>

definition FORMAT_CHARS :: "char list" where
  "FORMAT_CHARS = [CHR 0x02, CHR 0x03, CHR 0x0F, CHR 0x16, CHR 0x1F]"

datatype color_state = ColorText | ColorStart | Foreground1 char | Foreground2 | ColorComma | Background1 char

text \<open>\<open>ColorParser::consume\<close>: the next state and whether the character is kept; the match arms in
  order.\<close>

definition consume :: "color_state \<Rightarrow> char \<Rightarrow> color_state \<times> bool" where
  "consume st c =
    (case st of
       ColorText \<Rightarrow>
         if c = CHR 0x03 then (ColorStart, False) else (ColorText, c \<notin> set FORMAT_CHARS)
     | ColorStart \<Rightarrow>
         if is_ascii_digit c then (Foreground1 c, False) else (ColorText, c \<notin> set FORMAT_CHARS)
     | Foreground1 d \<Rightarrow>
         if c = CHR 0x03 then (ColorStart, False)
         else if d = CHR ''0'' \<and> is_ascii_digit c then (Foreground2, False)
         else if d = CHR ''1'' \<and> is_ascii_digit c \<and> byte_of c < 54 then (Foreground2, False)
         else if is_ascii_digit c \<and> byte_of c < 54 then (ColorText, True)
         else if c = CHR '','' then (ColorComma, False)
         else (ColorText, c \<notin> set FORMAT_CHARS)
     | Foreground2 \<Rightarrow>
         if c = CHR 0x03 then (ColorStart, False)
         else if c = CHR '','' then (ColorComma, False)
         else (ColorText, c \<notin> set FORMAT_CHARS)
     | ColorComma \<Rightarrow>
         if is_ascii_digit c then (Background1 c, False) else (ColorText, c \<notin> set FORMAT_CHARS)
     | Background1 prev \<Rightarrow>
         if is_ascii_digit c \<and> byte_of c < 54 then (ColorText, prev \<noteq> CHR ''1'')
         else (ColorText, c \<notin> set FORMAT_CHARS))"

fun strip_loop :: "color_state \<Rightarrow> string \<Rightarrow> string" where
  "strip_loop st [] = []"
| "strip_loop st (c # cs) =
    (case consume st c of (st', keep) \<Rightarrow> if keep then c # strip_loop st' cs else strip_loop st' cs)"

definition is_formatted :: "string \<Rightarrow> bool" where
  "is_formatted s \<longleftrightarrow> (\<exists>c \<in> set FORMAT_CHARS. c \<in> set s)"

definition strip_formatting :: "string \<Rightarrow> string" where
  "strip_formatting s = (if \<not> is_formatted s then s else strip_loop ColorText s)"

section \<open>Lemmas on prefixes\<close>

lemma prefix_loop_host: "prefix_loop s n u h PartHost False = Nickname n u (h @ s)"
  by (induction s arbitrary: h) auto

lemma prefix_loop_user:
  "prefix_loop s n u h PartUser False =
    (case split_once CHR ''@'' s of
       Some (a, b) \<Rightarrow> Nickname n (u @ a) (h @ b) | None \<Rightarrow> Nickname n (u @ s) h)"
proof (induction s arbitrary: u)
  case (Cons c s)
  show ?case
  proof (cases "c = CHR ''@''")
    case True
    then show ?thesis by (simp add: prefix_loop_host split_once_def)
  next
    case False
    then show ?thesis using Cons [of "u @ [c]"] by (auto simp: split_once_def)
  qed
qed (simp add: split_once_def)

lemma prefix_loop_name:
  "CHR ''!'' \<notin> set a \<Longrightarrow> CHR ''@'' \<notin> set a \<Longrightarrow>
    prefix_loop (a @ r) n u h PartName b = prefix_loop r (n @ a) u h PartName (b \<or> CHR ''.'' \<in> set a)"
  by (induction a arbitrary: n b) (auto simp: Let_def)

lemma split_once_None: "c \<notin> set s \<Longrightarrow> split_once c s = None"
  by (simp add: split_once_def)

lemma split_once_Some: "c \<in> set s \<Longrightarrow> \<exists>a b. s = a @ c # b \<and> c \<notin> set a \<and> split_once c s = Some (a, b)"
  using split_once_append split_list_first [of c s] by metis

text \<open>How a prefix starts: the part before the first of \<open>!\<close> and \<open>@\<close>.\<close>

lemma prefix_start:
  obtains (plain) "CHR ''!'' \<notin> set s" "CHR ''@'' \<notin> set s"
  | (at) a b where "s = a @ CHR ''@'' # b" "CHR ''!'' \<notin> set a" "CHR ''@'' \<notin> set a"
  | (bang) a b where "s = a @ CHR ''!'' # b" "CHR ''!'' \<notin> set a" "CHR ''@'' \<notin> set a"
proof -
  let ?P = "\<lambda>c. c \<noteq> CHR ''!'' \<and> c \<noteq> CHR ''@''"
  have s: "s = takeWhile ?P s @ dropWhile ?P s" by simp
  have t: "CHR ''!'' \<notin> set (takeWhile ?P s)" "CHR ''@'' \<notin> set (takeWhile ?P s)"
    using set_takeWhileD by fastforce+
  show thesis
  proof (cases "dropWhile ?P s")
    case Nil
    then have "\<forall>c \<in> set s. ?P c" by simp
    then show thesis using plain by blast
  next
    case (Cons c b)
    then have "c = CHR ''!'' \<or> c = CHR ''@''" using hd_dropWhile [of ?P s] by force
    moreover have "s = takeWhile ?P s @ c # b" using takeWhile_dropWhile_id [of ?P s] unfolding Cons by (rule sym)
    ultimately show thesis using at [OF _ t, of b] bang [OF _ t, of b] by blast
  qed
qed

lemma prefix_new_from_str_plain:
  assumes "CHR ''!'' \<notin> set s" "CHR ''@'' \<notin> set s"
  shows "prefix_new_from_str s = (if CHR ''.'' \<in> set s then ServerName s else Nickname s [] [])"
  using assms prefix_loop_name [of s "[]"] by (simp add: prefix_new_from_str_def)

lemma prefix_new_from_str_at:
  assumes "CHR ''!'' \<notin> set a" "CHR ''@'' \<notin> set a"
  shows "prefix_new_from_str (a @ CHR ''@'' # b) = Nickname a [] b"
  using assms by (simp add: prefix_new_from_str_def prefix_loop_name prefix_loop_host)

lemma prefix_new_from_str_bang:
  assumes "CHR ''!'' \<notin> set a" "CHR ''@'' \<notin> set a"
  shows "prefix_new_from_str (a @ CHR ''!'' # b) =
    (case split_once CHR ''@'' b of Some (u, h) \<Rightarrow> Nickname a u h | None \<Rightarrow> Nickname a b [])"
  using assms by (cases "split_once CHR ''@'' b") (auto simp: prefix_new_from_str_def prefix_loop_name prefix_loop_user)

lemmas prefix_shapes = prefix_new_from_str_plain prefix_new_from_str_at prefix_new_from_str_bang

section \<open>Lemmas on nicknames, tags, CTCP bodies and formatting codes\<close>

lemma is_special_eq: "is_special c \<longleftrightarrow> is_special_range c"
proof -
  have "is_special c \<longleftrightarrow> byte_of c \<in> byte_of ` {CHR ''['', CHR '']'', CHR 0x5C, CHR 0x60, CHR ''_'', CHR ''^'', CHR ''{'', CHR ''|'', CHR ''}''}"
    by (auto simp: is_special_def byte_of_eq_iff)
  then show ?thesis by (auto simp: is_special_range_def byte_of_def)
qed

lemma validate_nickname_eq: "validate_nickname s = is_valid_nick_len s 50"
  by (cases s) (auto simp: validate_nickname_def is_valid_nick_len_def is_special_eq)

lemma unescape_escape_char: "unescape_tag_value (escape_tag_char c @ r) = c # unescape_tag_value r"
  by (cases r) (auto simp: escape_tag_char_def)

lemma escape_to_writer_eq:
  "escape_tag_value_to_writer v (w, n) = (w @ escape_tag_value v, n + length (escape_tag_value v))"
  by (induction v arbitrary: w n) (auto simp: escape_tag_value_def)

lemma escape_tag_char_clean:
  "set (escape_tag_char c) \<inter> {CHR '';'', CHR '' '', CHR 0x0D, CHR 0x0A} = {}"
  by (auto simp: escape_tag_char_def)

lemma consume_keeps: "consume st c = (st', True) \<Longrightarrow> c \<notin> set FORMAT_CHARS"
  by (cases st) (auto simp: consume_def FORMAT_CHARS_def is_ascii_digit_def byte_of_def split: if_splits)

lemma strip_loop_Cons:
  "strip_loop st (c # cs) = (if snd (consume st c) then [c] else []) @ strip_loop (fst (consume st c)) cs"
  by (simp split: prod.splits)

lemma strip_loop_clean: "d \<in> set (strip_loop st s) \<Longrightarrow> d \<notin> set FORMAT_CHARS \<and> d \<in> set s"
proof (induction s arbitrary: st)
  case (Cons c cs)
  have "snd (consume st c) \<Longrightarrow> c \<notin> set FORMAT_CHARS"
    using consume_keeps [of st c "fst (consume st c)"] by (metis prod.collapse)
  then show ?case using Cons unfolding strip_loop_Cons by (auto split: if_splits)
qed simp

lemma is_formatted_iff: "is_formatted s \<longleftrightarrow> set s \<inter> set FORMAT_CHARS \<noteq> {}"
  by (auto simp: is_formatted_def)

lemma filter_FORMAT: "set (filter (\<lambda>c. c \<notin> set FORMAT_CHARS) s) \<inter> set FORMAT_CHARS = {}"
  by auto

lemma ctcp_known_kinds:
  "list_all (\<lambda>k. ctcp_kind_parse (ctcp_kind_as_str k) = k)
    [CtcpAction, CtcpVersion, CtcpPing, CtcpTime, CtcpUserinfo, CtcpClientinfo, CtcpSource, CtcpFinger, CtcpDcc]"
  by code_simp

lemma ctcp_parse_is_ctcp: "ctcp_parse b = Some c \<Longrightarrow> is_ctcp b"
  by (auto simp: ctcp_parse_def is_ctcp_def split: list.splits if_splits)

section \<open>Properties\<close>

text \<open>C39. A tag value survives the wire: unescaping its escaped form gives it back, and the escaped
  form, the same in both writers, has none of the bytes that end a tag, the tag section or the line.\<close>

theorem tag_value_roundtrip:
  "unescape_tag_value (escape_tag_value v) = v \<and>
   set (escape_tag_value v) \<inter> {CHR '';'', CHR '' '', CHR 0x0D, CHR 0x0A} = {} \<and>
   escape_tag_value_to_writer v ([], 0) = (escape_tag_value v, length (escape_tag_value v))"
  using escape_tag_char_clean
  by (induction v) (auto simp: escape_tag_value_def unescape_escape_char escape_to_writer_eq)

text \<open>A user prefix prints to a text that parses back to it, if its nickname has no separator
  and its user name no \<open>@\<close>, and a bare nickname no dot, which would make it a server.\<close>

theorem prefix_roundtrip:
  assumes "CHR ''!'' \<notin> set nick" and "CHR ''@'' \<notin> set nick" and "CHR ''@'' \<notin> set user"
    and "user = [] \<and> host = [] \<Longrightarrow> CHR ''.'' \<notin> set nick"
  shows "prefix_new_from_str (prefix_display (Nickname nick user host)) = Nickname nick user host"
  using assms prefix_new_from_str_bang [of nick "user @ CHR ''@'' # host"]
  by (auto simp: prefix_shapes split_once_append split_once_None)

text \<open>The borrowed prefix parser and the owning one agree: same nickname and user, and the same
  host up to an empty one after \<open>@\<close>, for every text but the empty one.\<close>

theorem prefix_ref_agrees:
  assumes "s \<noteq> []"
  shows "pr_nick (prefix_ref_parse s) = prefix_nick (prefix_new_from_str s) \<and>
    pr_user (prefix_ref_parse s) = prefix_user (prefix_new_from_str s) \<and>
    (pr_host (prefix_ref_parse s) = prefix_host (prefix_new_from_str s) \<or>
     pr_host (prefix_ref_parse s) = Some [] \<and> prefix_host (prefix_new_from_str s) = None)"
proof (cases rule: prefix_start [of s])
  case plain
  then show ?thesis using assms by (simp add: prefix_ref_parse_def prefix_shapes split_once_None)
next
  case (at a b)
  then show ?thesis
    by (simp add: prefix_ref_parse_def prefix_shapes split_once_append split_once_None non_empty_def)
next
  case (bang a b)
  show ?thesis
  proof (cases "CHR ''@'' \<in> set b")
    case True
    then obtain u h where b: "b = u @ CHR ''@'' # h" "CHR ''@'' \<notin> set u" by (metis split_list_first)
    then have "split_once CHR ''@'' ((a @ CHR ''!'' # u) @ CHR ''@'' # h) = Some (a @ CHR ''!'' # u, h)"
      using bang by (intro split_once_append) simp
    then show ?thesis using bang b
      by (simp add: prefix_ref_parse_def prefix_shapes split_once_append non_empty_def)
  next
    case False
    then show ?thesis using bang
      by (simp add: prefix_ref_parse_def prefix_shapes split_once_append split_once_None non_empty_def)
  qed
qed

text \<open>Stripping removes every formatting code, invents no character, leaves unformatted text
  alone and is idempotent.\<close>

theorem strip_formatting_clean:
  "\<not> is_formatted (strip_formatting s) \<and> set (strip_formatting s) \<subseteq> set s \<and>
   strip_formatting (strip_formatting s) = strip_formatting s \<and>
   strip_formatting (filter (\<lambda>c. c \<notin> set FORMAT_CHARS) s) = filter (\<lambda>c. c \<notin> set FORMAT_CHARS) s"
proof -
  have "set (strip_loop st r) \<inter> set FORMAT_CHARS = {}" "set (strip_loop st r) \<subseteq> set r" for st r
    using strip_loop_clean by blast+
  then show ?thesis
    by (simp add: strip_formatting_def is_formatted_iff filter_FORMAT del: set_filter)
qed

end
