(* ===== verification/Actor_Base.thy ===== *)
theory Actor_Base
  imports Channel_State Channel_Crdt Proto_Text
begin

text \<open>
  The channel actor of \<open>src/state/actor\<close>: its state (\<open>mod.rs\<close>), the values its handlers exchange
  (\<open>types.rs\<close>, \<open>src/error.rs\<close>, \<open>src/history/types.rs\<close>), invitations (\<open>validation/invites.rs\<close>), privileges
  (\<open>validation/permissions.rs\<close>, \<open>helpers/members.rs\<close>), the state's CRDT form (\<open>crdt.rs\<close>), broadcasting
  (\<open>handlers/broadcast.rs\<close>) and the end of a channel (\<open>cleanup_if_empty\<close>).

  A handler is a function from the environment and the actor's state to the new state, the list of
  effects in program order and the value sent on the reply channel, \<open>None\<close> if that channel is dropped
  unused.  The environment holds what the handler reads from elsewhere: clocks, random identifiers,
  the user, session and link tables, the outcome of sending on a queue and of a rate limiter.  A hash
  table is an association list, a hash set a list without duplicates, in iteration order.  The clocks
  are read once per event.  User identifiers are ASCII text.
\<close>

section \<open>Messages\<close>

type_synonym uid = string
type_synonym sender = nat
type_synonym tag = "string \<times> string option"

text \<open>The commands the actor builds or inspects; all others are \<open>OtherCommand\<close>.\<close>

datatype command =
    PRIVMSG string string
  | NOTICE string string
  | TAGMSG string
  | JOIN string "string option" "string option"
  | PART string "string option"
  | KICK string string "string option"
  | TOPIC string "string option"
  | INVITE string string
  | QUIT "string option"
  | ChannelMODE string "proto_mode mode list"
  | RawCommand string "string list"
  | OtherCommand string "string list"

record message =
  msg_tags :: "tag list option"
  msg_prefix :: "msg_prefix option"
  msg_command :: command

definition tag_value :: "message \<Rightarrow> string \<Rightarrow> string option" where
  "tag_value m key =
    (case msg_tags m of
       None \<Rightarrow> None
     | Some tags \<Rightarrow> (case List.find (\<lambda>(k, _). k = key) tags of Some (_, v) \<Rightarrow> v | None \<Rightarrow> None))"

section \<open>Errors, history items and effects\<close>

datatype channel_error =
    NotOnChannel
  | ChanOpPrivsNeeded
  | UserNotInChannel string
  | UserOnChannel string
  | CannotKnock
  | ChanOpen
  | ChannelTombstone
  | SessionInvalid
  | BannedFromChan
  | InviteOnlyChan
  | ChannelIsFull
  | BadChannelKey
  | NeedReggedNick
  | SecureOnlyChan
  | OperOnlyChan
  | AdminOnlyChan
  | NoKicksActive
  | NoInviteActive
  | Redirect string
  | Generic string

datatype event_kind =
    EkJoin
  | EkPart "string option"
  | EkQuit "string option"
  | EkKick string "string option"
  | EkMode string
  | EkTopic "string option" string
  | EkNick string

record message_envelope =
  me_command :: string
  me_prefix :: string
  me_target :: string
  me_text :: string
  me_tags :: "tag list option"

record stored_message =
  sm_msgid :: string
  sm_target :: string
  sm_sender :: string
  sm_envelope :: message_envelope
  sm_nanotime :: int
  sm_account :: "string option"
  sm_status_prefix :: "string option"

datatype history_item =
    HistoryMessage stored_message
  | HistoryEvent string int string event_kind

text \<open>The row \<open>CheckAndSave\<close> writes.\<close>

record saved_state =
  sv_name :: string
  sv_modes :: string
  sv_topic :: "string option"
  sv_topic_set_by :: "string option"
  sv_topic_set_at :: "int option"
  sv_created_at :: int
  sv_key :: "string option"
  sv_user_limit :: "int option"
  sv_metadata :: "string option"

datatype effect =
    SendToUid uid message
  | TrySend sender message
  | PeerSend server_id message
  | Disconnect uid string
  | StoreHistory string history_item
  | ObserverUpdate channel_crdt "server_id option"
  | ObserverDestroy string
  | DeleteState string
  | RemoveChannel string
  | SaveState saved_state
  | Panic

section \<open>Environment\<close>

datatype send_result = SendOk | SendFull | SendClosed

record user_info =
  ui_session_id :: string
  ui_account :: "string option"
  ui_caps :: "string list"

record env =
  env_matrix :: bool
  env_server_id :: server_id
  env_hash :: "string \<Rightarrow> 64 word"
  env_millis :: int
  env_nanos :: "int option"
  env_instant :: nat
  env_uuid :: string
  env_time_text :: string
  env_users :: "(uid \<times> user_info) list"
  env_account_sessions :: "string \<Rightarrow> uid list"
  env_first_uid :: "string \<Rightarrow> uid option"
  env_first_sender :: "uid \<Rightarrow> sender option"
  env_router :: sender
  env_senders :: "uid \<Rightarrow> (string \<times> sender) list option"
  env_session_caps :: "string \<Rightarrow> string list option"
  env_links :: "server_id list"
  env_route :: "server_id \<Rightarrow> server_id option"
  env_try_send :: "sender \<Rightarrow> send_result"
  env_join_quota :: "flood_param \<Rightarrow> bool"
  env_join_limited :: bool
  env_message_limited :: bool
  env_multiclient :: bool
  env_censored_words :: "string list"
  env_lowercase :: "string \<Rightarrow> string"
  env_is_uppercase :: "string \<Rightarrow> bool"
  env_is_alphabetic :: "string \<Rightarrow> bool"
  env_metadata_json :: "(string \<times> string) list \<Rightarrow> string option"
  env_save_ok :: bool

text \<open>\<open>str::to_lowercase\<close>: the ASCII letters here, the Unicode table from the environment.\<close>

definition to_lowercase :: "env \<Rightarrow> string \<Rightarrow> string" where
  "to_lowercase e s =
    (if list_all (\<lambda>c. byte_of c < 128) s
     then map (\<lambda>c. if 65 \<le> byte_of c \<and> byte_of c \<le> 90 then char_of (byte_of c + 32) else c) s
     else env_lowercase e s)"

section \<open>Actor state\<close>

datatype actor_state = Active | Draining

record invite_entry =
  iv_uid :: uid
  iv_set_at :: nat

record channel_actor =
  ch_name :: string
  ch_members :: "(uid \<times> member_modes) list"
  ch_user_nicks :: "(uid \<times> string) list"
  ch_senders :: "(uid \<times> sender) list"
  ch_user_caps :: "(uid \<times> string list) list"
  ch_modes :: "channel_mode list"
  ch_mode_timestamps :: "(string \<times> hybrid_timestamp) list"
  ch_topic_timestamp :: "hybrid_timestamp option"
  ch_server_id :: server_id
  ch_metadata :: "(string \<times> string) list"
  ch_topic :: "topic option"
  ch_created :: int
  ch_bans :: "list_entry list"
  ch_excepts :: "list_entry list"
  ch_invex :: "list_entry list"
  ch_quiets :: "list_entry list"
  ch_silent_members :: "uid list"
  ch_invites :: "invite_entry list"
  ch_kicked_users :: "(uid \<times> nat) list"
  ch_flood_config :: "(flood_type \<times> flood_param) list"
  ch_flood_message_limiters :: "(uid \<times> flood_param) list"
  ch_flood_join_limiter :: "flood_param option"
  ch_state :: actor_state
  ch_observer :: bool
  ch_dirty :: bool

text \<open>A rate limiter is identified with the flood parameter its quota is built from; whether it lets
  the current event pass is read from the environment.\<close>

definition MAX_INVITES_PER_CHANNEL :: nat where
  "MAX_INVITES_PER_CHANNEL = 100"

text \<open>One hour, on a clock that counts nanoseconds.\<close>

definition INVITE_TTL :: nat where
  "INVITE_TTL = 60 * 60 * 10 ^ 9"

definition request_disconnect :: "env \<Rightarrow> uid \<Rightarrow> string \<Rightarrow> effect list" where
  "request_disconnect e uid reason = (if env_matrix e then [Disconnect uid reason] else [])"

text \<open>The actor \<open>spawn_with_capacity\<close> starts its task with; the tables passed as initial values have
  no duplicates.\<close>

definition spawn ::
  "env \<Rightarrow> string \<Rightarrow> topic option \<Rightarrow> channel_mode list option \<Rightarrow> (string \<times> string) list option \<Rightarrow>
    int option \<Rightarrow> bool \<Rightarrow> channel_actor" where
  "spawn e name initial_topic initial_modes initial_metadata created_at observer =
    \<lparr>ch_name = name, ch_members = [], ch_user_nicks = [], ch_senders = [], ch_user_caps = [],
     ch_modes = (case initial_modes of Some m \<Rightarrow> m | None \<Rightarrow> [MNoExternal, MTopicLock]),
     ch_mode_timestamps = [], ch_topic_timestamp = None,
     ch_server_id = (if env_matrix e then env_server_id e else ServerId ''000''),
     ch_metadata = (case initial_metadata of Some m \<Rightarrow> m | None \<Rightarrow> []),
     ch_topic = initial_topic,
     ch_created = (case created_at of Some t \<Rightarrow> t | None \<Rightarrow> env_millis e div 1000),
     ch_bans = [], ch_excepts = [], ch_invex = [], ch_quiets = [], ch_silent_members = [],
     ch_invites = [], ch_kicked_users = [], ch_flood_config = [], ch_flood_message_limiters = [],
     ch_flood_join_limiter = None, ch_state = Active, ch_observer = observer, ch_dirty = False\<rparr>"

section \<open>Invitations\<close>

definition prune_invites :: "env \<Rightarrow> channel_actor \<Rightarrow> channel_actor" where
  "prune_invites e a =
    a\<lparr>ch_invites := dropWhile (\<lambda>i. env_instant e - iv_set_at i > INVITE_TTL) (ch_invites a)\<rparr>"

definition add_invite :: "env \<Rightarrow> uid \<Rightarrow> channel_actor \<Rightarrow> channel_actor" where
  "add_invite e uid a =
    (let a = prune_invites e a in
     if list_ex (\<lambda>i. iv_uid i = uid) (ch_invites a) then a
     else let invites = ch_invites a @ [\<lparr>iv_uid = uid, iv_set_at = env_instant e\<rparr>]
       in a\<lparr>ch_invites := drop (length invites - MAX_INVITES_PER_CHANNEL) invites\<rparr>)"

definition remove_invite :: "uid \<Rightarrow> channel_actor \<Rightarrow> channel_actor" where
  "remove_invite uid a = a\<lparr>ch_invites := filter (\<lambda>i. iv_uid i \<noteq> uid) (ch_invites a)\<rparr>"

definition is_invited :: "env \<Rightarrow> uid \<Rightarrow> channel_actor \<Rightarrow> channel_actor \<times> bool" where
  "is_invited e uid a =
    (let a = prune_invites e a in (a, list_ex (\<lambda>i. iv_uid i = uid) (ch_invites a)))"

section \<open>Members\<close>

definition has_mode :: "channel_actor \<Rightarrow> channel_mode \<Rightarrow> bool" where
  "has_mode a m \<longleftrightarrow> m \<in> set (ch_modes a)"

definition is_member :: "channel_actor \<Rightarrow> uid \<Rightarrow> bool" where
  "is_member a uid \<longleftrightarrow> map_of (ch_members a) uid \<noteq> None"

definition member_modes_or_default :: "channel_actor \<Rightarrow> uid \<Rightarrow> member_modes" where
  "member_modes_or_default a uid = (case map_of (ch_members a) uid of Some m \<Rightarrow> m | None \<Rightarrow> default_modes)"

definition member_has_voice_or_higher :: "channel_actor \<Rightarrow> uid \<Rightarrow> bool" where
  "member_has_voice_or_higher a uid =
    (case map_of (ch_members a) uid of Some m \<Rightarrow> has_voice_or_higher m | None \<Rightarrow> False)"

definition member_has_halfop_or_higher :: "channel_actor \<Rightarrow> uid \<Rightarrow> bool" where
  "member_has_halfop_or_higher a uid =
    (case map_of (ch_members a) uid of Some m \<Rightarrow> has_halfop_or_higher m | None \<Rightarrow> False)"

text \<open>The removal of a user from the four tables, which several handlers repeat.\<close>

definition remove_member :: "uid \<Rightarrow> channel_actor \<Rightarrow> channel_actor" where
  "remove_member uid a =
    a\<lparr>ch_members := AList.delete uid (ch_members a), ch_senders := AList.delete uid (ch_senders a),
      ch_user_caps := AList.delete uid (ch_user_caps a), ch_user_nicks := AList.delete uid (ch_user_nicks a)\<rparr>"

text \<open>The timestamp \<open>HybridTimestamp::now\<close> of the matrix's server.\<close>

definition get_fallback_timestamp :: "env \<Rightarrow> hybrid_timestamp" where
  "get_fallback_timestamp e =
    ht_now (env_hash e) (env_millis e) (if env_matrix e then env_server_id e else ServerId ''000'')"

definition update_member_mode ::
  "env \<Rightarrow> uid \<Rightarrow> (member_modes \<Rightarrow> member_modes) \<Rightarrow> channel_actor \<Rightarrow> channel_actor \<times> bool" where
  "update_member_mode e uid update a =
    (case map_of (ch_members a) uid of
       None \<Rightarrow> (a, False)
     | Some member \<Rightarrow>
         let updated = update member in
         if updated \<noteq> member then
           let now = get_fallback_timestamp e;
               updated = (if mo_owner updated \<noteq> mo_owner member then updated\<lparr>mo_owner_ts := Some now\<rparr> else updated);
               updated = (if mo_admin updated \<noteq> mo_admin member then updated\<lparr>mo_admin_ts := Some now\<rparr> else updated);
               updated = (if mo_op updated \<noteq> mo_op member then updated\<lparr>mo_op_ts := Some now\<rparr> else updated);
               updated = (if mo_halfop updated \<noteq> mo_halfop member then updated\<lparr>mo_halfop_ts := Some now\<rparr> else updated);
               updated = (if mo_voice updated \<noteq> mo_voice member then updated\<lparr>mo_voice_ts := Some now\<rparr> else updated)
           in (a\<lparr>ch_members := AList.update uid updated (ch_members a)\<rparr>, True)
         else (a, False))"

section \<open>Broadcasting\<close>

text \<open>The sender a message from \<open>prefix\<close> is attributed to between servers.\<close>

definition source_uid :: "env \<Rightarrow> msg_prefix option \<Rightarrow> uid option \<Rightarrow> string" where
  "source_uid e prefix exclude =
    (case prefix of
       Some (Nickname nick _ _) \<Rightarrow> (case env_first_uid e nick of Some u \<Rightarrow> u | None \<Rightarrow> nick)
     | Some (ServerName name) \<Rightarrow> name
     | None \<Rightarrow> (case exclude of Some u \<Rightarrow> u | None \<Rightarrow> ''unknown''))"

definition s2s_message :: "env \<Rightarrow> message \<Rightarrow> uid option \<Rightarrow> message option" where
  "s2s_message e msg exclude =
    (case msg_command msg of
       PRIVMSG target text \<Rightarrow>
         Some \<lparr>msg_tags = msg_tags msg,
               msg_prefix = Some (prefix_new_from_str (source_uid e (msg_prefix msg) exclude)),
               msg_command = PRIVMSG target text\<rparr>
     | NOTICE target text \<Rightarrow>
         Some \<lparr>msg_tags = msg_tags msg,
               msg_prefix = Some (prefix_new_from_str (source_uid e (msg_prefix msg) exclude)),
               msg_command = NOTICE target text\<rparr>
     | _ \<Rightarrow> None)"

definition forward_to_peers :: "env \<Rightarrow> message \<Rightarrow> uid option \<Rightarrow> effect list" where
  "forward_to_peers e msg exclude =
    (if \<not> env_matrix e then []
     else if env_links e = [] then []
     else (case s2s_message e msg exclude of
         None \<Rightarrow> []
       | Some s2s \<Rightarrow>
           let source_sid = (case exclude of
                 Some u \<Rightarrow> if length u \<ge> 3 then Some (take 3 u) else None | None \<Rightarrow> None)
           in map (\<lambda>peer. PeerSend peer s2s) (filter (\<lambda>peer. source_sid \<noteq> Some (sid_str peer)) (env_links e))))"

definition handle_broadcast :: "env \<Rightarrow> message \<Rightarrow> uid option \<Rightarrow> channel_actor \<Rightarrow> effect list" where
  "handle_broadcast e msg exclude a =
    (if env_matrix e
     then map (\<lambda>u. SendToUid u msg) (filter (\<lambda>u. exclude \<noteq> Some u) (keys (ch_members a)))
     else []) @
    forward_to_peers e msg exclude"

text \<open>The message a recipient with the given capabilities gets: the main one, the fallback or none.\<close>

definition message_for :: "message \<Rightarrow> string option \<Rightarrow> message option \<Rightarrow> string list option \<Rightarrow> message option" where
  "message_for msg required_cap fallback caps =
    (let should_send_main = (case required_cap of
           Some cap \<Rightarrow> (case caps of Some cs \<Rightarrow> cap \<in> set cs | None \<Rightarrow> False) | None \<Rightarrow> True)
     in if should_send_main then Some msg else fallback)"

text \<open>The loop over the members: the users reached and the effects.\<close>

fun broadcast_members ::
  "(uid \<Rightarrow> message option) \<Rightarrow> uid list \<Rightarrow> uid list \<Rightarrow> uid list \<times> effect list" where
  "broadcast_members pick exclude [] = ([], [])"
| "broadcast_members pick exclude (u # us) =
    (case broadcast_members pick exclude us of (delivered, effs) \<Rightarrow>
       if u \<in> set exclude then (delivered, effs)
       else (case pick u of
           Some m \<Rightarrow> (u # delivered, SendToUid u m # effs)
         | None \<Rightarrow> (delivered, effs)))"

text \<open>The users that share an account with a member, in the order they are found.\<close>

fun add_targets :: "uid list \<Rightarrow> uid list \<Rightarrow> uid list \<Rightarrow> uid list \<Rightarrow> uid list" where
  "add_targets delivered exclude [] extra = extra"
| "add_targets delivered exclude (s # ss) extra =
    add_targets delivered exclude ss
      (if s \<notin> set delivered \<and> s \<notin> set exclude \<and> s \<notin> set extra then extra @ [s] else extra)"

fun extra_targets :: "env \<Rightarrow> uid list \<Rightarrow> uid list \<Rightarrow> uid list \<Rightarrow> uid list \<Rightarrow> uid list" where
  "extra_targets e delivered exclude [] extra = extra"
| "extra_targets e delivered exclude (u # us) extra =
    extra_targets e delivered exclude us
      (case map_of (env_users e) u of
         Some user \<Rightarrow> (case ui_account user of
             Some account \<Rightarrow> add_targets delivered exclude (env_account_sessions e account) extra
           | None \<Rightarrow> extra)
       | None \<Rightarrow> extra)"

fun send_extra :: "(uid \<Rightarrow> message option) \<Rightarrow> uid list \<Rightarrow> uid list \<Rightarrow> effect list" where
  "send_extra pick delivered [] = []"
| "send_extra pick delivered (u # us) =
    (if u \<in> set delivered then send_extra pick delivered us
     else (case pick u of
         Some m \<Rightarrow> SendToUid u m # send_extra pick (u # delivered) us
       | None \<Rightarrow> send_extra pick delivered us))"

definition handle_broadcast_with_cap ::
  "env \<Rightarrow> message \<Rightarrow> uid list \<Rightarrow> string option \<Rightarrow> message option \<Rightarrow> channel_actor \<Rightarrow> effect list" where
  "handle_broadcast_with_cap e msg exclude required_cap fallback a =
    (if \<not> env_matrix e then []
     else let members = keys (ch_members a);
              pick = (\<lambda>u. message_for msg required_cap fallback (map_of (ch_user_caps a) u));
              (delivered, effs) = broadcast_members pick exclude members;
              extra = extra_targets e delivered exclude members [];
              pick_extra = (\<lambda>u. message_for msg required_cap fallback (map_option ui_caps (map_of (env_users e) u)))
       in effs @ send_extra pick_extra delivered extra)"

text \<open>The loop that sends on every member's own queue, drops the senders whose queue is full or
  closed and asks for the disconnection of the users whose queue is full.\<close>

fun send_all :: "env \<Rightarrow> (uid \<Rightarrow> message) \<Rightarrow> (uid \<times> sender) list \<Rightarrow> effect list \<times> uid list" where
  "send_all e msg [] = ([], [])"
| "send_all e msg ((uid, tx) # senders) =
    (case send_all e msg senders of (effs, failed) \<Rightarrow>
       (case env_try_send e tx of
          SendOk \<Rightarrow> (TrySend tx (msg uid) # effs, failed)
        | SendFull \<Rightarrow> (TrySend tx (msg uid) # request_disconnect e uid ''SendQ exceeded'' @ effs, uid # failed)
        | SendClosed \<Rightarrow> (TrySend tx (msg uid) # effs, uid # failed)))"

definition send_to_senders :: "env \<Rightarrow> (uid \<Rightarrow> message) \<Rightarrow> channel_actor \<Rightarrow> channel_actor \<times> effect list" where
  "send_to_senders e msg a =
    (case send_all e msg (ch_senders a) of (effs, failed) \<Rightarrow>
       (a\<lparr>ch_senders := fold AList.delete failed (ch_senders a)\<rparr>, effs))"

definition store_history :: "env \<Rightarrow> channel_actor \<Rightarrow> history_item \<Rightarrow> effect list" where
  "store_history e a item = (if env_matrix e then [StoreHistory (ch_name a) item] else [])"

section \<open>End of a channel\<close>

definition cleanup_if_empty :: "env \<Rightarrow> channel_actor \<Rightarrow> channel_actor \<times> effect list" where
  "cleanup_if_empty e a =
    (if ch_state a = Draining then (a, [])
     else if ch_members a = [] \<and> \<not> has_mode a MPermanent
     then (a\<lparr>ch_state := Draining\<rparr>,
           (if ch_observer a then [ObserverDestroy (ch_name a)] else []) @
           (if env_matrix e then [DeleteState (ch_name a), RemoveChannel (to_lowercase e (ch_name a))] else []))
     else (a, []))"

section \<open>CRDT form\<close>

definition mode_timestamp :: "channel_actor \<Rightarrow> string \<Rightarrow> hybrid_timestamp \<Rightarrow> hybrid_timestamp" where
  "mode_timestamp a c fallback_ts = (case map_of (ch_mode_timestamps a) c of Some ts \<Rightarrow> ts | None \<Rightarrow> fallback_ts)"

definition serialize_topic_to_crdt :: "channel_actor \<Rightarrow> hybrid_timestamp \<Rightarrow> channel_crdt \<Rightarrow> channel_crdt" where
  "serialize_topic_to_crdt a fallback_ts crdt =
    (case ch_topic a of
       Some topic \<Rightarrow>
         let topic_ts = (case ch_topic_timestamp a of Some ts \<Rightarrow> ts | None \<Rightarrow> fallback_ts)
         in crdt\<lparr>cc_topic := lww_update (Some \<lparr>tc_text = tp_text topic, tc_set_by = tp_set_by topic,
                    tc_set_at = tp_set_at topic\<rparr>) topic_ts (cc_topic crdt)\<rparr>
     | None \<Rightarrow> crdt)"

fun serialize_mode :: "(string \<Rightarrow> hybrid_timestamp) \<Rightarrow> channel_mode \<Rightarrow> channel_crdt \<Rightarrow> channel_crdt" where
  "serialize_mode ts MNoExternal crdt =
    crdt\<lparr>cc_modes := (cc_modes crdt)\<lparr>cm_no_external := lww_update True (ts ''n'') (cm_no_external (cc_modes crdt))\<rparr>\<rparr>"
| "serialize_mode ts MTopicLock crdt =
    crdt\<lparr>cc_modes := (cc_modes crdt)\<lparr>cm_topic_ops_only := lww_update True (ts ''t'') (cm_topic_ops_only (cc_modes crdt))\<rparr>\<rparr>"
| "serialize_mode ts MModerated crdt =
    crdt\<lparr>cc_modes := (cc_modes crdt)\<lparr>cm_moderated := lww_update True (ts ''m'') (cm_moderated (cc_modes crdt))\<rparr>\<rparr>"
| "serialize_mode ts MInviteOnly crdt =
    crdt\<lparr>cc_modes := (cc_modes crdt)\<lparr>cm_invite_only := lww_update True (ts ''i'') (cm_invite_only (cc_modes crdt))\<rparr>\<rparr>"
| "serialize_mode ts MSecret crdt =
    crdt\<lparr>cc_modes := (cc_modes crdt)\<lparr>cm_secret := lww_update True (ts ''s'') (cm_secret (cc_modes crdt))\<rparr>\<rparr>"
| "serialize_mode ts MPrivate crdt =
    crdt\<lparr>cc_modes := (cc_modes crdt)\<lparr>cm_private := lww_update True (ts ''p'') (cm_private (cc_modes crdt))\<rparr>\<rparr>"
| "serialize_mode ts MRegisteredOnly crdt =
    crdt\<lparr>cc_modes := (cc_modes crdt)\<lparr>cm_registered_only := lww_update True (ts ''R'') (cm_registered_only (cc_modes crdt))\<rparr>\<rparr>"
| "serialize_mode ts MNoColors crdt =
    crdt\<lparr>cc_modes := (cc_modes crdt)\<lparr>cm_no_colors := lww_update True (ts ''c'') (cm_no_colors (cc_modes crdt))\<rparr>\<rparr>"
| "serialize_mode ts MNoCtcp crdt =
    crdt\<lparr>cc_modes := (cc_modes crdt)\<lparr>cm_no_ctcp := lww_update True (ts ''C'') (cm_no_ctcp (cc_modes crdt))\<rparr>\<rparr>"
| "serialize_mode ts MTlsOnly crdt =
    crdt\<lparr>cc_modes := (cc_modes crdt)\<lparr>cm_ssl_only := lww_update True (ts ''z'') (cm_ssl_only (cc_modes crdt))\<rparr>\<rparr>"
| "serialize_mode ts MDelayedJoin crdt =
    crdt\<lparr>cc_modes := (cc_modes crdt)\<lparr>cm_delayed_join := lww_update True (ts ''D'') (cm_delayed_join (cc_modes crdt))\<rparr>\<rparr>"
| "serialize_mode ts MStripColors crdt =
    crdt\<lparr>cc_modes := (cc_modes crdt)\<lparr>cm_strip_colors := lww_update True (ts ''S'') (cm_strip_colors (cc_modes crdt))\<rparr>\<rparr>"
| "serialize_mode ts MAntiCaps crdt =
    crdt\<lparr>cc_modes := (cc_modes crdt)\<lparr>cm_anti_caps := lww_update True (ts ''B'') (cm_anti_caps (cc_modes crdt))\<rparr>\<rparr>"
| "serialize_mode ts MCensor crdt =
    crdt\<lparr>cc_modes := (cc_modes crdt)\<lparr>cm_censor := lww_update True (ts ''G'') (cm_censor (cc_modes crdt))\<rparr>\<rparr>"
| "serialize_mode ts (MKey k t) crdt = crdt\<lparr>cc_key := lww_update (Some k) t (cc_key crdt)\<rparr>"
| "serialize_mode ts (MLimit l t) crdt = crdt\<lparr>cc_limit := lww_update (Some (of_nat l)) t (cc_limit crdt)\<rparr>"
| "serialize_mode ts (MRedirect target t) crdt =
    crdt\<lparr>cc_modes := (cc_modes crdt)\<lparr>cm_redirect := lww_update (Some target) t (cm_redirect (cc_modes crdt))\<rparr>\<rparr>"
| "serialize_mode ts _ crdt = crdt"

definition serialize_modes_to_crdt :: "channel_actor \<Rightarrow> hybrid_timestamp \<Rightarrow> channel_crdt \<Rightarrow> channel_crdt" where
  "serialize_modes_to_crdt a fallback_ts crdt =
    fold (serialize_mode (\<lambda>c. mode_timestamp a c fallback_ts)) (ch_modes a) crdt"

definition or_ts :: "hybrid_timestamp option \<Rightarrow> hybrid_timestamp \<Rightarrow> hybrid_timestamp" where
  "or_ts t fallback_ts = (case t of Some ts \<Rightarrow> ts | None \<Rightarrow> fallback_ts)"

definition base_ts :: "env \<Rightarrow> hybrid_timestamp" where
  "base_ts e = ht_new (env_hash e) 0 0 (ServerId ''000'')"

definition serialize_member :: "env \<Rightarrow> hybrid_timestamp \<Rightarrow> uid \<times> member_modes \<Rightarrow> channel_crdt \<Rightarrow> channel_crdt" where
  "serialize_member e fallback_ts um crdt =
    (case um of (uid, modes) \<Rightarrow>
       let join_ts = (case mo_join_time modes of
             Some join_time \<Rightarrow> ht_new (env_hash e) (wrap_i64 (join_time * 1000)) 0 (ServerId ''000'')
           | None \<Rightarrow> base_ts e);
           members = ms_join (env_millis e div 1000) uid join_ts (cc_members crdt)
       in crdt\<lparr>cc_members := ms_get_modes_mut uid (\<lambda>m.
            m\<lparr>mm_op := lww_update (mo_op modes) (or_ts (mo_op_ts modes) fallback_ts) (mm_op m),
              mm_voice := lww_update (mo_voice modes) (or_ts (mo_voice_ts modes) fallback_ts) (mm_voice m),
              mm_halfop := lww_update (mo_halfop modes) (or_ts (mo_halfop_ts modes) fallback_ts) (mm_halfop m),
              mm_admin := lww_update (mo_admin modes) (or_ts (mo_admin_ts modes) fallback_ts) (mm_admin m),
              mm_owner := lww_update (mo_owner modes) (or_ts (mo_owner_ts modes) fallback_ts) (mm_owner m)\<rparr>) members\<rparr>)"

definition serialize_members_to_crdt :: "env \<Rightarrow> channel_actor \<Rightarrow> hybrid_timestamp \<Rightarrow> channel_crdt \<Rightarrow> channel_crdt" where
  "serialize_members_to_crdt e a fallback_ts crdt = fold (serialize_member e fallback_ts) (ch_members a) crdt"

definition entry_to_crdt :: "list_entry \<Rightarrow> list_entry_crdt" where
  "entry_to_crdt x = ListEntryCrdt (en_mask x) (en_set_by x) (en_set_at x)"

definition serialize_lists_to_crdt :: "channel_actor \<Rightarrow> hybrid_timestamp \<Rightarrow> channel_crdt \<Rightarrow> channel_crdt" where
  "serialize_lists_to_crdt a fallback_ts crdt =
    crdt\<lparr>cc_bans := fold (\<lambda>x. aw_add (entry_to_crdt x) fallback_ts) (ch_bans a) (cc_bans crdt),
         cc_excepts := fold (\<lambda>x. aw_add (entry_to_crdt x) fallback_ts) (ch_excepts a) (cc_excepts crdt),
         cc_invites := fold (\<lambda>x. aw_add (entry_to_crdt x) fallback_ts) (ch_invex a) (cc_invites crdt)\<rparr>"

definition to_crdt :: "env \<Rightarrow> channel_actor \<Rightarrow> channel_crdt" where
  "to_crdt e a =
    (let fallback_ts = get_fallback_timestamp e;
         crdt = cc_new (ch_name a) (base_ts e);
         crdt = serialize_topic_to_crdt a fallback_ts crdt;
         crdt = serialize_modes_to_crdt a fallback_ts crdt;
         crdt = serialize_members_to_crdt e a fallback_ts crdt
     in serialize_lists_to_crdt a fallback_ts crdt)"

definition notify_observer :: "env \<Rightarrow> server_id option \<Rightarrow> channel_actor \<Rightarrow> effect list" where
  "notify_observer e source a = (if ch_observer a then [ObserverUpdate (to_crdt e a) source] else [])"

end
