(* ===== verification/Actor_Invariant.thy ===== *)
theory Actor_Invariant
  imports Actor_Base
begin

text \<open>
  The invariant of the channel actor's state and the lemmas that the table, mode and invitation
  operations keep it; the handler theories build their preservation lemmas on these.
\<close>

section \<open>Invariant\<close>

text \<open>The tables of senders, nicknames and capabilities have no user that is not a member.\<close>

definition tables_ok ::
  "(uid \<times> member_modes) list \<Rightarrow> (uid \<times> sender) list \<Rightarrow> (uid \<times> string) list \<Rightarrow> (uid \<times> string list) list \<Rightarrow> bool" where
  "tables_ok members senders nicks caps \<longleftrightarrow>
    distinct (keys members) \<and> distinct (keys senders) \<and> distinct (keys nicks) \<and> distinct (keys caps) \<and>
    dom (map_of senders) \<subseteq> dom (map_of members) \<and> dom (map_of nicks) \<subseteq> dom (map_of members) \<and>
    dom (map_of caps) \<subseteq> dom (map_of members)"

definition invites_ok :: "invite_entry list \<Rightarrow> bool" where
  "invites_ok invites \<longleftrightarrow> length invites \<le> MAX_INVITES_PER_CHANNEL \<and> distinct (map iv_uid invites)"

text \<open>At most one mode of each kind that takes a parameter.\<close>

fun mode_kind :: "channel_mode \<Rightarrow> char option" where
  "mode_kind (MKey _ _) = Some CHR ''k''"
| "mode_kind (MLimit _ _) = Some CHR ''l''"
| "mode_kind (MJoinForward _ _) = Some CHR ''F''"
| "mode_kind (MFlood _ _) = Some CHR ''f''"
| "mode_kind (MRedirect _ _) = Some CHR ''L''"
| "mode_kind _ = None"

definition modes_ok :: "channel_mode list \<Rightarrow> bool" where
  "modes_ok modes \<longleftrightarrow> distinct modes \<and> inj_on mode_kind {m \<in> set modes. mode_kind m \<noteq> None}"

definition metadata_ok :: "(string \<times> string) list \<Rightarrow> bool" where
  "metadata_ok metadata \<longleftrightarrow> distinct (keys metadata) \<and> length metadata \<le> 100"

definition actor_wf :: "channel_actor \<Rightarrow> bool" where
  "actor_wf a \<longleftrightarrow>
    tables_ok (ch_members a) (ch_senders a) (ch_user_nicks a) (ch_user_caps a) \<and>
    invites_ok (ch_invites a) \<and> modes_ok (ch_modes a) \<and> metadata_ok (ch_metadata a)"

section \<open>Lemmas on the invariant\<close>

lemma distinct_keys_update [simp]: "distinct (keys (AList.update k v al)) = distinct (keys al)"
  by (simp add: update_keys)

lemma distinct_keys_delete [simp]: "distinct (keys al) \<Longrightarrow> distinct (keys (AList.delete k al))"
  by (rule distinct_delete)

lemma map_of_delete_fold: "map_of (fold AList.delete ks al) = (map_of al) |` (- set ks)"
proof (induction ks arbitrary: al)
  case (Cons k ks)
  then show ?case by (auto simp: hash_simps restrict_map_def fun_eq_iff)
qed (simp add: restrict_map_def)

lemma distinct_keys_delete_fold: "distinct (keys al) \<Longrightarrow> distinct (keys (fold AList.delete ks al))"
  by (induction ks arbitrary: al) simp_all

lemma tables_ok_remove [inv_intros]:
  "tables_ok ms ss ns cs \<Longrightarrow>
    tables_ok (AList.delete u ms) (AList.delete u ss) (AList.delete u ns) (AList.delete u cs)"
  by (auto simp: tables_ok_def hash_simps)

lemma tables_ok_insert [inv_intros]:
  "tables_ok ms ss ns cs \<Longrightarrow>
    tables_ok (AList.update u m ms) (AList.update u s ss) (AList.update u n ns) (AList.update u c cs)"
  by (auto simp: tables_ok_def hash_simps)

lemma tables_ok_member [inv_intros]:
  "tables_ok ms ss ns cs \<Longrightarrow> tables_ok (AList.update u m ms) ss ns cs"
  by (auto simp: tables_ok_def hash_simps)

lemma tables_ok_delete_senders [inv_intros]:
  "tables_ok ms ss ns cs \<Longrightarrow> tables_ok ms (fold AList.delete us ss) ns cs"
  by (auto simp: tables_ok_def map_of_delete_fold distinct_keys_delete_fold)

lemma tables_ok_sender: "u \<in> dom (map_of ms) \<Longrightarrow> tables_ok ms ss ns cs \<Longrightarrow> tables_ok ms (AList.update u s ss) ns cs"
  by (auto simp: tables_ok_def hash_simps)

lemma tables_ok_caps: "u \<in> dom (map_of ms) \<Longrightarrow> tables_ok ms ss ns cs \<Longrightarrow> tables_ok ms ss ns (AList.update u c cs)"
  by (auto simp: tables_ok_def hash_simps)

lemma tables_ok_nick: "u \<in> dom (map_of ns) \<Longrightarrow> tables_ok ms ss ns cs \<Longrightarrow> tables_ok ms ss (AList.update u n ns) cs"
  unfolding tables_ok_def by (simp add: hash_simps) blast

lemma modes_ok_param:
  assumes "modes_ok ms" and "\<And>x. x \<in> set ms \<Longrightarrow> mode_kind m \<noteq> None \<Longrightarrow> mode_kind x \<noteq> mode_kind m"
  shows "modes_ok (List.insert m ms)"
proof -
  have *: "{x \<in> set (List.insert m ms). mode_kind x \<noteq> None} =
      (if mode_kind m = None then {x \<in> set ms. mode_kind x \<noteq> None}
       else insert m {x \<in> set ms. mode_kind x \<noteq> None})" by auto
  show ?thesis
  proof (cases "mode_kind m")
    case None
    then show ?thesis using assms(1) * by (simp add: modes_ok_def)
  next
    case (Some k)
    then have "mode_kind m \<notin> mode_kind ` ({x \<in> set ms. mode_kind x \<noteq> None} - {m})"
      using assms(2) by force
    then show ?thesis using assms(1) Some unfolding modes_ok_def * by (simp add: inj_on_insert)
  qed
qed

lemma modes_ok_simple: "mode_kind m = None \<Longrightarrow> modes_ok ms \<Longrightarrow> modes_ok (List.insert m ms)"
  by (rule modes_ok_param) simp_all

lemma modes_ok_filter [inv_intros]: "modes_ok ms \<Longrightarrow> modes_ok (filter P ms)"
  unfolding modes_ok_def by (auto intro: inj_on_subset)

lemma modes_ok_removeAll [inv_intros]: "modes_ok ms \<Longrightarrow> modes_ok (removeAll m ms)"
  by (simp add: modes_ok_filter removeAll_filter_not_eq)

lemma invites_ok_dropWhile [inv_intros]: "invites_ok ivs \<Longrightarrow> invites_ok (dropWhile P ivs)"
proof -
  have "length (dropWhile P ivs) \<le> length ivs" by (rule length_dropWhile_le)
  moreover have "distinct (map iv_uid ivs) \<Longrightarrow> distinct (map iv_uid (dropWhile P ivs))"
    by (metis distinct_drop drop_map dropWhile_eq_drop)
  ultimately show "invites_ok ivs \<Longrightarrow> invites_ok (dropWhile P ivs)" by (simp add: invites_ok_def)
qed

lemma invites_ok_filter [inv_intros]: "invites_ok ivs \<Longrightarrow> invites_ok (filter P ivs)"
  by (auto simp: invites_ok_def distinct_map_filter intro: le_trans [OF length_filter_le])

lemma invites_ok_push:
  assumes "invites_ok ivs" "\<forall>i \<in> set ivs. iv_uid i \<noteq> iv_uid x"
  shows "invites_ok (drop (length (ivs @ [x]) - MAX_INVITES_PER_CHANNEL) (ivs @ [x]))"
proof -
  have "distinct (map iv_uid (ivs @ [x]))" using assms by (auto simp: invites_ok_def)
  then have "distinct (map iv_uid (drop n (ivs @ [x])))" for n
    unfolding drop_map [symmetric] by (rule distinct_drop)
  then show ?thesis by (simp only: invites_ok_def length_drop) simp
qed

section \<open>The primitive operations\<close>

named_theorems actor_frame

lemma actor_wf_frame [simp]:
  "actor_wf (a\<lparr>ch_kicked_users := k\<rparr>) = actor_wf a" "actor_wf (a\<lparr>ch_topic := t\<rparr>) = actor_wf a"
  "actor_wf (a\<lparr>ch_topic_timestamp := ts\<rparr>) = actor_wf a" "actor_wf (a\<lparr>ch_dirty := d\<rparr>) = actor_wf a"
  "actor_wf (a\<lparr>ch_silent_members := s\<rparr>) = actor_wf a" "actor_wf (a\<lparr>ch_bans := l\<rparr>) = actor_wf a"
  "actor_wf (a\<lparr>ch_excepts := l\<rparr>) = actor_wf a" "actor_wf (a\<lparr>ch_invex := l\<rparr>) = actor_wf a"
  "actor_wf (a\<lparr>ch_quiets := l\<rparr>) = actor_wf a" "actor_wf (a\<lparr>ch_mode_timestamps := mts\<rparr>) = actor_wf a"
  "actor_wf (a\<lparr>ch_flood_config := fc\<rparr>) = actor_wf a" "actor_wf (a\<lparr>ch_flood_message_limiters := fl\<rparr>) = actor_wf a"
  "actor_wf (a\<lparr>ch_flood_join_limiter := fj\<rparr>) = actor_wf a" "actor_wf (a\<lparr>ch_created := c\<rparr>) = actor_wf a"
  "actor_wf (a\<lparr>ch_state := st\<rparr>) = actor_wf a"
  by (simp_all add: actor_wf_def)

lemma actor_wf_modes: "actor_wf a \<Longrightarrow> modes_ok ms \<Longrightarrow> actor_wf (a\<lparr>ch_modes := ms\<rparr>)"
  by (simp add: actor_wf_def)

lemma actor_wf_modes_ok: "actor_wf a \<Longrightarrow> modes_ok (ch_modes a)"
  by (simp add: actor_wf_def)

lemma modes_ok_default [simp]: "modes_ok [MNoExternal, MTopicLock]"
  by (auto simp: modes_ok_def inj_on_def)

lemma wf_spawn:
  assumes "\<And>m. initial_modes = Some m \<Longrightarrow> modes_ok m" and "\<And>m. initial_metadata = Some m \<Longrightarrow> metadata_ok m"
  shows "actor_wf (spawn e name t initial_modes initial_metadata c obs)"
  using assms by (cases initial_modes; cases initial_metadata)
    (simp_all add: spawn_def actor_wf_def tables_ok_def invites_ok_def metadata_ok_def)

lemma wf_remove_member [inv_intros]: "actor_wf a \<Longrightarrow> actor_wf (remove_member u a)"
  by (simp add: actor_wf_def remove_member_def tables_ok_remove)

lemma send_to_senders_shape: "\<exists>us. fst (send_to_senders e msg a) = a\<lparr>ch_senders := fold AList.delete us (ch_senders a)\<rparr>"
  by (auto simp: send_to_senders_def split: prod.split)

lemma wf_send_to_senders [inv_intros]: "actor_wf a \<Longrightarrow> actor_wf (fst (send_to_senders e msg a))"
  using send_to_senders_shape [of e msg a] by (auto simp: actor_wf_def tables_ok_delete_senders)

lemma wf_cleanup_if_empty [inv_intros]: "actor_wf a \<Longrightarrow> actor_wf (fst (cleanup_if_empty e a))"
  by (auto simp: cleanup_if_empty_def actor_wf_def)

lemma wf_prune_invites [inv_intros]: "actor_wf a \<Longrightarrow> actor_wf (prune_invites e a)"
  by (simp add: prune_invites_def actor_wf_def invites_ok_dropWhile)

lemma wf_is_invited [inv_intros]: "actor_wf a \<Longrightarrow> actor_wf (fst (is_invited e u a))"
  by (simp add: is_invited_def Let_def wf_prune_invites)

lemma wf_remove_invite [inv_intros]: "actor_wf a \<Longrightarrow> actor_wf (remove_invite u a)"
  by (simp add: remove_invite_def actor_wf_def invites_ok_filter)

lemma wf_add_invite [inv_intros]:
  assumes "actor_wf a"
  shows "actor_wf (add_invite e u a)"
proof (cases "list_ex (\<lambda>i. iv_uid i = u) (ch_invites (prune_invites e a))")
  case True
  then show ?thesis using wf_prune_invites [OF assms, of e] by (simp add: add_invite_def)
next
  case False
  let ?a = "prune_invites e a" and ?x = "\<lparr>iv_uid = u, iv_set_at = env_instant e\<rparr>"
  have wf: "actor_wf ?a" by (rule wf_prune_invites [OF assms])
  then have "invites_ok (drop (length (ch_invites ?a @ [?x]) - MAX_INVITES_PER_CHANNEL) (ch_invites ?a @ [?x]))"
    using False by (intro invites_ok_push) (auto simp: actor_wf_def list_ex_iff)
  then show ?thesis using wf False by (simp add: add_invite_def Let_def actor_wf_def)
qed

lemma wf_update_member_mode [inv_intros]: "actor_wf a \<Longrightarrow> actor_wf (fst (update_member_mode e u f a))"
  by (simp add: update_member_mode_def Let_def actor_wf_def tables_ok_member split: option.split)

text \<open>The operations that leave the actor's life-cycle state alone, and those that keep the members.\<close>

lemma state_remove_member [actor_frame]: "ch_state (remove_member u a) = ch_state a"
  by (simp add: remove_member_def)

lemma state_send_to_senders [actor_frame]: "ch_state (fst (send_to_senders e msg a)) = ch_state a"
  using send_to_senders_shape [of e msg a] by auto

lemma members_send_to_senders [actor_frame]: "ch_members (fst (send_to_senders e msg a)) = ch_members a"
  using send_to_senders_shape [of e msg a] by auto

lemma modes_send_to_senders [actor_frame]: "ch_modes (fst (send_to_senders e msg a)) = ch_modes a"
  using send_to_senders_shape [of e msg a] by auto

lemma prune_invites_frame [actor_frame]:
  "ch_state (prune_invites e a) = ch_state a" "ch_members (prune_invites e a) = ch_members a"
  "ch_modes (prune_invites e a) = ch_modes a" "ch_bans (prune_invites e a) = ch_bans a"
  "ch_excepts (prune_invites e a) = ch_excepts a" "ch_invex (prune_invites e a) = ch_invex a"
  "ch_flood_join_limiter (prune_invites e a) = ch_flood_join_limiter a"
  "ch_name (prune_invites e a) = ch_name a" "ch_senders (prune_invites e a) = ch_senders a"
  by (simp_all add: prune_invites_def)

lemma add_invite_frame [actor_frame]:
  "ch_state (add_invite e u a) = ch_state a" "ch_members (add_invite e u a) = ch_members a"
  by (simp_all add: add_invite_def Let_def actor_frame)

lemma remove_invite_frame [actor_frame]:
  "ch_state (remove_invite u a) = ch_state a" "ch_members (remove_invite u a) = ch_members a"
  "ch_modes (remove_invite u a) = ch_modes a"
  by (simp_all add: remove_invite_def)

lemma state_update_member_mode [actor_frame]: "ch_state (fst (update_member_mode e u f a)) = ch_state a"
  by (simp add: update_member_mode_def Let_def split: option.split)

lemma keys_alist_update: "map_of al k = Some v0 \<Longrightarrow> keys (AList.update k v al) = keys al"
  using map_of_Some_key [of al k v0] by (simp add: update_keys)

lemma keys_update_member_mode [actor_frame]: "keys (ch_members (fst (update_member_mode e u f a))) = keys (ch_members a)"
  by (simp add: update_member_mode_def Let_def keys_alist_update split: option.split)

lemma cleanup_draining: "ch_state a = Draining \<Longrightarrow> cleanup_if_empty e a = (a, [])"
  by (simp add: cleanup_if_empty_def)

lemma cleanup_frame [actor_frame]: "ch_members (fst (cleanup_if_empty e a)) = ch_members a"
  by (simp add: cleanup_if_empty_def)

lemma cleanup_state:
  "ch_state (fst (cleanup_if_empty e a)) =
    (if ch_state a = Draining \<or> (ch_members a = [] \<and> \<not> has_mode a MPermanent) then Draining else Active)"
  by (cases "ch_state a") (simp_all add: cleanup_if_empty_def)

text \<open>A user is in none of the tables of an actor in good order once removed.\<close>

definition absent :: "uid \<Rightarrow> channel_actor \<Rightarrow> bool" where
  "absent u a \<longleftrightarrow> map_of (ch_members a) u = None \<and> map_of (ch_senders a) u = None \<and>
    map_of (ch_user_nicks a) u = None \<and> map_of (ch_user_caps a) u = None"

lemma absent_remove_member: "absent u (remove_member u a)"
  by (simp add: absent_def remove_member_def hash_simps)

lemma absent_iff_not_member: "actor_wf a \<Longrightarrow> absent u a \<longleftrightarrow> \<not> is_member a u"
proof -
  have *: "m k = None \<longleftrightarrow> k \<notin> dom m" for m :: "'x \<rightharpoonup> 'y" and k by auto
  show "actor_wf a \<Longrightarrow> absent u a \<longleftrightarrow> \<not> is_member a u"
    unfolding actor_wf_def tables_ok_def absent_def is_member_def * by blast
qed

lemma remove_member_others: "u \<noteq> v \<Longrightarrow> map_of (ch_members (remove_member u a)) v = map_of (ch_members a) v"
  by (simp add: remove_member_def hash_simps)

end
