(* ===== verification/Actor_Handlers.thy ===== *)
theory Actor_Handlers
  imports Actor_Invariant
begin

text \<open>
  The membership handlers of the channel actor: \<open>handlers/join.rs\<close>, \<open>part_quit.rs\<close>, \<open>kick.rs\<close>,
  \<open>topic.rs\<close>, \<open>invite_knock.rs\<close> and \<open>metadata.rs\<close>.  A parameter struct is a record; an optional
  capability token, whose content no handler looks at, is the boolean \<open>cap.is_some()\<close>.
\<close>

section \<open>Parameters\<close>

record join_params =
  jp_uid :: uid
  jp_nick :: string
  jp_sender :: sender
  jp_caps :: "string list"
  jp_user_context :: user_context
  jp_key :: "string option"
  jp_initial_modes :: "member_modes option"
  jp_join_msg_extended :: message
  jp_join_msg_standard :: message
  jp_session_id :: string
  jp_nanotime :: int

record join_success_data =
  js_topic :: "topic option"
  js_channel_name :: string
  js_is_secret :: bool

record kick_params =
  kp_sender_uid :: uid
  kp_sender_prefix :: msg_prefix
  kp_target_uid :: uid
  kp_target_nick :: string
  kp_reason :: string
  kp_force :: bool
  kp_cap :: bool
  kp_nanotime :: int

record topic_params =
  tpp_sender_uid :: uid
  tpp_sender_prefix :: msg_prefix
  tpp_topic :: string
  tpp_msgid :: string
  tpp_timestamp :: string
  tpp_force :: bool
  tpp_cap :: bool
  tpp_nanotime :: int

record invite_params =
  ip_sender_uid :: uid
  ip_sender_prefix :: msg_prefix
  ip_target_uid :: uid
  ip_target_nick :: string
  ip_force :: bool
  ip_cap :: bool

datatype metadata_command = MetadataGet string | MetadataSet string "string option" | MetadataList

section \<open>JOIN\<close>

definition session_valid :: "env \<Rightarrow> uid \<Rightarrow> string \<Rightarrow> bool" where
  "session_valid e uid session_id =
    (if env_matrix e then
       (case map_of (env_users e) uid of Some user \<Rightarrow> ui_session_id user = session_id | None \<Rightarrow> False)
     else False)"

text \<open>The loop over the modes that enforces \<open>+l\<close>, with the inner loop for \<open>+L\<close>.\<close>

fun find_redirect :: "channel_mode list \<Rightarrow> string option" where
  "find_redirect [] = None"
| "find_redirect (MRedirect target _ # ms) = Some target"
| "find_redirect (_ # ms) = find_redirect ms"

fun limit_error :: "nat \<Rightarrow> channel_mode list \<Rightarrow> channel_mode list \<Rightarrow> channel_error option" where
  "limit_error count all [] = None"
| "limit_error count all (MLimit limit _ # ms) =
    (if count \<ge> limit
     then Some (case find_redirect all of Some target \<Rightarrow> Redirect target | None \<Rightarrow> ChannelIsFull)
     else limit_error count all ms)"
| "limit_error count all (_ # ms) = limit_error count all ms"

text \<open>The loop over the modes that enforces \<open>+k\<close>: the keys differ from what was provided.\<close>

fun bad_key :: "string option \<Rightarrow> channel_mode list \<Rightarrow> bool" where
  "bad_key arg [] = False"
| "bad_key arg (MKey key _ # ms) =
    (if (case arg of Some k \<Rightarrow> k | None \<Rightarrow> []) \<noteq> key then True else bad_key arg ms)"
| "bad_key arg (_ # ms) = bad_key arg ms"

definition privileged :: "member_modes \<Rightarrow> bool" where
  "privileged m \<longleftrightarrow> mo_voice m \<or> mo_halfop m \<or> mo_op m \<or> mo_admin m \<or> mo_owner m"

text \<open>The checks up to the key, which leave the state alone.\<close>

definition join_checks :: "env \<Rightarrow> join_params \<Rightarrow> channel_actor \<Rightarrow> bool \<Rightarrow> channel_error option" where
  "join_checks e p a invited =
    (let ctx = jp_user_context p;
         user_mask = create_user_mask ctx;
         is_invex = list_ex (\<lambda>i. matches_ban_or_except (en_mask i) user_mask ctx) (ch_invex a)
     in if \<not> is_invex \<and> \<not> invited \<and> is_banned user_mask ctx (ch_bans a) (ch_excepts a) then Some BannedFromChan
        else if has_mode a MInviteOnly \<and> \<not> invited \<and> \<not> is_invex then Some InviteOnlyChan
        else (case limit_error (length (ch_members a)) (ch_modes a) (ch_modes a) of
            Some err \<Rightarrow> Some err
          | None \<Rightarrow> if bad_key (jp_key p) (ch_modes a) then Some BadChannelKey else None))"

text \<open>The checks after the flood check.\<close>

definition join_late_checks :: "join_params \<Rightarrow> channel_actor \<Rightarrow> channel_error option" where
  "join_late_checks p a =
    (let ctx = jp_user_context p in
     if has_mode a MRegisteredOnly \<and> \<not> ctx_is_registered ctx then Some NeedReggedNick
     else if has_mode a MTlsOnly \<and> \<not> ctx_is_tls ctx then Some SecureOnlyChan
     else if has_mode a MOperOnly \<and> \<not> ctx_is_oper ctx then Some OperOnlyChan
     else if has_mode a MAdminOnly \<and> ctx_oper_type ctx \<noteq> Some ''admin'' then Some AdminOnlyChan
     else None)"

text \<open>A join over the limit of \<open>+f\<close> locks the channel; the reply channel is dropped.\<close>

definition join_flood :: "env \<Rightarrow> channel_actor \<Rightarrow> channel_actor \<times> effect list" where
  "join_flood e a =
    (if \<not> has_mode a MInviteOnly then
       let a = a\<lparr>ch_modes := List.insert MInviteOnly (ch_modes a),
                 ch_mode_timestamps := AList.update ''i'' (get_fallback_timestamp e) (ch_mode_timestamps a),
                 ch_dirty := True\<rparr>
       in (a, handle_broadcast e \<lparr>msg_tags = None, msg_prefix = Some (ServerName ''flood-protection''),
             msg_command = RawCommand ''MODE'' [ch_name a, ''+i'']\<rparr> None a)
     else (a, []))"

definition joined_modes :: "join_params \<Rightarrow> channel_actor \<Rightarrow> member_modes" where
  "joined_modes p a =
    (case map_of (ch_members a) (jp_uid p) of
       Some existing \<Rightarrow> existing
     | None \<Rightarrow>
         if ch_members a = [] then default_modes\<lparr>mo_op := True\<rparr>
         else (case jp_initial_modes p of Some m \<Rightarrow> m | None \<Rightarrow> default_modes))"

definition join_insert :: "join_params \<Rightarrow> channel_actor \<Rightarrow> channel_actor" where
  "join_insert p a =
    (let a = remove_invite (jp_uid p) a in
     a\<lparr>ch_members := AList.update (jp_uid p) (joined_modes p a) (ch_members a),
       ch_user_nicks := AList.update (jp_uid p) (jp_nick p) (ch_user_nicks a),
       ch_senders := AList.update (jp_uid p) (jp_sender p) (ch_senders a),
       ch_user_caps := AList.update (jp_uid p) (jp_caps p) (ch_user_caps a)\<rparr>)"

definition join_exclude :: "join_params \<Rightarrow> channel_actor \<Rightarrow> uid list" where
  "join_exclude p a =
    (let joiner_privileged = (case map_of (ch_members a) (jp_uid p) of Some m \<Rightarrow> privileged m | None \<Rightarrow> False)
     in jp_uid p #
        (if has_mode a MAuditorium \<and> \<not> joiner_privileged
         then map fst (filter (\<lambda>(u, m). \<not> privileged m \<and> u \<noteq> jp_uid p) (ch_members a))
         else []))"

text \<open>The announcement, or with \<open>+D\<close> the note that the member is silent.\<close>

definition join_announce :: "env \<Rightarrow> join_params \<Rightarrow> channel_actor \<Rightarrow> channel_actor \<times> effect list" where
  "join_announce e p a =
    (if \<not> has_mode a MDelayedJoin then
       (a, handle_broadcast_with_cap e (jp_join_msg_extended p) (join_exclude p a)
             (Some ''extended-join'') (Some (jp_join_msg_standard p)) a @
           store_history e a (HistoryEvent
             (case tag_value (jp_join_msg_extended p) ''msgid'' of Some v \<Rightarrow> v | None \<Rightarrow> env_uuid e)
             (jp_nanotime p)
             (jp_nick p @ ''!'' @ ctx_username (jp_user_context p) @ ''@'' @ ctx_hostname (jp_user_context p))
             EkJoin))
     else (a\<lparr>ch_silent_members := List.insert (jp_uid p) (ch_silent_members a)\<rparr>, []))"

definition handle_join ::
  "env \<Rightarrow> join_params \<Rightarrow> channel_actor \<Rightarrow>
    channel_actor \<times> effect list \<times> (channel_error + join_success_data) option" where
  "handle_join e p a =
    (if ch_state a = Draining then (a, [], Some (Inl ChannelTombstone))
     else if \<not> session_valid e (jp_uid p) (jp_session_id p) then (a, [], Some (Inl SessionInvalid))
     else (case is_invited e (jp_uid p) a of (a, invited) \<Rightarrow>
       (case join_checks e p a invited of
          Some err \<Rightarrow> (a, [], Some (Inl err))
        | None \<Rightarrow>
            if ch_flood_join_limiter a \<noteq> None \<and> env_join_limited e
            then (case join_flood e a of (a, effs) \<Rightarrow> (a, effs, None))
            else (case join_late_checks p a of
                Some err \<Rightarrow> (a, [], Some (Inl err))
              | None \<Rightarrow>
                  (case join_announce e p (join_insert p a) of (a, effs) \<Rightarrow>
                     (a, effs @ notify_observer e None a,
                      Some (Inr \<lparr>js_topic = ch_topic a, js_channel_name = ch_name a,
                                 js_is_secret = has_mode a MSecret\<rparr>)))))))"

section \<open>PART and QUIT\<close>

text \<open>The members that do not see an unprivileged user leave a \<open>+u\<close> channel.\<close>

definition leave_exclude :: "(uid \<Rightarrow> bool) \<Rightarrow> uid \<Rightarrow> channel_actor \<Rightarrow> uid list" where
  "leave_exclude keep uid a =
    (let leaver_privileged = (case map_of (ch_members a) uid of Some m \<Rightarrow> privileged m | None \<Rightarrow> False)
     in if has_mode a MAuditorium \<and> \<not> leaver_privileged
        then map fst (filter (\<lambda>(u, m). \<not> privileged m \<and> \<not> keep u) (ch_members a)) else [])"

definition handle_part ::
  "env \<Rightarrow> uid \<Rightarrow> string option \<Rightarrow> msg_prefix \<Rightarrow> int \<Rightarrow> channel_actor \<Rightarrow>
    channel_actor \<times> effect list \<times> (channel_error + nat) option" where
  "handle_part e uid reason prefix nanotime a =
    (if \<not> is_member a uid then (a, [], Some (Inl NotOnChannel))
     else let part_msg = \<lparr>msg_tags = None, msg_prefix = Some prefix, msg_command = PART (ch_name a) reason\<rparr>;
              effs1 = handle_broadcast_with_cap e part_msg (leave_exclude (\<lambda>u. u = uid) uid a) None None a;
              effs2 = store_history e a (HistoryEvent (env_uuid e) nanotime (prefix_display prefix) (EkPart reason));
              a = remove_member uid a;
              effs3 = notify_observer e None a;
              remaining = length (ch_members a)
       in (case cleanup_if_empty e a of (a, effs4) \<Rightarrow>
            (a, effs1 @ effs2 @ effs3 @ effs4, Some (Inr remaining))))"

definition handle_quit ::
  "env \<Rightarrow> uid \<Rightarrow> message \<Rightarrow> bool \<Rightarrow> channel_actor \<Rightarrow> channel_actor \<times> effect list \<times> nat option" where
  "handle_quit e uid quit_msg has_reply a =
    (let (a, effs) =
       (if is_member a uid then
          let effs1 = handle_broadcast_with_cap e quit_msg (leave_exclude (\<lambda>_. False) uid a) None None a;
              source = (case msg_prefix quit_msg of
                Some p \<Rightarrow> prefix_display p | None \<Rightarrow> uid @ ''!unknown@unknown'');
              reason = (case msg_command quit_msg of QUIT r \<Rightarrow> r | _ \<Rightarrow> None);
              effs2 = store_history e a (HistoryEvent (env_uuid e)
                (case env_nanos e of Some n \<Rightarrow> n | None \<Rightarrow> 0) source (EkQuit reason));
              a = remove_member uid a
          in (a, effs1 @ effs2 @ notify_observer e None a)
        else (a, []));
         remaining = length (ch_members a)
     in (case cleanup_if_empty e a of (a, effs2) \<Rightarrow>
          (a, effs @ effs2, if has_reply then Some remaining else None)))"

section \<open>KICK\<close>

definition handle_kick ::
  "env \<Rightarrow> kick_params \<Rightarrow> channel_actor \<Rightarrow> channel_actor \<times> effect list \<times> (channel_error + unit) option" where
  "handle_kick e p a =
    (let authorized = kp_force p \<or> kp_cap p;
         sender_modes = member_modes_or_default a (kp_sender_uid p)
     in if \<not> authorized \<and> has_mode a MNoKicks then (a, [], Some (Inl NoKicksActive))
        else if \<not> authorized \<and> \<not> mo_op sender_modes \<and> \<not> mo_halfop sender_modes
        then (a, [], Some (Inl ChanOpPrivsNeeded))
        else if \<not> is_member a (kp_target_uid p) then (a, [], Some (Inl (UserNotInChannel (kp_target_nick p))))
        else let msg = \<lparr>msg_tags = None, msg_prefix = Some (kp_sender_prefix p),
                        msg_command = KICK (ch_name a) (kp_target_nick p) (Some (kp_reason p))\<rparr>;
                 effs1 = store_history e a (HistoryEvent (env_uuid e) (kp_nanotime p)
                   (prefix_display (kp_sender_prefix p)) (EkKick (kp_target_nick p) (Some (kp_reason p))))
          in (case send_to_senders e (\<lambda>_. msg) a of (a, effs2) \<Rightarrow>
               let a = remove_member (kp_target_uid p) a;
                   a = a\<lparr>ch_kicked_users := AList.update (kp_target_uid p) (env_instant e) (ch_kicked_users a)\<rparr>
               in (a, effs1 @ effs2 @ notify_observer e None a, Some (Inr ()))))"

section \<open>TOPIC\<close>

definition handle_set_topic ::
  "env \<Rightarrow> topic_params \<Rightarrow> channel_actor \<Rightarrow> channel_actor \<times> effect list \<times> (channel_error + unit) option" where
  "handle_set_topic e p a =
    (let authorized = tpp_force p \<or> tpp_cap p;
         sender_modes = member_modes_or_default a (tpp_sender_uid p)
     in if \<not> authorized \<and> has_mode a MTopicLock \<and> \<not> mo_op sender_modes \<and> \<not> mo_halfop sender_modes
        then (a, [], Some (Inl ChanOpPrivsNeeded))
        else let a = a\<lparr>ch_topic := Some \<lparr>tp_text = tpp_topic p, tp_set_by = prefix_display (tpp_sender_prefix p),
                                          tp_set_at = env_millis e div 1000\<rparr>,
                       ch_dirty := True,
                       ch_topic_timestamp := Some (ht_now (env_hash e) (env_millis e) (ch_server_id a))\<rparr>;
                 tags = [(''time'', Some (tpp_timestamp p)), (''msgid'', Some (tpp_msgid p))];
                 msg = \<lparr>msg_tags = Some tags, msg_prefix = Some (tpp_sender_prefix p),
                        msg_command = TOPIC (ch_name a) (Some (tpp_topic p))\<rparr>;
                 effs1 = store_history e a (HistoryEvent (tpp_msgid p) (tpp_nanotime p)
                   (prefix_display (tpp_sender_prefix p)) (EkTopic None (tpp_topic p)));
                 out_msg = (\<lambda>uid. case map_of (ch_user_caps a) uid of
                   Some caps \<Rightarrow> if ''message-tags'' \<in> set caps then msg else msg\<lparr>msg_tags := None\<rparr>
                 | None \<Rightarrow> msg\<lparr>msg_tags := None\<rparr>)
          in (case send_to_senders e out_msg a of (a, effs2) \<Rightarrow>
               (a, effs1 @ effs2 @ notify_observer e None a, Some (Inr ()))))"

section \<open>INVITE and KNOCK\<close>

definition handle_invite ::
  "env \<Rightarrow> invite_params \<Rightarrow> channel_actor \<Rightarrow> channel_actor \<times> effect list \<times> (channel_error + unit) option" where
  "handle_invite e p a =
    (let authorized = ip_force p \<or> ip_cap p;
         sender_modes = member_modes_or_default a (ip_sender_uid p)
     in if \<not> authorized \<and> has_mode a MNoInvite then (a, [], Some (Inl NoInviteActive))
        else if \<not> authorized \<and> has_mode a MInviteOnly \<and> \<not> mo_op sender_modes \<and> \<not> mo_halfop sender_modes
        then (a, [], Some (Inl ChanOpPrivsNeeded))
        else if is_member a (ip_target_uid p) then (a, [], Some (Inl (UserOnChannel (ip_target_nick p))))
        else let a = add_invite e (ip_target_uid p) a;
                 invite_msg = \<lparr>msg_tags = None, msg_prefix = Some (ip_sender_prefix p),
                               msg_command = INVITE (ip_target_nick p) (ch_name a)\<rparr>;
                 notified = filter (\<lambda>u. u \<noteq> ip_target_uid p \<and>
                   (case map_of (ch_user_caps a) u of Some caps \<Rightarrow> ''invite-notify'' \<in> set caps | None \<Rightarrow> False))
                   (keys (ch_members a))
          in (a, if env_matrix e then map (\<lambda>u. SendToUid u invite_msg) notified else [], Some (Inr ())))"

definition handle_knock ::
  "env \<Rightarrow> uid \<Rightarrow> msg_prefix \<Rightarrow> channel_actor \<Rightarrow> channel_actor \<times> effect list \<times> (channel_error + unit) option" where
  "handle_knock e sender_uid sender_prefix a =
    (if has_mode a MNoKnock then (a, [], Some (Inl CannotKnock))
     else if \<not> has_mode a MInviteOnly then (a, [], Some (Inl ChanOpen))
     else let nick = (case sender_prefix of Nickname n _ _ \<Rightarrow> n | _ \<Rightarrow> ''Unknown'') in
       if is_member a sender_uid then (a, [], Some (Inl (UserOnChannel nick)))
       else let msg = \<lparr>msg_tags = None, msg_prefix = None,
                       msg_command = NOTICE (ch_name a) (''User '' @ nick @ '' is KNOCKing on '' @ ch_name a)\<rparr>
         in (a, if env_matrix e
                then map (\<lambda>(u, _). SendToUid u msg) (filter (\<lambda>(_, m). mo_op m \<or> mo_halfop m) (ch_members a)) else [],
             Some (Inr ())))"

section \<open>Metadata\<close>

definition handle_metadata ::
  "metadata_command \<Rightarrow> channel_actor \<Rightarrow> channel_actor \<times> (channel_error + (string \<times> string) list)" where
  "handle_metadata command a =
    (case command of
       MetadataGet key \<Rightarrow>
         (a, Inr (case map_of (ch_metadata a) key of Some v \<Rightarrow> [(key, v)] | None \<Rightarrow> []))
     | MetadataSet key value \<Rightarrow>
         (case value of
            Some v \<Rightarrow>
              if length (ch_metadata a) \<ge> 100 \<and> map_of (ch_metadata a) key = None
              then (a, Inl (Generic ''Metadata limit exceeded''))
              else if length key > 100 \<or> length v > 400
              then (a, Inl (Generic ''Metadata key/value too long''))
              else (a\<lparr>ch_metadata := AList.update key v (ch_metadata a), ch_dirty := True\<rparr>, Inr [])
          | None \<Rightarrow> (a\<lparr>ch_metadata := AList.delete key (ch_metadata a), ch_dirty := True\<rparr>, Inr []))
     | MetadataList \<Rightarrow> (a, Inr (ch_metadata a)))"

section \<open>The invariant\<close>

lemma wf_join_flood [inv_intros]: "actor_wf a \<Longrightarrow> actor_wf (fst (join_flood e a))"
  by (simp add: join_flood_def Let_def actor_wf_def modes_ok_simple)

lemma wf_join_insert [inv_intros]: "actor_wf a \<Longrightarrow> actor_wf (join_insert p a)"
  using wf_remove_invite [of a "jp_uid p"] by (simp add: join_insert_def Let_def actor_wf_def tables_ok_insert)

lemma wf_join_announce [inv_intros]: "actor_wf a \<Longrightarrow> actor_wf (fst (join_announce e p a))"
  by (simp add: join_announce_def actor_wf_def)

lemma wf_handle_join [inv_intros]:
  assumes "actor_wf a"
  shows "actor_wf (fst (handle_join e p a))"
proof -
  obtain b invited where b: "is_invited e (jp_uid p) a = (b, invited)" by (cases "is_invited e (jp_uid p) a")
  have wf: "actor_wf b" using wf_is_invited [OF assms, of e "jp_uid p"] b by simp
  show ?thesis
    using assms wf wf_join_flood [OF wf, of e] wf_join_announce [OF wf_join_insert [OF wf, of p], of e p]
    by (simp add: handle_join_def b prod.case_eq_if split: option.split)
qed

lemma wf_handle_part [inv_intros]: "actor_wf a \<Longrightarrow> actor_wf (fst (handle_part e u r pre n a))"
  using wf_cleanup_if_empty [OF wf_remove_member [of a u], of e]
  by (simp add: handle_part_def Let_def prod.case_eq_if)

lemma wf_handle_quit [inv_intros]: "actor_wf a \<Longrightarrow> actor_wf (fst (handle_quit e u m r a))"
  using wf_cleanup_if_empty [OF wf_remove_member [of a u], of e] wf_cleanup_if_empty [of a e]
  by (simp add: handle_quit_def Let_def prod.case_eq_if)

lemma wf_handle_kick [inv_intros]: "actor_wf a \<Longrightarrow> actor_wf (fst (handle_kick e p a))"
  using wf_remove_member [OF wf_send_to_senders [of a], of "kp_target_uid p" e]
  by (simp add: handle_kick_def Let_def prod.case_eq_if)

lemma wf_handle_set_topic [inv_intros]: "actor_wf a \<Longrightarrow> actor_wf (fst (handle_set_topic e p a))"
  by (simp add: handle_set_topic_def Let_def prod.case_eq_if wf_send_to_senders)

lemma wf_handle_invite [inv_intros]: "actor_wf a \<Longrightarrow> actor_wf (fst (handle_invite e p a))"
  by (simp add: handle_invite_def Let_def wf_add_invite)

lemma wf_handle_knock [inv_intros]: "actor_wf a \<Longrightarrow> actor_wf (fst (handle_knock e u pre a))"
  by (simp add: handle_knock_def Let_def)

lemma length_alist_update: "length (AList.update k v al) = (if map_of al k = None then Suc (length al) else length al)"
  by (induction al) auto

lemma length_alist_delete: "length (AList.delete k al) \<le> length al"
  by (induction al) auto

lemma wf_handle_metadata [inv_intros]: "actor_wf a \<Longrightarrow> actor_wf (fst (handle_metadata c a))"
  using length_alist_delete [of _ "ch_metadata a"]
  by (auto simp: handle_metadata_def actor_wf_def metadata_ok_def length_alist_update
      intro: le_trans split: metadata_command.split option.split)

section \<open>Life cycle\<close>

lemma state_handle_join [actor_frame]: "ch_state (fst (handle_join e p a)) = ch_state a"
proof -
  obtain b invited where b: "is_invited e (jp_uid p) a = (b, invited)" by (cases "is_invited e (jp_uid p) a")
  have "ch_state b = ch_state a" using b by (auto simp: is_invited_def Let_def actor_frame)
  then show ?thesis
    by (simp add: handle_join_def b join_flood_def join_announce_def join_insert_def Let_def actor_frame
        prod.case_eq_if split: option.split)
qed

lemma drained_handle_part:
  "ch_state a = Draining \<Longrightarrow> ch_state (fst (handle_part e u r pre n a)) = Draining"
  by (simp add: handle_part_def Let_def cleanup_draining actor_frame)

lemma drained_handle_quit:
  "ch_state a = Draining \<Longrightarrow> ch_state (fst (handle_quit e u m r a)) = Draining"
  by (simp add: handle_quit_def Let_def cleanup_draining actor_frame)

lemma state_handle_kick [actor_frame]: "ch_state (fst (handle_kick e p a)) = ch_state a"
  by (simp add: handle_kick_def Let_def prod.case_eq_if actor_frame)

lemma state_handle_set_topic [actor_frame]: "ch_state (fst (handle_set_topic e p a)) = ch_state a"
  by (simp add: handle_set_topic_def Let_def prod.case_eq_if actor_frame)

lemma state_handle_invite [actor_frame]: "ch_state (fst (handle_invite e p a)) = ch_state a"
  by (simp add: handle_invite_def Let_def actor_frame)

lemma state_handle_knock [actor_frame]: "ch_state (fst (handle_knock e u pre a)) = ch_state a"
  by (simp add: handle_knock_def Let_def)

lemma state_handle_metadata [actor_frame]: "ch_state (fst (handle_metadata c a)) = ch_state a"
  by (simp add: handle_metadata_def split: metadata_command.split option.split)

end
