(* ===== verification/Actor_Message.thy ===== *)
theory Actor_Message
  imports Actor_Handlers
begin

text \<open>
  \<open>handlers/message.rs\<close>: a PRIVMSG, NOTICE or TAGMSG to the channel.  \<open>message_gate\<close> holds the
  first checks, \<open>fan_out\<close> the delivery to the members' sessions and to the other
  sessions of their accounts with its cache of built messages, \<open>s2s_effects\<close> the delivery to peer
  servers.
\<close>

section \<open>Parameters and results\<close>

record channel_message_params =
  cp_sender_uid :: uid
  cp_sender_session_id :: string
  cp_text :: string
  cp_tags :: "tag list option"
  cp_is_notice :: bool
  cp_is_tagmsg :: bool
  cp_user_context :: user_context
  cp_is_registered :: bool
  cp_is_tls :: bool
  cp_is_bot :: bool
  cp_status_prefix :: "string option"
  cp_timestamp :: "string option"
  cp_msgid :: "string option"
  cp_override_nick :: "string option"
  cp_relaymsg_sender_nick :: "string option"
  cp_nanotime :: int

datatype channel_route_result =
    Sent
  | NoSuchChannel
  | BlockedExternal
  | BlockedModerated
  | BlockedRegisteredSpeak
  | BlockedRegisteredOnly
  | BlockedCTCP
  | BlockedNotice
  | BlockedBanned
  | BlockedAntiCaps
  | BlockedCensored

section \<open>Tags\<close>

definition starts_with :: "string \<Rightarrow> string \<Rightarrow> bool" where
  "starts_with s p \<longleftrightarrow> take (length p) s = p"

definition build_echo_tags ::
  "tag list option \<Rightarrow> string \<Rightarrow> string \<Rightarrow> bool \<Rightarrow> bool \<Rightarrow> tag list option" where
  "build_echo_tags tags timestamp msgid has_message_tags has_server_time =
    (let time = (if has_server_time then [(''time'', Some timestamp)] else []);
         client = (if has_message_tags
           then (case tags of Some ts \<Rightarrow> filter (\<lambda>(k, _). starts_with k ''+'') ts | None \<Rightarrow> []) @
                [(''msgid'', Some msgid)]
           else []);
         label = (case tags of
           Some ts \<Rightarrow> (case List.find (\<lambda>(k, _). k = ''label'') ts of Some t \<Rightarrow> [t] | None \<Rightarrow> [])
         | None \<Rightarrow> []);
         echo_tags = time @ client @ label
     in if echo_tags = [] then None else Some echo_tags)"

definition has_caps :: "string list option \<Rightarrow> string \<Rightarrow> bool" where
  "has_caps caps required = (case caps of Some cs \<Rightarrow> required \<in> set cs | None \<Rightarrow> False)"

section \<open>Checks\<close>

text \<open>\<open>char::is_uppercase\<close> and \<open>char::is_alphabetic\<close>: ASCII here, the Unicode tables from the environment.\<close>

definition is_uppercase :: "env \<Rightarrow> string \<Rightarrow> bool" where
  "is_uppercase e g = (case g of [c] \<Rightarrow> 65 \<le> byte_of c \<and> byte_of c \<le> 90 | _ \<Rightarrow> env_is_uppercase e g)"

definition is_alphabetic :: "env \<Rightarrow> string \<Rightarrow> bool" where
  "is_alphabetic e g = (case g of [c] \<Rightarrow> is_ascii_alphabetic c | _ \<Rightarrow> env_is_alphabetic e g)"

text \<open>\<open>caps as f32 / total as f32 > 0.7\<close>: for counts below a million, far above what a line can
  hold, the rounded quotient exceeds the constant exactly when the fraction exceeds seven tenths.\<close>

definition too_many_caps :: "env \<Rightarrow> string \<Rightarrow> bool" where
  "too_many_caps e body \<longleftrightarrow>
    (let caps = length (filter (is_uppercase e) (rust_chars body));
         total = length (filter (is_alphabetic e) (rust_chars body))
     in total > 0 \<and> 10 * caps > 7 * total)"

definition contains_str :: "string \<Rightarrow> string \<Rightarrow> bool" where
  "contains_str s w \<longleftrightarrow> list_ex (\<lambda>i. starts_with (drop i s) w) [0..<Suc (length s)]"

definition message_gate :: "env \<Rightarrow> channel_message_params \<Rightarrow> channel_actor \<Rightarrow> channel_route_result option" where
  "message_gate e p a =
    (let uid = cp_sender_uid p in
     if has_mode a MNoExternal \<and> \<not> is_member a uid then Some BlockedExternal
     else if (has_mode a MRegistered \<or> has_mode a MRegisteredOnly) \<and> \<not> cp_is_registered p
     then Some BlockedRegisteredOnly
     else if has_mode a MTlsOnly \<and> \<not> cp_is_tls p then Some BlockedExternal
     else if has_mode a MModerated \<and> \<not> member_has_voice_or_higher a uid then Some BlockedModerated
     else if has_mode a MModeratedUnreg \<and> \<not> cp_is_registered p \<and> \<not> member_has_voice_or_higher a uid
     then Some BlockedRegisteredSpeak
     else if cp_is_notice p \<and> has_mode a MNoNotice \<and> \<not> member_has_halfop_or_higher a uid then Some BlockedNotice
     else if has_mode a MNoCtcp \<and> is_ctcp (cp_text p) \<and>
       (case ctcp_parse (cp_text p) of Some c \<Rightarrow> ctcp_knd c \<noteq> CtcpAction | None \<Rightarrow> False)
     then Some BlockedCTCP
     else if has_mode a MAntiCaps \<and> length (cp_text p) > 10 \<and> \<not> cp_is_tagmsg p \<and> too_many_caps e (cp_text p)
     then Some BlockedAntiCaps
     else if has_mode a MCensor \<and> \<not> cp_is_tagmsg p \<and> env_matrix e \<and>
       list_ex (\<lambda>w. contains_str (to_lowercase e (cp_text p)) (to_lowercase e w)) (env_censored_words e)
     then Some BlockedCensored
     else None)"

definition strip_mute :: "string \<Rightarrow> string option" where
  "strip_mute bmask = (if starts_with bmask ''m:'' then Some (drop 2 bmask) else None)"

text \<open>An \<open>m:\<close> ban matches and no exception lifts it.\<close>

definition is_muted :: "string \<Rightarrow> user_context \<Rightarrow> channel_actor \<Rightarrow> bool" where
  "is_muted user_mask ctx a \<longleftrightarrow>
    list_ex (\<lambda>ban. case strip_mute (en_mask ban) of
        Some m \<Rightarrow> matches_ban_or_except m user_mask ctx \<and>
          \<not> list_ex (\<lambda>x. matches_ban_or_except (en_mask x) user_mask ctx \<or>
              (case strip_mute (en_mask x) of Some xm \<Rightarrow> matches_ban_or_except xm user_mask ctx | None \<Rightarrow> False))
            (ch_excepts a)
      | None \<Rightarrow> False) (ch_bans a)"

definition is_quieted :: "string \<Rightarrow> user_context \<Rightarrow> channel_actor \<Rightarrow> bool" where
  "is_quieted user_mask ctx a \<longleftrightarrow>
    list_ex (\<lambda>q. matches_ban_or_except (en_mask q) user_mask ctx \<and>
        \<not> list_ex (\<lambda>x. matches_ban_or_except (en_mask x) user_mask ctx) (ch_excepts a)) (ch_quiets a)"

text \<open>The per-user limiter of \<open>+f\<close>, created on first use.\<close>

definition flood_check :: "env \<Rightarrow> uid \<Rightarrow> channel_actor \<Rightarrow> channel_actor \<times> bool" where
  "flood_check e uid a =
    (case map_of (ch_flood_config a) FloodMessage of
       Some param \<Rightarrow>
         (a\<lparr>ch_flood_message_limiters := (case map_of (ch_flood_message_limiters a) uid of
              Some _ \<Rightarrow> ch_flood_message_limiters a
            | None \<Rightarrow> AList.update uid param (ch_flood_message_limiters a))\<rparr>,
          env_message_limited e)
     | None \<Rightarrow> (a, False))"

definition flood_kick :: "env \<Rightarrow> channel_message_params \<Rightarrow> channel_actor \<Rightarrow> channel_actor \<times> effect list" where
  "flood_kick e p a =
    (let sid = sid_str (ch_server_id a);
         kick_msg = \<lparr>msg_tags = None, msg_prefix = Some (Nickname sid ''system'' sid),
                     msg_command = KICK (ch_name a) (ctx_nickname (cp_user_context p))
                       (Some ''Channel flood triggered (+f)'')\<rparr>;
         a = remove_member (cp_sender_uid p) a;
         a = a\<lparr>ch_flood_message_limiters := AList.delete (cp_sender_uid p) (ch_flood_message_limiters a)\<rparr>;
         effs = handle_broadcast e kick_msg None a
     in (case cleanup_if_empty e a of (a, effs2) \<Rightarrow> (a, effs @ effs2)))"

section \<open>Building a message for a recipient\<close>

text \<open>What the delivery needs of the message: the parameters with the text, time and id settled.\<close>

record outgoing =
  og_params :: channel_message_params
  og_text :: string
  og_timestamp :: string
  og_msgid :: string
  og_base :: message

definition settle :: "env \<Rightarrow> channel_message_params \<Rightarrow> channel_actor \<Rightarrow> outgoing" where
  "settle e p a =
    (let body = (if (has_mode a MNoColors \<or> has_mode a MStripColors) \<and> \<not> cp_is_tagmsg p
           then strip_formatting (cp_text p) else cp_text p);
         target = (case cp_status_prefix p of Some c \<Rightarrow> c @ ch_name a | None \<Rightarrow> ch_name a);
         ctx = cp_user_context p
     in \<lparr>og_params = p, og_text = body,
         og_timestamp = (case cp_timestamp p of Some t \<Rightarrow> t | None \<Rightarrow> env_time_text e),
         og_msgid = (case cp_msgid p of Some i \<Rightarrow> i | None \<Rightarrow> env_uuid e),
         og_base = \<lparr>msg_tags = cp_tags p,
           msg_prefix = Some (Nickname (case cp_override_nick p of Some n \<Rightarrow> n | None \<Rightarrow> ctx_nickname ctx)
             (ctx_username ctx) (ctx_hostname ctx)),
           msg_command = (if cp_is_tagmsg p then TAGMSG target
             else if cp_is_notice p then NOTICE target body else PRIVMSG target body)\<rparr>\<rparr>)"

definition recipient_tags :: "string \<Rightarrow> outgoing \<Rightarrow> uid \<Rightarrow> string list option \<Rightarrow> tag list" where
  "recipient_tags sid og target_uid caps =
    (let p = og_params og;
         has_message_tags = has_caps caps ''message-tags'';
         remote = target_uid \<noteq> [] \<and> \<not> starts_with target_uid sid
     in (if has_caps caps ''server-time'' then [(''time'', Some (og_timestamp og))] else []) @
        (if has_message_tags
         then (case cp_tags p of Some ts \<Rightarrow> filter (\<lambda>(k, _). starts_with k ''+'') ts | None \<Rightarrow> []) @
              [(''msgid'', Some (og_msgid og))] else []) @
        (case ctx_account (cp_user_context p) of
           Some account \<Rightarrow> if has_caps caps ''account-tag'' then [(''account'', Some account)] else []
         | None \<Rightarrow> []) @
        (case cp_relaymsg_sender_nick p of
           Some nick \<Rightarrow> if has_caps caps ''draft/relaymsg'' then [(''draft/relaymsg'', Some nick)] else []
         | None \<Rightarrow> []) @
        (if cp_is_bot p \<and> has_message_tags then [(''bot'', None)] else []) @
        (if remote then (''x-target-uid'', Some target_uid) #
           (case msg_command (og_base og) of
              PRIVMSG target _ \<Rightarrow> [(''x-visible-target'', Some target)]
            | NOTICE target _ \<Rightarrow> [(''x-visible-target'', Some target)]
            | _ \<Rightarrow> []) else []))"

definition build_msg_for_recipient :: "string \<Rightarrow> outgoing \<Rightarrow> uid \<Rightarrow> string list option \<Rightarrow> message" where
  "build_msg_for_recipient sid og target_uid caps =
    (if cp_is_tagmsg (og_params og) \<and> \<not> has_caps caps ''message-tags'' then og_base og
     else let tags = recipient_tags sid og target_uid caps
       in (og_base og)\<lparr>msg_tags := (if tags = [] then None else Some tags)\<rparr>)"

text \<open>The cache key: one bit per capability that matters.\<close>

definition memo_key :: "outgoing \<Rightarrow> string list \<Rightarrow> nat" where
  "memo_key og caps =
    of_bool (''server-time'' \<in> set caps) + 2 * of_bool (''message-tags'' \<in> set caps) +
    4 * of_bool (ctx_account (cp_user_context (og_params og)) \<noteq> None \<and> ''account-tag'' \<in> set caps) +
    8 * of_bool (cp_relaymsg_sender_nick (og_params og) \<noteq> None \<and> ''draft/relaymsg'' \<in> set caps)"

type_synonym memo = "(nat \<times> message) list"

definition build_cached_msg :: "string \<Rightarrow> outgoing \<Rightarrow> string list \<Rightarrow> memo \<Rightarrow> message \<times> memo" where
  "build_cached_msg sid og caps memo =
    (case map_of memo (memo_key og caps) of
       Some msg \<Rightarrow> (msg, memo)
     | None \<Rightarrow> let msg = build_msg_for_recipient sid og [] (Some caps)
         in (msg, AList.update (memo_key og caps) msg memo))"

section \<open>Delivery\<close>

text \<open>The state of the delivery loop: the cache, the siblings served so far, the number of messages
  sent and the effects.\<close>

record fanout =
  fo_memo :: memo
  fo_extra :: "uid list"
  fo_sent :: nat
  fo_effs :: "effect list"

definition session_caps :: "env \<Rightarrow> string \<Rightarrow> string list" where
  "session_caps e session_id = (case env_session_caps e session_id of Some cs \<Rightarrow> cs | None \<Rightarrow> [])"

fun echo_sessions :: "env \<Rightarrow> outgoing \<Rightarrow> (string \<times> sender) list \<Rightarrow> fanout \<Rightarrow> fanout" where
  "echo_sessions e og [] fo = fo"
| "echo_sessions e og ((session_id, tx) # ss) fo =
    (let caps = session_caps e session_id; p = og_params og in
     if ''echo-message'' \<notin> set caps \<and> cp_override_nick p = None then echo_sessions e og ss fo
     else if session_id \<noteq> cp_sender_session_id p then echo_sessions e og ss fo
     else let echo_msg = (og_base og)\<lparr>msg_tags := build_echo_tags (cp_tags p) (og_timestamp og) (og_msgid og)
                (''message-tags'' \<in> set caps) (''server-time'' \<in> set caps)\<rparr>
       in echo_sessions e og ss (fo\<lparr>fo_sent := fo_sent fo + 1, fo_effs := fo_effs fo @ [TrySend tx echo_msg]\<rparr>))"

text \<open>The sessions of a recipient (\<open>direct\<close> is its user id if it is remote) and whether one was served.\<close>

fun send_sessions ::
  "env \<Rightarrow> string \<Rightarrow> outgoing \<Rightarrow> uid option \<Rightarrow> (string \<times> sender) list \<Rightarrow> fanout \<Rightarrow> bool \<Rightarrow> fanout \<times> bool" where
  "send_sessions e sid og direct [] fo any_sent = (fo, any_sent)"
| "send_sessions e sid og direct ((session_id, tx) # ss) fo any_sent =
    (let caps = session_caps e session_id in
     if cp_is_tagmsg (og_params og) \<and> ''message-tags'' \<notin> set caps
     then send_sessions e sid og direct ss fo any_sent
     else (case (case direct of
              Some uid \<Rightarrow> (build_msg_for_recipient sid og uid (Some caps), fo_memo fo)
            | None \<Rightarrow> build_cached_msg sid og caps (fo_memo fo)) of (msg, memo) \<Rightarrow>
       send_sessions e sid og direct ss
         (fo\<lparr>fo_memo := memo, fo_sent := fo_sent fo + 1, fo_effs := fo_effs fo @ [TrySend tx msg]\<rparr>) True))"

definition has_status :: "string \<Rightarrow> member_modes \<Rightarrow> bool" where
  "has_status prefix m =
    (if prefix = ''~'' then mo_owner m
     else if prefix = ''&'' then mo_admin m \<or> mo_owner m
     else if prefix = ''@'' then mo_op m \<or> mo_admin m \<or> mo_owner m
     else if prefix = ''%'' then mo_halfop m \<or> mo_op m \<or> mo_admin m \<or> mo_owner m
     else if prefix = ''+'' then mo_voice m \<or> mo_halfop m \<or> mo_op m \<or> mo_admin m \<or> mo_owner m
     else False)"

fun send_siblings ::
  "env \<Rightarrow> channel_actor \<Rightarrow> outgoing \<Rightarrow> uid \<Rightarrow> string \<Rightarrow> (uid \<times> user_info) list \<Rightarrow> fanout \<Rightarrow> fanout" where
  "send_siblings e a og uid account_lower [] fo = fo"
| "send_siblings e a og uid account_lower ((sibling, info) # us) fo =
    (let sid = sid_str (ch_server_id a) in
     if sibling = uid \<or> \<not> starts_with sibling sid \<or> map_of (ch_senders a) sibling \<noteq> None \<or>
       sibling \<in> set (fo_extra fo) \<or> map_option irc_to_lower (ui_account info) \<noteq> Some account_lower
     then send_siblings e a og uid account_lower us fo
     else (case env_senders e sibling of
         None \<Rightarrow> send_siblings e a og uid account_lower us fo
       | Some sessions \<Rightarrow>
           (case send_sessions e sid og None sessions fo False of (fo, delivered_any) \<Rightarrow>
              send_siblings e a og uid account_lower us
                (if delivered_any then fo\<lparr>fo_extra := List.insert sibling (fo_extra fo)\<rparr> else fo))))"

text \<open>A member other than the sender: skipped without the status a STATUSMSG asks for.\<close>

definition recipient_wanted :: "channel_actor \<Rightarrow> channel_message_params \<Rightarrow> uid \<Rightarrow> bool" where
  "recipient_wanted a p uid =
    (case cp_status_prefix p of
       Some prefix \<Rightarrow> (case map_of (ch_members a) uid of Some m \<Rightarrow> has_status prefix m | None \<Rightarrow> False)
     | None \<Rightarrow> True)"

definition account_fan_out :: "env \<Rightarrow> channel_actor \<Rightarrow> outgoing \<Rightarrow> uid \<Rightarrow> fanout \<Rightarrow> fanout" where
  "account_fan_out e a og uid fo =
    (if env_multiclient e \<and> starts_with uid (sid_str (ch_server_id a)) \<and> uid \<notin> set (fo_extra fo) \<and> env_matrix e
     then (case map_of (env_users e) uid of
         Some user \<Rightarrow> (case ui_account user of
             Some account \<Rightarrow> send_siblings e a og uid (irc_to_lower account) (env_users e) fo
           | None \<Rightarrow> fo)
       | None \<Rightarrow> fo)
     else fo)"

definition deliver_to_member :: "env \<Rightarrow> channel_actor \<Rightarrow> outgoing \<Rightarrow> uid \<Rightarrow> fanout \<Rightarrow> fanout" where
  "deliver_to_member e a og uid fo =
    (let p = og_params og; sid = sid_str (ch_server_id a); sender_uid = cp_sender_uid p in
     if has_mode a MOpModerated \<and> \<not> member_has_voice_or_higher a sender_uid \<and>
       \<not> member_has_voice_or_higher a uid \<and> uid \<noteq> sender_uid
     then fo
     else if uid = sender_uid then
       account_fan_out e a og uid
         (if env_matrix e then (case env_senders e uid of Some ss \<Rightarrow> echo_sessions e og ss fo | None \<Rightarrow> fo) else fo)
     else if \<not> recipient_wanted a p uid then fo
     else (case (if env_matrix e then
              (case env_senders e uid of
                 Some ss \<Rightarrow> send_sessions e sid og (if starts_with uid sid then None else Some uid) ss fo False
               | None \<Rightarrow> (fo, False)) else (fo, False)) of (fo, any_sent) \<Rightarrow>
       if any_sent then account_fan_out e a og uid fo else fo))"

definition fan_out :: "env \<Rightarrow> channel_actor \<Rightarrow> outgoing \<Rightarrow> fanout" where
  "fan_out e a og =
    fold (deliver_to_member e a og) (keys (ch_members a)) \<lparr>fo_memo = [], fo_extra = [], fo_sent = 0, fo_effs = []\<rparr>"

section \<open>Peer servers\<close>

fun next_hop :: "nat \<Rightarrow> env \<Rightarrow> server_id \<Rightarrow> server_id option" where
  "next_hop 0 e current = None"
| "next_hop (Suc n) e current =
    (if current \<in> set (env_links e) then Some current
     else (case env_route e current of Some parent \<Rightarrow> next_hop n e parent | None \<Rightarrow> None))"

text \<open>The peers that lead to the remote members; \<open>None\<close> if a member's id is too short to hold a server
  id, on which the slice panics.\<close>

fun target_peers :: "env \<Rightarrow> string \<Rightarrow> string \<Rightarrow> uid list \<Rightarrow> server_id list \<Rightarrow> server_id list option" where
  "target_peers e my_sid sender_sid [] peers = Some peers"
| "target_peers e my_sid sender_sid (uid # uids) peers =
    (if starts_with uid my_sid \<or> starts_with uid sender_sid then target_peers e my_sid sender_sid uids peers
     else if length uid < 3 then None
     else target_peers e my_sid sender_sid uids
       (case next_hop 20 e (ServerId (take 3 uid)) of Some peer \<Rightarrow> List.insert peer peers | None \<Rightarrow> peers))"

definition s2s_form :: "outgoing \<Rightarrow> message" where
  "s2s_form og =
    (let p = og_params og in
     (og_base og)\<lparr>msg_prefix := Some (prefix_new_from_str (cp_sender_uid p)),
       msg_tags := Some ([(''time'', Some (og_timestamp og)), (''msgid'', Some (og_msgid og))] @
         (case ctx_account (cp_user_context p) of Some account \<Rightarrow> [(''account'', Some account)] | None \<Rightarrow> []) @
         (case cp_tags p of Some ts \<Rightarrow> filter (\<lambda>(k, _). \<not> starts_with k ''x-'') ts | None \<Rightarrow> []))\<rparr>)"

definition s2s_effects :: "env \<Rightarrow> channel_actor \<Rightarrow> outgoing \<Rightarrow> effect list option" where
  "s2s_effects e a og =
    (if \<not> env_matrix e then Some []
     else let uid = cp_sender_uid (og_params og); my_sid = sid_str (ch_server_id a);
              sender_sid = (if length uid \<ge> 3 then take 3 uid else my_sid)
       in (case target_peers e my_sid sender_sid (keys (ch_members a)) [] of
            None \<Rightarrow> None
          | Some peers \<Rightarrow> Some (map (\<lambda>peer. PeerSend peer (s2s_form og))
              (filter (\<lambda>peer. peer \<in> set (env_links e)) peers))))"

section \<open>The handler\<close>

definition message_history :: "env \<Rightarrow> channel_actor \<Rightarrow> outgoing \<Rightarrow> effect list" where
  "message_history e a og =
    (let p = og_params og; ctx = cp_user_context p in
     store_history e a (HistoryMessage
       \<lparr>sm_msgid = og_msgid og, sm_target = irc_to_lower (ch_name a), sm_sender = ctx_nickname ctx,
        sm_envelope = \<lparr>me_command = (if cp_is_tagmsg p then ''TAGMSG'' else if cp_is_notice p then ''NOTICE'' else ''PRIVMSG''),
          me_prefix = ctx_nickname ctx @ ''!'' @ ctx_username ctx @ ''@'' @ ctx_hostname ctx,
          me_target = ch_name a, me_text = og_text og, me_tags = cp_tags p\<rparr>,
        sm_nanotime = cp_nanotime p, sm_account = ctx_account ctx, sm_status_prefix = cp_status_prefix p\<rparr>))"

text \<open>With \<open>+D\<close>, the JOIN of a silent member is announced with its first message.\<close>

definition announce_silent :: "env \<Rightarrow> channel_message_params \<Rightarrow> channel_actor \<Rightarrow> channel_actor \<times> effect list" where
  "announce_silent e p a =
    (if cp_sender_uid p \<in> set (ch_silent_members a) then
       let a = a\<lparr>ch_silent_members := removeAll (cp_sender_uid p) (ch_silent_members a)\<rparr>;
           ctx = cp_user_context p;
           join_msg = \<lparr>msg_tags = None, msg_prefix = Some (Nickname (ctx_nickname ctx) (ctx_username ctx) (ctx_hostname ctx)),
                       msg_command = JOIN (ch_name a) None None\<rparr>
       in (a, handle_broadcast e join_msg (Some (cp_sender_uid p)) a)
     else (a, []))"

definition deliver_message ::
  "env \<Rightarrow> channel_message_params \<Rightarrow> channel_actor \<Rightarrow> channel_actor \<times> effect list \<times> channel_route_result option" where
  "deliver_message e p a =
    (let og = settle e p a; fo = fan_out e a og in
     case s2s_effects e a og of
       None \<Rightarrow> (a, fo_effs fo @ [Panic], None)
     | Some peer_effs \<Rightarrow>
         (case announce_silent e p a of (a, join_effs) \<Rightarrow>
            (a, fo_effs fo @ peer_effs @ join_effs @ message_history e a og, Some Sent)))"

definition handle_message ::
  "env \<Rightarrow> channel_message_params \<Rightarrow> channel_actor \<Rightarrow> channel_actor \<times> effect list \<times> channel_route_result option" where
  "handle_message e p a =
    (case message_gate e p a of
       Some r \<Rightarrow> (a, [], Some r)
     | None \<Rightarrow>
         let uid = cp_sender_uid p; ctx = cp_user_context p; user_mask = create_user_mask ctx in
         if member_has_halfop_or_higher a uid then deliver_message e p a
         else if is_banned user_mask ctx (ch_bans a) (ch_excepts a) then (a, [], Some BlockedBanned)
         else (case flood_check e uid a of (a, is_flooding) \<Rightarrow>
           if is_flooding then (case flood_kick e p a of (a, effs) \<Rightarrow> (a, effs, Some NoSuchChannel))
           else if \<not> member_has_voice_or_higher a uid \<and> is_muted user_mask ctx a then (a, [], Some BlockedBanned)
           else if is_quieted user_mask ctx a then (a, [], Some BlockedModerated)
           else deliver_message e p a))"

section \<open>The invariant and the life cycle\<close>

lemma wf_flood_check [inv_intros]: "actor_wf a \<Longrightarrow> actor_wf (fst (flood_check e u a))"
  by (simp add: flood_check_def split: option.split)

lemma wf_flood_kick [inv_intros]: "actor_wf a \<Longrightarrow> actor_wf (fst (flood_kick e p a))"
  by (simp add: flood_kick_def Let_def prod.case_eq_if wf_cleanup_if_empty wf_remove_member)

lemma wf_deliver_message [inv_intros]: "actor_wf a \<Longrightarrow> actor_wf (fst (deliver_message e p a))"
  by (simp add: deliver_message_def announce_silent_def Let_def split: option.split)

lemma wf_handle_message [inv_intros]: "actor_wf a \<Longrightarrow> actor_wf (fst (handle_message e p a))"
  using wf_flood_check [of a e "cp_sender_uid p"]
  by (simp add: handle_message_def Let_def prod.case_eq_if wf_flood_kick wf_deliver_message split: option.split)

lemma flood_check_frame [actor_frame]:
  "ch_state (fst (flood_check e u a)) = ch_state a" "ch_members (fst (flood_check e u a)) = ch_members a"
  by (simp_all add: flood_check_def split: option.split)

lemma deliver_message_frame [actor_frame]:
  "ch_state (fst (deliver_message e p a)) = ch_state a" "ch_members (fst (deliver_message e p a)) = ch_members a"
  by (simp_all add: deliver_message_def announce_silent_def Let_def split: option.split)

lemma drained_handle_message:
  "ch_state a = Draining \<Longrightarrow> ch_state (fst (handle_message e p a)) = Draining"
  by (simp add: handle_message_def Let_def prod.case_eq_if flood_kick_def actor_frame cleanup_draining
      split: option.split)

lemma no_members_handle_message:
  "ch_members a = [] \<Longrightarrow> ch_members (fst (handle_message e p a)) = []"
  by (simp add: handle_message_def Let_def prod.case_eq_if flood_kick_def actor_frame remove_member_def
      split: option.split)

end
