(* ===== verification/Actor_Modes.thy ===== *)
theory Actor_Modes
  imports Actor_Invariant "HOL-Library.List_Lexorder" "HOL-Library.Char_ord"
begin

text \<open>
  Channel mode changes: \<open>helpers/modes.rs\<close> (\<open>set_flag_mode\<close>, \<open>replace_param_mode\<close>) and
  \<open>handlers/modes.rs\<close> (\<open>handle_apply_modes\<close>, \<open>handle_clear\<close>).
\<close>

section \<open>Mode sets\<close>

definition set_flag_mode :: "env \<Rightarrow> channel_mode \<Rightarrow> bool \<Rightarrow> channel_actor \<Rightarrow> channel_actor \<times> bool" where
  "set_flag_mode e flag adding a =
    (let changed = (if adding then flag \<notin> set (ch_modes a) else flag \<in> set (ch_modes a));
         a = a\<lparr>ch_modes := (if adding then List.insert flag (ch_modes a) else removeAll flag (ch_modes a))\<rparr>
     in if changed then
          (let a = a\<lparr>ch_dirty := True\<rparr> in
           case mode_to_char flag of
             Some c \<Rightarrow> a\<lparr>ch_mode_timestamps :=
               AList.update c (ht_now (env_hash e) (env_millis e) (ch_server_id a)) (ch_mode_timestamps a)\<rparr>
           | None \<Rightarrow> a, True)
        else (a, False))"

definition replace_param_mode ::
  "(channel_mode \<Rightarrow> bool) \<Rightarrow> channel_mode option \<Rightarrow> channel_actor \<Rightarrow> channel_actor \<times> bool" where
  "replace_param_mode predicate new_mode a =
    (let changed = list_ex predicate (ch_modes a);
         modes = filter (\<lambda>m. \<not> predicate m) (ch_modes a);
         (modes, changed) = (case new_mode of
           Some m \<Rightarrow> (List.insert m modes, changed \<or> m \<notin> set modes) | None \<Rightarrow> (modes, changed));
         a = a\<lparr>ch_modes := modes\<rparr>
     in if changed then (a\<lparr>ch_dirty := True\<rparr>, True) else (a, False))"

fun is_key :: "channel_mode \<Rightarrow> bool" where
  "is_key (MKey _ _) = True"
| "is_key _ = False"

fun is_limit :: "channel_mode \<Rightarrow> bool" where
  "is_limit (MLimit _ _) = True"
| "is_limit _ = False"

fun is_join_forward :: "channel_mode \<Rightarrow> bool" where
  "is_join_forward (MJoinForward _ _) = True"
| "is_join_forward _ = False"

fun is_flood :: "channel_mode \<Rightarrow> bool" where
  "is_flood (MFlood _ _) = True"
| "is_flood _ = False"

fun is_redirect :: "channel_mode \<Rightarrow> bool" where
  "is_redirect (MRedirect _ _) = True"
| "is_redirect _ = False"

section \<open>One mode change\<close>

text \<open>\<open>parse::<usize>\<close> on a 64-bit target.\<close>

definition parse_channel_limit :: "string option \<Rightarrow> nat option" where
  "parse_channel_limit arg =
    (case arg of
       None \<Rightarrow> None
     | Some s \<Rightarrow>
         (case parse_uint (2 ^ 64 - 1) s of
            None \<Rightarrow> None
          | Some limit \<Rightarrow> if limit = 0 \<or> limit > 10000 then None else Some limit))"

text \<open>The modes the match sets as flags.\<close>

fun flag_mode :: "proto_mode \<Rightarrow> channel_mode option" where
  "flag_mode PNoExternalMessages = Some MNoExternal"
| "flag_mode PProtectedTopic = Some MTopicLock"
| "flag_mode PInviteOnly = Some MInviteOnly"
| "flag_mode PModerated = Some MModerated"
| "flag_mode PModeratedUnreg = Some MModeratedUnreg"
| "flag_mode POpModerated = Some MOpModerated"
| "flag_mode PAuditorium = Some MAuditorium"
| "flag_mode PSecret = Some MSecret"
| "flag_mode PRegisteredOnly = Some MRegisteredOnly"
| "flag_mode PNoColors = Some MNoColors"
| "flag_mode PNoCTCP = Some MNoCtcp"
| "flag_mode PNoNickChange = Some MNoNickChange"
| "flag_mode PNoKnock = Some MNoKnock"
| "flag_mode PNoInvite = Some MNoInvite"
| "flag_mode PNoChannelNotice = Some MNoNotice"
| "flag_mode PNoKick = Some MNoKicks"
| "flag_mode PPermanent = Some MPermanent"
| "flag_mode POperOnly = Some MOperOnly"
| "flag_mode PFreeInvite = Some MFreeInvite"
| "flag_mode PTlsOnly = Some MTlsOnly"
| "flag_mode PRoleplay = Some MRoleplay"
| "flag_mode PDelayedJoin = Some MDelayedJoin"
| "flag_mode PStripColors = Some MStripColors"
| "flag_mode PAntiCaps = Some MAntiCaps"
| "flag_mode PCensor = Some MCensor"
| "flag_mode _ = None"

text \<open>A mode with a text parameter: \<open>+k\<close>, \<open>+F\<close> and \<open>+L\<close> share this shape.\<close>

definition apply_text_mode ::
  "env \<Rightarrow> (channel_mode \<Rightarrow> bool) \<Rightarrow> (string \<Rightarrow> hybrid_timestamp \<Rightarrow> channel_mode) \<Rightarrow> bool \<Rightarrow> string option \<Rightarrow>
    channel_actor \<Rightarrow> channel_actor \<times> bool" where
  "apply_text_mode e predicate build adding arg a =
    (if adding then
       (case arg of
          Some v \<Rightarrow> replace_param_mode predicate
            (Some (build v (ht_now (env_hash e) (env_millis e) (ch_server_id a)))) a
        | None \<Rightarrow> (a, False))
     else replace_param_mode predicate None a)"

definition clear_flood :: "channel_actor \<Rightarrow> channel_actor" where
  "clear_flood a = a\<lparr>ch_flood_config := [], ch_flood_message_limiters := [], ch_flood_join_limiter := None\<rparr>"

definition set_flood_param :: "env \<Rightarrow> flood_param \<Rightarrow> channel_actor \<Rightarrow> channel_actor" where
  "set_flood_param e p a =
    (let a = a\<lparr>ch_flood_config := AList.update (fp_type p) p (ch_flood_config a)\<rparr> in
     case fp_type p of
       FloodMessage \<Rightarrow> a
     | FloodJoin \<Rightarrow>
         if fp_count p = 0 then a
         else if env_join_quota e p then a\<lparr>ch_flood_join_limiter := Some p\<rparr> else a)"

definition valid_flood_params :: "string \<Rightarrow> flood_param list" where
  "valid_flood_params s =
    concat (map (\<lambda>part. case flood_from_str part of Inr p \<Rightarrow> [p] | Inl _ \<Rightarrow> []) (split_on CHR '','' s))"

definition apply_flood :: "env \<Rightarrow> bool \<Rightarrow> string option \<Rightarrow> channel_actor \<Rightarrow> channel_actor \<times> bool" where
  "apply_flood e adding arg a =
    (if adding then
       (case arg of
          None \<Rightarrow> (a, False)
        | Some param_str \<Rightarrow>
            let valid_params = valid_flood_params param_str in
            if valid_params \<noteq> [] then
              let a = fold (set_flood_param e) valid_params (clear_flood a);
                  canonical = join_with '','' (sort (map (\<lambda>(_, p). flood_display p) (ch_flood_config a)))
              in replace_param_mode is_flood
                   (Some (MFlood canonical (ht_now (env_hash e) (env_millis e) (ch_server_id a)))) a
            else (a, False))
     else replace_param_mode is_flood None (clear_flood a))"

text \<open>The loop over the users a nickname stands for.\<close>

fun update_members ::
  "env \<Rightarrow> (member_modes \<Rightarrow> member_modes) \<Rightarrow> uid list \<Rightarrow> channel_actor \<Rightarrow> bool \<Rightarrow> channel_actor \<times> bool" where
  "update_members e f [] a any_changed = (a, any_changed)"
| "update_members e f (u # us) a any_changed =
    (case update_member_mode e u f a of (a, changed) \<Rightarrow> update_members e f us a (any_changed \<or> changed))"

definition apply_member_mode ::
  "env \<Rightarrow> (string \<times> uid list) list \<Rightarrow> (member_modes \<Rightarrow> member_modes) \<Rightarrow> string option \<Rightarrow> channel_actor \<Rightarrow>
    channel_actor \<times> bool" where
  "apply_member_mode e target_uids f arg a =
    (case arg of
       Some nick \<Rightarrow>
         (case map_of target_uids nick of Some uids \<Rightarrow> update_members e f uids a False | None \<Rightarrow> (a, False))
     | None \<Rightarrow> (a, False))"

definition apply_mode ::
  "env \<Rightarrow> msg_prefix \<Rightarrow> (string \<times> uid list) list \<Rightarrow> proto_mode mode \<Rightarrow> channel_actor \<Rightarrow> channel_actor \<times> bool" where
  "apply_mode e sender_prefix target_uids md a =
    (let adding = is_plus md; arg = mode_arg md; now = env_millis e div 1000; by = prefix_display sender_prefix in
     case mode_mode md of
       PBan \<Rightarrow> (case arg of
           Some bmask \<Rightarrow> (case apply_list_mode now (ch_bans a) bmask adding by of (l, c) \<Rightarrow> (a\<lparr>ch_bans := l\<rparr>, c))
         | None \<Rightarrow> (a, False))
     | PException \<Rightarrow> (case arg of
           Some bmask \<Rightarrow> (case apply_list_mode now (ch_excepts a) bmask adding by of (l, c) \<Rightarrow> (a\<lparr>ch_excepts := l\<rparr>, c))
         | None \<Rightarrow> (a, False))
     | PInviteException \<Rightarrow> (case arg of
           Some bmask \<Rightarrow> (case apply_list_mode now (ch_invex a) bmask adding by of (l, c) \<Rightarrow> (a\<lparr>ch_invex := l\<rparr>, c))
         | None \<Rightarrow> (a, False))
     | PQuiet \<Rightarrow> (case arg of
           Some bmask \<Rightarrow> (case apply_list_mode now (ch_quiets a) bmask adding by of (l, c) \<Rightarrow> (a\<lparr>ch_quiets := l\<rparr>, c))
         | None \<Rightarrow> (a, False))
     | PKey \<Rightarrow> apply_text_mode e is_key MKey adding arg a
     | PLimit \<Rightarrow>
         if adding then
           (case parse_channel_limit arg of
              Some limit \<Rightarrow> replace_param_mode is_limit
                (Some (MLimit limit (ht_now (env_hash e) (env_millis e) (ch_server_id a)))) a
            | None \<Rightarrow> (a, False))
         else replace_param_mode is_limit None a
     | PJoinForward \<Rightarrow> apply_text_mode e is_join_forward MJoinForward adding arg a
     | PFlood \<Rightarrow> apply_flood e adding arg a
     | PRedirect \<Rightarrow> apply_text_mode e is_redirect MRedirect adding arg a
     | PFounder \<Rightarrow> apply_member_mode e target_uids (\<lambda>m. m\<lparr>mo_owner := adding\<rparr>) arg a
     | PAdmin \<Rightarrow> apply_member_mode e target_uids (\<lambda>m. m\<lparr>mo_admin := adding\<rparr>) arg a
     | POper \<Rightarrow> apply_member_mode e target_uids (\<lambda>m. m\<lparr>mo_op := adding\<rparr>) arg a
     | PHalfop \<Rightarrow> apply_member_mode e target_uids (\<lambda>m. m\<lparr>mo_halfop := adding\<rparr>) arg a
     | PVoice \<Rightarrow> apply_member_mode e target_uids (\<lambda>m. m\<lparr>mo_voice := adding\<rparr>) arg a
     | other \<Rightarrow> (case flag_mode other of Some flag \<Rightarrow> set_flag_mode e flag adding a | None \<Rightarrow> (a, False)))"

section \<open>The handlers\<close>

fun proto_mode_to_char :: "proto_mode \<Rightarrow> char" where
  "proto_mode_to_char PNoExternalMessages = CHR ''n''"
| "proto_mode_to_char PProtectedTopic = CHR ''t''"
| "proto_mode_to_char PInviteOnly = CHR ''i''"
| "proto_mode_to_char PModerated = CHR ''m''"
| "proto_mode_to_char PSecret = CHR ''s''"
| "proto_mode_to_char PRegisteredOnly = CHR ''r''"
| "proto_mode_to_char PNoColors = CHR ''c''"
| "proto_mode_to_char PNoCTCP = CHR ''C''"
| "proto_mode_to_char PNoNickChange = CHR ''N''"
| "proto_mode_to_char PNoKnock = CHR ''K''"
| "proto_mode_to_char PNoInvite = CHR ''V''"
| "proto_mode_to_char PNoChannelNotice = CHR ''T''"
| "proto_mode_to_char PNoKick = CHR ''Q''"
| "proto_mode_to_char PPermanent = CHR ''P''"
| "proto_mode_to_char POperOnly = CHR ''O''"
| "proto_mode_to_char PFreeInvite = CHR ''g''"
| "proto_mode_to_char PTlsOnly = CHR ''z''"
| "proto_mode_to_char PRoleplay = CHR ''E''"
| "proto_mode_to_char PDelayedJoin = CHR ''D''"
| "proto_mode_to_char PStripColors = CHR ''S''"
| "proto_mode_to_char PAntiCaps = CHR ''B''"
| "proto_mode_to_char PCensor = CHR ''G''"
| "proto_mode_to_char PRedirect = CHR ''L''"
| "proto_mode_to_char PFlood = CHR ''f''"
| "proto_mode_to_char PJoinForward = CHR ''F''"
| "proto_mode_to_char PBan = CHR ''b''"
| "proto_mode_to_char PException = CHR ''e''"
| "proto_mode_to_char PInviteException = CHR ''I''"
| "proto_mode_to_char PQuiet = CHR ''q''"
| "proto_mode_to_char PKey = CHR ''k''"
| "proto_mode_to_char PLimit = CHR ''l''"
| "proto_mode_to_char PFounder = CHR ''q''"
| "proto_mode_to_char PAdmin = CHR ''a''"
| "proto_mode_to_char POper = CHR ''o''"
| "proto_mode_to_char PHalfop = CHR ''h''"
| "proto_mode_to_char PVoice = CHR ''v''"
| "proto_mode_to_char _ = CHR ''?''"

record mode_params =
  mp_sender_uid :: uid
  mp_sender_prefix :: msg_prefix
  mp_modes :: "proto_mode mode list"
  mp_target_uids :: "(string \<times> uid list) list"
  mp_force :: bool
  mp_nanotime :: int

fun apply_modes_loop ::
  "env \<Rightarrow> msg_prefix \<Rightarrow> (string \<times> uid list) list \<Rightarrow> proto_mode mode list \<Rightarrow> channel_actor \<Rightarrow>
    channel_actor \<times> proto_mode mode list" where
  "apply_modes_loop e sender_prefix target_uids [] a = (a, [])"
| "apply_modes_loop e sender_prefix target_uids (md # mds) a =
    (case apply_mode e sender_prefix target_uids md a of (a, changed) \<Rightarrow>
       (case apply_modes_loop e sender_prefix target_uids mds a of (a, applied) \<Rightarrow>
          (a, if changed then md # applied else applied)))"

text \<open>The text of a mode change in the history: signs and letters, then the arguments.\<close>

fun mode_diff_loop :: "proto_mode mode list \<Rightarrow> bool option \<Rightarrow> string \<times> string list" where
  "mode_diff_loop [] sign = ([], [])"
| "mode_diff_loop (md # mds) sign =
    (case mode_diff_loop mds (Some (is_plus md)) of (str, args) \<Rightarrow>
       ((if sign \<noteq> Some (is_plus md) then (if is_plus md then ''+'' else ''-'') else []) @
          [proto_mode_to_char (mode_mode md)] @ str,
        (case mode_arg md of Some arg \<Rightarrow> arg # args | None \<Rightarrow> args)))"

definition mode_diff :: "proto_mode mode list \<Rightarrow> string" where
  "mode_diff mds =
    (case mode_diff_loop mds None of (str, args) \<Rightarrow> if args \<noteq> [] then str @ '' '' @ join_with '' '' args else str)"

definition handle_apply_modes ::
  "env \<Rightarrow> mode_params \<Rightarrow> channel_actor \<Rightarrow>
    channel_actor \<times> effect list \<times> (channel_error + proto_mode mode list) option" where
  "handle_apply_modes e p a =
    (let sender_modes = member_modes_or_default a (mp_sender_uid p) in
     if \<not> (has_op_or_higher sender_modes \<or> mp_force p) then (a, [], Some (Inl ChanOpPrivsNeeded))
     else (case apply_modes_loop e (mp_sender_prefix p) (mp_target_uids p) (mp_modes p) a of (a, applied) \<Rightarrow>
       if applied \<noteq> [] then
         let msg = \<lparr>msg_tags = None, msg_prefix = Some (mp_sender_prefix p),
                    msg_command = ChannelMODE (ch_name a) applied\<rparr>
         in (case send_to_senders e (\<lambda>_. msg) a of (a, effs) \<Rightarrow>
              (a, effs @ notify_observer e None a @
                  store_history e a (HistoryEvent (env_uuid e) (mp_nanotime p)
                    (prefix_display (mp_sender_prefix p)) (EkMode (mode_diff applied))),
               Some (Inr applied)))
       else (a, [], Some (Inr applied))))"

datatype clear_target = ClearModes | ClearBans | ClearOps | ClearVoices

fun clear_ops :: "(uid \<times> string) list \<Rightarrow> (uid \<times> member_modes) list \<Rightarrow>
    (uid \<times> member_modes) list \<times> proto_mode mode list" where
  "clear_ops nicks [] = ([], [])"
| "clear_ops nicks ((uid, m) # ms) =
    (case clear_ops nicks ms of (ms', changes) \<Rightarrow>
       if mo_op m then
         ((uid, m\<lparr>mo_op := False\<rparr>) # ms',
          case map_of nicks uid of Some nick \<Rightarrow> Minus POper (Some nick) # changes | None \<Rightarrow> changes)
       else ((uid, m) # ms', changes))"

fun clear_voices :: "(uid \<times> string) list \<Rightarrow> (uid \<times> member_modes) list \<Rightarrow>
    (uid \<times> member_modes) list \<times> proto_mode mode list" where
  "clear_voices nicks [] = ([], [])"
| "clear_voices nicks ((uid, m) # ms) =
    (case clear_voices nicks ms of (ms', changes) \<Rightarrow>
       if mo_voice m then
         ((uid, m\<lparr>mo_voice := False\<rparr>) # ms',
          case map_of nicks uid of Some nick \<Rightarrow> Minus PVoice (Some nick) # changes | None \<Rightarrow> changes)
       else ((uid, m) # ms', changes))"

text \<open>\<open>slice::chunks\<close>.\<close>

function chunks :: "nat \<Rightarrow> 'a list \<Rightarrow> 'a list list" where
  "chunks n xs = (if xs = [] \<or> n = 0 then [] else take n xs # chunks n (drop n xs))"
  by pat_completeness auto
termination
  by (relation "measure (\<lambda>(n, xs). length xs)") auto

declare chunks.simps [simp del]

definition clear_notice :: "env \<Rightarrow> msg_prefix \<Rightarrow> string \<Rightarrow> channel_actor \<Rightarrow> effect list" where
  "clear_notice e sender_prefix body a =
    handle_broadcast e \<lparr>msg_tags = None, msg_prefix = Some sender_prefix, msg_command = NOTICE (ch_name a) body\<rparr> None a"

definition handle_clear ::
  "env \<Rightarrow> msg_prefix \<Rightarrow> clear_target \<Rightarrow> int \<Rightarrow> channel_actor \<Rightarrow>
    channel_actor \<times> effect list \<times> (channel_error + unit) option" where
  "handle_clear e sender_prefix target nanotime a =
    (let (a, effs1, changes) = (case target of
         ClearModes \<Rightarrow>
           (let a = a\<lparr>ch_modes := [MNoExternal, MTopicLock]\<rparr>
            in (a, clear_notice e sender_prefix ''Channel modes cleared'' a, []))
       | ClearBans \<Rightarrow>
           (let a = a\<lparr>ch_bans := [], ch_excepts := [], ch_invex := [], ch_quiets := []\<rparr>
            in (a, clear_notice e sender_prefix ''Channel bans cleared'' a, []))
       | ClearOps \<Rightarrow>
           (case clear_ops (ch_user_nicks a) (ch_members a) of (ms, changes) \<Rightarrow> (a\<lparr>ch_members := ms\<rparr>, [], changes))
       | ClearVoices \<Rightarrow>
           (case clear_voices (ch_user_nicks a) (ch_members a) of (ms, changes) \<Rightarrow> (a\<lparr>ch_members := ms\<rparr>, [], changes)));
         effs2 = concat (map (\<lambda>chunk.
           handle_broadcast e \<lparr>msg_tags = None, msg_prefix = Some sender_prefix,
                               msg_command = ChannelMODE (ch_name a) chunk\<rparr> None a @
           store_history e a (HistoryEvent (env_uuid e) nanotime (prefix_display sender_prefix)
             (EkMode (mode_diff chunk)))) (chunks 12 changes))
     in (a, effs1 @ effs2 @ notify_observer e None a, Some (Inr ())))"

section \<open>The invariant\<close>

lemma flag_mode_kind: "flag_mode m = Some f \<Longrightarrow> mode_kind f = None"
  by (cases m) auto

lemma wf_set_flag_mode: "mode_kind f = None \<Longrightarrow> actor_wf a \<Longrightarrow> actor_wf (fst (set_flag_mode e f adding a))"
  using actor_wf_modes [of a "List.insert f (ch_modes a)"] actor_wf_modes [of a "removeAll f (ch_modes a)"]
  by (simp add: set_flag_mode_def Let_def modes_ok_simple modes_ok_removeAll actor_wf_modes_ok
      del: not_in_set_insert in_set_insert split: option.split)

lemma wf_replace_param_mode:
  assumes "actor_wf a" and "\<And>m x. new = Some m \<Longrightarrow> \<not> predicate x \<Longrightarrow> mode_kind x \<noteq> mode_kind m"
  shows "actor_wf (fst (replace_param_mode predicate new a))"
proof -
  have *: "modes_ok (filter (\<lambda>m. \<not> predicate m) (ch_modes a))"
    by (rule modes_ok_filter [OF actor_wf_modes_ok [OF assms(1)]])
  then have "modes_ok (List.insert m (filter (\<lambda>m. \<not> predicate m) (ch_modes a)))" if "new = Some m" for m
    using assms(2) [OF that] by (intro modes_ok_param) auto
  then show ?thesis
    using assms(1) * by (auto simp: replace_param_mode_def Let_def actor_wf_modes split: option.split)
qed

lemma kind_predicates:
  "\<not> is_key x \<Longrightarrow> mode_kind x \<noteq> mode_kind (MKey k ts)"
  "\<not> is_limit x \<Longrightarrow> mode_kind x \<noteq> mode_kind (MLimit l ts)"
  "\<not> is_join_forward x \<Longrightarrow> mode_kind x \<noteq> mode_kind (MJoinForward k ts)"
  "\<not> is_flood x \<Longrightarrow> mode_kind x \<noteq> mode_kind (MFlood k ts)"
  "\<not> is_redirect x \<Longrightarrow> mode_kind x \<noteq> mode_kind (MRedirect k ts)"
  by (cases x; simp)+

lemma wf_apply_text_mode:
  assumes "actor_wf a" and "\<And>v ts x. \<not> predicate x \<Longrightarrow> mode_kind x \<noteq> mode_kind (build v ts)"
  shows "actor_wf (fst (apply_text_mode e predicate build adding arg a))"
  using assms by (auto simp: apply_text_mode_def split: option.split intro!: wf_replace_param_mode)

lemma wf_clear_flood [inv_intros]: "actor_wf a \<Longrightarrow> actor_wf (clear_flood a)"
  by (simp add: clear_flood_def)

lemma wf_set_flood_param [inv_intros]: "actor_wf a \<Longrightarrow> actor_wf (set_flood_param e p a)"
  by (simp add: set_flood_param_def Let_def split: flood_type.split)

lemma wf_set_flood_params [inv_intros]: "actor_wf a \<Longrightarrow> actor_wf (fold (set_flood_param e) ps a)"
  by (induction ps arbitrary: a) (simp_all add: wf_set_flood_param)

lemma wf_apply_flood [inv_intros]: "actor_wf a \<Longrightarrow> actor_wf (fst (apply_flood e adding arg a))"
  by (auto simp: apply_flood_def Let_def split: option.split
      intro!: wf_replace_param_mode wf_set_flood_params wf_clear_flood dest: kind_predicates)

lemma wf_update_members [inv_intros]: "actor_wf a \<Longrightarrow> actor_wf (fst (update_members e f us a c))"
proof (induction us arbitrary: a c)
  case (Cons u us)
  then show ?case using wf_update_member_mode [OF Cons.prems, of e u f] by (simp add: prod.case_eq_if)
qed simp

lemma wf_apply_member_mode [inv_intros]: "actor_wf a \<Longrightarrow> actor_wf (fst (apply_member_mode e t f arg a))"
  by (simp add: apply_member_mode_def wf_update_members split: option.split)

lemma wf_apply_mode [inv_intros]:
  assumes "actor_wf a"
  shows "actor_wf (fst (apply_mode e pre targets md a))"
proof -
  have flag: "actor_wf (fst (case flag_mode m of Some f \<Rightarrow> set_flag_mode e f adding a | None \<Rightarrow> (a, False)))"
    for m adding using assms flag_mode_kind by (auto intro: wf_set_flag_mode split: option.split)
  have limit: "actor_wf (fst (replace_param_mode is_limit (Some (MLimit l ts)) a))"
    "actor_wf (fst (replace_param_mode is_limit None a))" for l ts
    using assms kind_predicates(2) by (auto intro!: wf_replace_param_mode)
  show ?thesis
    using assms limit flag [of _ "mode_mode md"]
    by (cases "mode_mode md")
      (auto simp: apply_mode_def Let_def prod.case_eq_if kind_predicates wf_apply_flood wf_apply_member_mode
        split: option.split intro!: wf_apply_text_mode dest: kind_predicates)
qed

lemma wf_apply_modes_loop [inv_intros]: "actor_wf a \<Longrightarrow> actor_wf (fst (apply_modes_loop e pre t mds a))"
proof (induction mds arbitrary: a)
  case (Cons md mds)
  then show ?case using wf_apply_mode [OF Cons.prems, of e pre t md] by (simp add: prod.case_eq_if)
qed simp

lemma wf_handle_apply_modes [inv_intros]: "actor_wf a \<Longrightarrow> actor_wf (fst (handle_apply_modes e p a))"
  by (simp add: handle_apply_modes_def Let_def prod.case_eq_if wf_send_to_senders wf_apply_modes_loop)

lemma keys_clear_ops: "keys (fst (clear_ops ns ms)) = keys ms"
  by (induction ms) (auto simp: prod.case_eq_if)

lemma keys_clear_voices: "keys (fst (clear_voices ns ms)) = keys ms"
  by (induction ms) (auto simp: prod.case_eq_if)

lemma dom_map_of_keys: "keys al = keys bl \<Longrightarrow> dom (map_of al) = dom (map_of bl)"
  by (simp add: dom_map_of_conv_image_fst) (metis list.set_map)

lemma tables_ok_same_keys: "keys ms = keys ms' \<Longrightarrow> tables_ok ms ss ns cs = tables_ok ms' ss ns cs"
  using dom_map_of_keys [of ms ms'] by (simp add: tables_ok_def)

lemma wf_same_members: "keys ms = keys (ch_members a) \<Longrightarrow> actor_wf a \<Longrightarrow> actor_wf (a\<lparr>ch_members := ms\<rparr>)"
  using tables_ok_same_keys [of ms "ch_members a"] by (simp add: actor_wf_def)

lemma wf_handle_clear [inv_intros]: "actor_wf a \<Longrightarrow> actor_wf (fst (handle_clear e pre t n a))"
  by (cases t) (simp_all add: handle_clear_def Let_def prod.case_eq_if wf_same_members keys_clear_ops
      keys_clear_voices actor_wf_modes)

section \<open>Life cycle\<close>

lemma state_set_flag_mode [actor_frame]: "ch_state (fst (set_flag_mode e f adding a)) = ch_state a"
  by (simp add: set_flag_mode_def Let_def split: option.split)

lemma state_replace_param_mode [actor_frame]: "ch_state (fst (replace_param_mode P n a)) = ch_state a"
  by (auto simp: replace_param_mode_def Let_def split: option.split)

lemma state_apply_text_mode [actor_frame]: "ch_state (fst (apply_text_mode e P b adding arg a)) = ch_state a"
  by (simp add: apply_text_mode_def actor_frame split: option.split)

lemma state_set_flood_params [actor_frame]: "ch_state (fold (set_flood_param e) ps a) = ch_state a"
  by (induction ps arbitrary: a) (simp_all add: set_flood_param_def Let_def split: flood_type.split)

lemma state_apply_flood [actor_frame]: "ch_state (fst (apply_flood e adding arg a)) = ch_state a"
  by (simp add: apply_flood_def Let_def actor_frame clear_flood_def split: option.split)

lemma state_update_members [actor_frame]: "ch_state (fst (update_members e f us a c)) = ch_state a"
  by (induction us arbitrary: a c) (simp_all add: prod.case_eq_if actor_frame)

lemma state_apply_mode [actor_frame]: "ch_state (fst (apply_mode e pre t md a)) = ch_state a"
  by (cases "mode_mode md")
    (simp_all add: apply_mode_def Let_def prod.case_eq_if apply_member_mode_def actor_frame split: option.split)

lemma state_apply_modes_loop [actor_frame]: "ch_state (fst (apply_modes_loop e pre t mds a)) = ch_state a"
  by (induction mds arbitrary: a) (simp_all add: prod.case_eq_if actor_frame)

lemma state_handle_apply_modes [actor_frame]: "ch_state (fst (handle_apply_modes e p a)) = ch_state a"
  by (simp add: handle_apply_modes_def Let_def prod.case_eq_if actor_frame)

lemma state_handle_clear [actor_frame]: "ch_state (fst (handle_clear e pre t n a)) = ch_state a"
  by (cases t) (simp_all add: handle_clear_def Let_def prod.case_eq_if)

text \<open>Mode changes neither add nor remove members.\<close>

lemma keys_set_flag_mode [actor_frame]: "ch_members (fst (set_flag_mode e f adding a)) = ch_members a"
  by (simp add: set_flag_mode_def Let_def split: option.split)

lemma keys_replace_param_mode [actor_frame]: "ch_members (fst (replace_param_mode P n a)) = ch_members a"
  by (auto simp: replace_param_mode_def Let_def split: option.split)

lemma keys_apply_text_mode [actor_frame]: "ch_members (fst (apply_text_mode e P b adding arg a)) = ch_members a"
  by (simp add: apply_text_mode_def actor_frame split: option.split)

lemma keys_set_flood_params [actor_frame]: "ch_members (fold (set_flood_param e) ps a) = ch_members a"
  by (induction ps arbitrary: a) (simp_all add: set_flood_param_def Let_def split: flood_type.split)

lemma keys_apply_flood [actor_frame]: "ch_members (fst (apply_flood e adding arg a)) = ch_members a"
  by (simp add: apply_flood_def Let_def actor_frame clear_flood_def split: option.split)

lemma keys_update_members [actor_frame]: "keys (ch_members (fst (update_members e f us a c))) = keys (ch_members a)"
  by (induction us arbitrary: a c) (simp_all add: prod.case_eq_if actor_frame)

lemma keys_apply_mode [actor_frame]: "keys (ch_members (fst (apply_mode e pre t md a))) = keys (ch_members a)"
  by (cases "mode_mode md")
    (simp_all add: apply_mode_def Let_def prod.case_eq_if apply_member_mode_def actor_frame split: option.split)

lemma keys_apply_modes_loop [actor_frame]:
  "keys (ch_members (fst (apply_modes_loop e pre t mds a))) = keys (ch_members a)"
  by (induction mds arbitrary: a) (simp_all add: prod.case_eq_if actor_frame)

lemma keys_handle_apply_modes [actor_frame]: "keys (ch_members (fst (handle_apply_modes e p a))) = keys (ch_members a)"
  by (simp add: handle_apply_modes_def Let_def prod.case_eq_if actor_frame)

lemma keys_handle_clear [actor_frame]: "keys (ch_members (fst (handle_clear e pre t n a))) = keys (ch_members a)"
  by (cases t) (simp_all add: handle_clear_def Let_def prod.case_eq_if keys_clear_ops keys_clear_voices)

end
