(* ===== verification/Actor_Remote.thy ===== *)
theory Actor_Remote
  imports Actor_Modes
begin

text \<open>
  Changes that come from peer servers: \<open>handlers/remote.rs\<close> (\<open>TMODE\<close>, \<open>TOPIC\<close>, \<open>KICK\<close>) and the merge
  of a channel's CRDT form into the actor (\<open>crdt.rs\<close>).
\<close>

section \<open>Parsing\<close>

definition is_ascii_alphanumeric :: "string \<Rightarrow> bool" where
  "is_ascii_alphanumeric g \<longleftrightarrow> (case g of [c] \<Rightarrow> is_ascii_alphabetic c \<or> is_ascii_digit c | _ \<Rightarrow> False)"

definition extract_sid_from_setter :: "string \<Rightarrow> server_id" where
  "extract_sid_from_setter setter =
    (if length setter \<ge> 3 \<and> list_all is_ascii_alphanumeric (take 3 (rust_chars setter))
     then ServerId (take 3 setter) else ServerId ''000'')"

definition remote_takes_arg :: "proto_mode \<Rightarrow> bool" where
  "remote_takes_arg m \<longleftrightarrow>
    m \<in> {PBan, PException, PInviteException, PLimit, PKey, POper, PVoice, PFounder, PAdmin, PHalfop}"

fun remote_parse_modes_loop :: "string list \<Rightarrow> bool \<Rightarrow> string list \<Rightarrow> proto_mode mode list" where
  "remote_parse_modes_loop [] adding params = []"
| "remote_parse_modes_loop (c # cs) adding params =
    (if c = ''+'' then remote_parse_modes_loop cs True params
     else if c = ''-'' then remote_parse_modes_loop cs False params
     else let mode_type = proto_mode_from_char c;
              actual_takes_arg = (if mode_type = PLimit \<and> \<not> adding then False else remote_takes_arg mode_type);
              (arg, params) = (if actual_takes_arg then
                 (case params of p # ps \<Rightarrow> (Some p, ps) | [] \<Rightarrow> (None, [])) else (None, params))
       in (case mode_type of
            PUnknown _ \<Rightarrow> remote_parse_modes_loop cs adding params
          | _ \<Rightarrow> (if adding then Plus mode_type arg else Minus mode_type arg) #
                 remote_parse_modes_loop cs adding params))"

definition remote_parse_modes :: "string \<Rightarrow> string list \<Rightarrow> proto_mode mode list" where
  "remote_parse_modes modes_str params = remote_parse_modes_loop (rust_chars modes_str) True params"

section \<open>Last writer wins\<close>

definition incoming_wins :: "hybrid_timestamp option \<Rightarrow> hybrid_timestamp \<Rightarrow> bool" where
  "incoming_wins current_ts incoming_ts \<longleftrightarrow>
    (case current_ts of Some ts \<Rightarrow> incoming_ts > ts | None \<Rightarrow> True)"

definition apply_boolean_mode_lww ::
  "string \<Rightarrow> channel_mode \<Rightarrow> bool \<Rightarrow> hybrid_timestamp \<Rightarrow> channel_actor \<Rightarrow> channel_actor" where
  "apply_boolean_mode_lww c m adding incoming_ts a =
    (if incoming_wins (map_of (ch_mode_timestamps a) c) incoming_ts
     then a\<lparr>ch_modes := (if adding then List.insert m (ch_modes a) else removeAll m (ch_modes a)),
            ch_mode_timestamps := AList.update c incoming_ts (ch_mode_timestamps a),
            ch_dirty := True\<rparr>
     else a)"

text \<open>The first timestamp a mode with parameter carries, else the one recorded for its letter.\<close>

fun mode_own_ts :: "channel_mode \<Rightarrow> hybrid_timestamp option" where
  "mode_own_ts (MKey _ ts) = Some ts"
| "mode_own_ts (MLimit _ ts) = Some ts"
| "mode_own_ts (MJoinForward _ ts) = Some ts"
| "mode_own_ts (MFlood _ ts) = Some ts"
| "mode_own_ts (MRedirect _ ts) = Some ts"
| "mode_own_ts _ = None"

definition param_current_ts :: "(channel_mode \<Rightarrow> bool) \<Rightarrow> string \<Rightarrow> channel_actor \<Rightarrow> hybrid_timestamp option" where
  "param_current_ts predicate c a =
    (case List.find predicate (ch_modes a) of
       Some m \<Rightarrow> mode_own_ts m | None \<Rightarrow> map_of (ch_mode_timestamps a) c)"

definition apply_param_mode_lww ::
  "(channel_mode \<Rightarrow> bool) \<Rightarrow> string \<Rightarrow> channel_mode option \<Rightarrow> hybrid_timestamp \<Rightarrow> channel_actor \<Rightarrow> channel_actor" where
  "apply_param_mode_lww predicate c new_mode incoming_ts a =
    (if incoming_wins (param_current_ts predicate c a) incoming_ts
     then let modes = filter (\<lambda>m. \<not> predicate m) (ch_modes a)
       in a\<lparr>ch_modes := (case new_mode of Some m \<Rightarrow> List.insert m modes | None \<Rightarrow> modes),
            ch_mode_timestamps := AList.update c incoming_ts (ch_mode_timestamps a),
            ch_dirty := True\<rparr>
     else a)"

text \<open>\<open>i64\<close> division, which truncates.\<close>

definition div_i64 :: "int \<Rightarrow> int \<Rightarrow> int" where
  "div_i64 x y = sgn x * sgn y * (\<bar>x\<bar> div \<bar>y\<bar>)"

definition push_entry :: "string \<Rightarrow> string \<Rightarrow> hybrid_timestamp \<Rightarrow> list_entry list \<Rightarrow> list_entry list" where
  "push_entry bmask setter ts lst =
    (if \<not> list_ex (\<lambda>x. en_mask x = bmask) lst
     then lst @ [\<lparr>en_mask = bmask, en_set_by = setter, en_set_at = div_i64 (millis ts) 1000\<rparr>] else lst)"

definition retain_entry :: "string \<Rightarrow> list_entry list \<Rightarrow> list_entry list" where
  "retain_entry bmask lst = filter (\<lambda>x. en_mask x \<noteq> bmask) lst"

text \<open>The modes the remote handler treats as flags, with the letter their timestamp is kept under.\<close>

fun remote_flag_mode :: "proto_mode \<Rightarrow> (string \<times> channel_mode) option" where
  "remote_flag_mode PInviteOnly = Some (''i'', MInviteOnly)"
| "remote_flag_mode PModerated = Some (''m'', MModerated)"
| "remote_flag_mode PNoExternalMessages = Some (''n'', MNoExternal)"
| "remote_flag_mode PSecret = Some (''s'', MSecret)"
| "remote_flag_mode PProtectedTopic = Some (''t'', MTopicLock)"
| "remote_flag_mode PNoColors = Some (''c'', MNoColors)"
| "remote_flag_mode PRegisteredOnly = Some (''R'', MRegisteredOnly)"
| "remote_flag_mode PNoCTCP = Some (''C'', MNoCtcp)"
| "remote_flag_mode PTlsOnly = Some (''z'', MTlsOnly)"
| "remote_flag_mode PModeratedUnreg = Some (''M'', MModeratedUnreg)"
| "remote_flag_mode POpModerated = Some (''U'', MOpModerated)"
| "remote_flag_mode PAuditorium = Some (''u'', MAuditorium)"
| "remote_flag_mode PNoNickChange = Some (''N'', MNoNickChange)"
| "remote_flag_mode PNoKnock = Some (''K'', MNoKnock)"
| "remote_flag_mode PNoInvite = Some (''V'', MNoInvite)"
| "remote_flag_mode PFreeInvite = Some (''g'', MFreeInvite)"
| "remote_flag_mode PPermanent = Some (''P'', MPermanent)"
| "remote_flag_mode _ = None"

definition modify_member :: "string option \<Rightarrow> (member_modes \<Rightarrow> member_modes) \<Rightarrow> channel_actor \<Rightarrow> channel_actor" where
  "modify_member arg f a =
    (case arg of
       Some uid \<Rightarrow> (case map_of (ch_members a) uid of
           Some m \<Rightarrow> a\<lparr>ch_members := AList.update uid (f m) (ch_members a)\<rparr> | None \<Rightarrow> a)
     | None \<Rightarrow> a)"

definition apply_remote_mode_with_lww ::
  "proto_mode \<Rightarrow> string option \<Rightarrow> string \<Rightarrow> hybrid_timestamp \<Rightarrow> bool \<Rightarrow> channel_actor \<Rightarrow> channel_actor" where
  "apply_remote_mode_with_lww md arg setter incoming_ts adding a =
    (case md of
       PBan \<Rightarrow> (case arg of
           Some bmask \<Rightarrow>
             if adding then a\<lparr>ch_bans := push_entry bmask setter incoming_ts (ch_bans a)\<rparr>
             else if list_ex (\<lambda>x. en_mask x = bmask) (ch_bans a)
             then a\<lparr>ch_bans := retain_entry bmask (ch_bans a), ch_dirty := True\<rparr> else a
         | None \<Rightarrow> a)
     | PException \<Rightarrow> (case arg of
           Some bmask \<Rightarrow>
             if adding then a\<lparr>ch_excepts := push_entry bmask setter incoming_ts (ch_excepts a)\<rparr>
             else a\<lparr>ch_excepts := retain_entry bmask (ch_excepts a)\<rparr>
         | None \<Rightarrow> a)
     | PInviteException \<Rightarrow> (case arg of
           Some bmask \<Rightarrow>
             if adding then a\<lparr>ch_invex := push_entry bmask setter incoming_ts (ch_invex a)\<rparr>
             else a\<lparr>ch_invex := retain_entry bmask (ch_invex a)\<rparr>
         | None \<Rightarrow> a)
     | PLimit \<Rightarrow>
         if adding then
           (case arg of
              Some s \<Rightarrow> (case parse_uint (2 ^ 64 - 1) s of
                  Some l \<Rightarrow> apply_param_mode_lww is_limit ''l'' (Some (MLimit l incoming_ts)) incoming_ts a
                | None \<Rightarrow> a)
            | None \<Rightarrow> a)
         else apply_param_mode_lww is_limit ''l'' None incoming_ts a
     | PKey \<Rightarrow>
         if adding then
           (case arg of
              Some k \<Rightarrow> apply_param_mode_lww is_key ''k'' (Some (MKey k incoming_ts)) incoming_ts a
            | None \<Rightarrow> a)
         else apply_param_mode_lww is_key ''k'' None incoming_ts a
     | POper \<Rightarrow> modify_member arg (\<lambda>m. m\<lparr>mo_op := adding\<rparr>) a
     | PVoice \<Rightarrow> modify_member arg (\<lambda>m. m\<lparr>mo_voice := adding\<rparr>) a
     | PHalfop \<Rightarrow> modify_member arg (\<lambda>m. m\<lparr>mo_halfop := adding\<rparr>) a
     | PFounder \<Rightarrow> modify_member arg (\<lambda>m. m\<lparr>mo_owner := adding\<rparr>) a
     | PAdmin \<Rightarrow> modify_member arg (\<lambda>m. m\<lparr>mo_admin := adding\<rparr>) a
     | other \<Rightarrow> (case remote_flag_mode other of
           Some (c, m) \<Rightarrow> apply_boolean_mode_lww c m adding incoming_ts a | None \<Rightarrow> a))"

section \<open>The handlers\<close>

text \<open>\<open>ts as i64\<close> of a 64-bit word.\<close>

definition ts_i64 :: "64 word \<Rightarrow> int" where
  "ts_i64 ts = sint ts"

definition remote_ts :: "env \<Rightarrow> 64 word \<Rightarrow> string \<Rightarrow> hybrid_timestamp" where
  "remote_ts e ts setter = ht_new (env_hash e) (wrap_i64 (ts_i64 ts * 1000)) 0 (extract_sid_from_setter setter)"

fun apply_remote_mode :: "string \<Rightarrow> hybrid_timestamp \<Rightarrow> proto_mode mode \<Rightarrow> channel_actor \<Rightarrow> channel_actor" where
  "apply_remote_mode setter ts (Plus m arg) a = apply_remote_mode_with_lww m arg setter ts True a"
| "apply_remote_mode setter ts (Minus m arg) a = apply_remote_mode_with_lww m arg setter ts False a"
| "apply_remote_mode setter ts (NoPrefix m) a = a"

definition handle_remote_mode ::
  "env \<Rightarrow> 64 word \<Rightarrow> string \<Rightarrow> string \<Rightarrow> string list \<Rightarrow> channel_actor \<Rightarrow> channel_actor" where
  "handle_remote_mode e ts setter modes_str params a =
    (let incoming_ts = remote_ts e ts setter;
         a = (if ch_created a > 0 then
                (if ts_i64 ts < ch_created a then a\<lparr>ch_created := ts_i64 ts\<rparr> else a)
              else a\<lparr>ch_created := ts_i64 ts\<rparr>)
     in fold (apply_remote_mode setter incoming_ts) (remote_parse_modes modes_str params) a)"

definition handle_remote_topic :: "env \<Rightarrow> 64 word \<Rightarrow> string \<Rightarrow> string \<Rightarrow> channel_actor \<Rightarrow> channel_actor" where
  "handle_remote_topic e ts setter topic a =
    (let incoming_ts = remote_ts e ts setter in
     if incoming_wins (ch_topic_timestamp a) incoming_ts
     then a\<lparr>ch_topic := Some \<lparr>tp_text = topic, tp_set_by = setter, tp_set_at = ts_i64 ts\<rparr>,
            ch_topic_timestamp := Some incoming_ts, ch_dirty := True\<rparr>
     else a)"

definition handle_remote_kick ::
  "env \<Rightarrow> string \<Rightarrow> uid \<Rightarrow> string option \<Rightarrow> channel_actor \<Rightarrow> channel_actor \<times> effect list" where
  "handle_remote_kick e sender_text target reason a =
    (if is_member a target then
       let a = remove_member target a;
           msg = \<lparr>msg_tags = None, msg_prefix = Some (prefix_new_from_str sender_text),
                  msg_command = KICK (ch_name a) target reason\<rparr>
       in (case send_to_senders e (\<lambda>_. msg) a of (a, effs) \<Rightarrow>
            let effs = effs @ notify_observer e None a in
            if ch_members a = [] \<and> \<not> has_mode a MPermanent
            then (case cleanup_if_empty e a of (a, effs2) \<Rightarrow> (a, effs @ effs2))
            else (a, effs))
     else (a, []))"

section \<open>CRDT merge\<close>

definition apply_merged_topic :: "channel_crdt \<Rightarrow> channel_actor \<Rightarrow> channel_actor" where
  "apply_merged_topic crdt a =
    (case lww_value (cc_topic crdt) of
       Some t \<Rightarrow> a\<lparr>ch_topic := Some \<lparr>tp_text = tc_text t, tp_set_by = tc_set_by t, tp_set_at = tc_set_at t\<rparr>,
                   ch_topic_timestamp := Some (lww_timestamp (cc_topic crdt))\<rparr>
     | None \<Rightarrow> a\<lparr>ch_topic := None, ch_topic_timestamp := None\<rparr>)"

text \<open>The registers of the flags, in the order of the source, with letter and mode.\<close>

definition crdt_flags :: "channel_crdt \<Rightarrow> (string \<times> channel_mode \<times> bool lww_register) list" where
  "crdt_flags crdt =
    (let m = cc_modes crdt in
     [(''n'', MNoExternal, cm_no_external m), (''t'', MTopicLock, cm_topic_ops_only m),
      (''m'', MModerated, cm_moderated m), (''i'', MInviteOnly, cm_invite_only m),
      (''s'', MSecret, cm_secret m), (''p'', MPrivate, cm_private m),
      (''R'', MRegisteredOnly, cm_registered_only m), (''c'', MNoColors, cm_no_colors m),
      (''C'', MNoCtcp, cm_no_ctcp m), (''z'', MTlsOnly, cm_ssl_only m),
      (''D'', MDelayedJoin, cm_delayed_join m), (''S'', MStripColors, cm_strip_colors m),
      (''B'', MAntiCaps, cm_anti_caps m), (''G'', MCensor, cm_censor m)])"

fun apply_crdt_flag ::
  "string \<times> channel_mode \<times> bool lww_register \<Rightarrow> channel_mode list \<times> (string \<times> hybrid_timestamp) list \<Rightarrow>
    channel_mode list \<times> (string \<times> hybrid_timestamp) list" where
  "apply_crdt_flag (c, m, reg) (modes, ts) =
    (if lww_value reg then (List.insert m modes, AList.update c (lww_timestamp reg) ts) else (modes, ts))"

definition insert_opt :: "('v \<Rightarrow> channel_mode) \<Rightarrow> 'v option \<Rightarrow> channel_mode list \<Rightarrow> channel_mode list" where
  "insert_opt build v_opt modes = (case v_opt of Some v \<Rightarrow> List.insert (build v) modes | None \<Rightarrow> modes)"

definition apply_merged_modes :: "channel_crdt \<Rightarrow> channel_actor \<Rightarrow> channel_actor" where
  "apply_merged_modes crdt a =
    (case fold apply_crdt_flag (crdt_flags crdt) ([], ch_mode_timestamps a) of (new_modes, ts) \<Rightarrow>
       let redirect = cm_redirect (cc_modes crdt);
           new_modes = insert_opt (\<lambda>key. MKey key (lww_timestamp (cc_key crdt))) (lww_value (cc_key crdt)) new_modes;
           new_modes = insert_opt (\<lambda>limit. MLimit (unat limit) (lww_timestamp (cc_limit crdt)))
             (lww_value (cc_limit crdt)) new_modes;
           new_modes = insert_opt (\<lambda>target. MRedirect target (lww_timestamp redirect)) (lww_value redirect) new_modes
       in a\<lparr>ch_modes := new_modes, ch_mode_timestamps := ts\<rparr>)"

definition member_of_crdt :: "member_modes_crdt \<Rightarrow> member_modes" where
  "member_of_crdt m =
    \<lparr>mo_owner = lww_value (mm_owner m), mo_owner_ts = Some (lww_timestamp (mm_owner m)),
     mo_admin = lww_value (mm_admin m), mo_admin_ts = Some (lww_timestamp (mm_admin m)),
     mo_op = lww_value (mm_op m), mo_op_ts = Some (lww_timestamp (mm_op m)),
     mo_halfop = lww_value (mm_halfop m), mo_halfop_ts = Some (lww_timestamp (mm_halfop m)),
     mo_voice = lww_value (mm_voice m), mo_voice_ts = Some (lww_timestamp (mm_voice m)),
     mo_join_time = Some (mm_join_time m)\<rparr>"

definition apply_merged_member :: "env \<Rightarrow> channel_crdt \<Rightarrow> uid \<Rightarrow> channel_actor \<Rightarrow> channel_actor" where
  "apply_merged_member e crdt uid a =
    (case ms_get_modes (cc_members crdt) uid of
       Some m \<Rightarrow>
         let a = a\<lparr>ch_members := AList.update uid (member_of_crdt m) (ch_members a)\<rparr> in
         if map_of (ch_senders a) uid = None \<and> env_matrix e
         then a\<lparr>ch_senders := AList.update uid
                  (case env_first_sender e uid of Some tx \<Rightarrow> tx | None \<Rightarrow> env_router e) (ch_senders a)\<rparr>
         else a
     | None \<Rightarrow> a)"

definition apply_merged_members :: "env \<Rightarrow> channel_crdt \<Rightarrow> channel_actor \<Rightarrow> channel_actor" where
  "apply_merged_members e crdt a =
    (let a = fold (apply_merged_member e crdt) (ms_iter (cc_members crdt)) a;
         to_remove = filter (\<lambda>u. \<not> ms_contains (cc_members crdt) u) (keys (ch_members a))
     in fold remove_member to_remove a)"

definition entry_of_crdt :: "list_entry_crdt \<Rightarrow> list_entry" where
  "entry_of_crdt x = \<lparr>en_mask = le_mask x, en_set_by = le_set_by x, en_set_at = le_set_at x\<rparr>"

definition apply_merged_lists :: "channel_crdt \<Rightarrow> channel_actor \<Rightarrow> channel_actor" where
  "apply_merged_lists crdt a =
    a\<lparr>ch_bans := map entry_of_crdt (aw_iter (cc_bans crdt)),
      ch_excepts := map entry_of_crdt (aw_iter (cc_excepts crdt)),
      ch_invex := map entry_of_crdt (aw_iter (cc_invites crdt))\<rparr>"

definition merged_state :: "env \<Rightarrow> channel_crdt \<Rightarrow> channel_actor \<Rightarrow> channel_actor" where
  "merged_state e crdt a =
    apply_merged_lists crdt (apply_merged_members e crdt (apply_merged_modes crdt (apply_merged_topic crdt a)))"

definition handle_merge_crdt ::
  "env \<Rightarrow> channel_crdt \<Rightarrow> server_id option \<Rightarrow> channel_actor \<Rightarrow> channel_actor \<times> effect list" where
  "handle_merge_crdt e crdt source a =
    (let a = merged_state e (cc_merge (to_crdt e a) crdt) a in (a, notify_observer e source a))"

section \<open>The invariant\<close>

lemma remote_flag_kind: "remote_flag_mode m = Some (c, f) \<Longrightarrow> mode_kind f = None"
  by (cases m) auto

lemma wf_apply_boolean_mode_lww:
  "mode_kind m = None \<Longrightarrow> actor_wf a \<Longrightarrow> actor_wf (apply_boolean_mode_lww c m adding ts a)"
  by (simp add: apply_boolean_mode_lww_def actor_wf_modes modes_ok_simple modes_ok_removeAll actor_wf_modes_ok)

lemma wf_apply_param_mode_lww:
  assumes "actor_wf a" and "\<And>m x. new = Some m \<Longrightarrow> \<not> predicate x \<Longrightarrow> mode_kind x \<noteq> mode_kind m"
  shows "actor_wf (apply_param_mode_lww predicate c new ts a)"
proof -
  have *: "modes_ok (filter (\<lambda>m. \<not> predicate m) (ch_modes a))"
    by (rule modes_ok_filter [OF actor_wf_modes_ok [OF assms(1)]])
  then have "modes_ok (List.insert m (filter (\<lambda>m. \<not> predicate m) (ch_modes a)))" if "new = Some m" for m
    using assms(2) [OF that] by (intro modes_ok_param) auto
  then show ?thesis
    using assms(1) * by (auto simp: apply_param_mode_lww_def Let_def actor_wf_modes split: option.split)
qed

lemma wf_modify_member [inv_intros]: "actor_wf a \<Longrightarrow> actor_wf (modify_member arg f a)"
  by (simp add: modify_member_def actor_wf_def tables_ok_member split: option.split)

lemma wf_apply_remote_mode_with_lww [inv_intros]:
  assumes "actor_wf a"
  shows "actor_wf (apply_remote_mode_with_lww md arg setter ts adding a)"
proof -
  have flag: "actor_wf (case remote_flag_mode m of Some (c, f) \<Rightarrow> apply_boolean_mode_lww c f adding ts a | None \<Rightarrow> a)" for m
    using assms remote_flag_kind by (auto intro: wf_apply_boolean_mode_lww split: option.split)
  have "actor_wf (apply_param_mode_lww is_limit c (Some (MLimit l ts)) ts a)"
    "actor_wf (apply_param_mode_lww is_key c (Some (MKey k ts)) ts a)" for c l k
    using assms kind_predicates by (auto intro!: wf_apply_param_mode_lww)
  moreover have "actor_wf (apply_param_mode_lww P c None ts a)" for P c
    using assms by (auto intro!: wf_apply_param_mode_lww)
  ultimately show ?thesis
    using assms flag [of md]
    by (cases md) (simp_all add: apply_remote_mode_with_lww_def wf_modify_member split: option.split)
qed

lemma wf_apply_remote_mode [inv_intros]: "actor_wf a \<Longrightarrow> actor_wf (apply_remote_mode setter ts md a)"
  by (cases md) (simp_all add: wf_apply_remote_mode_with_lww)

lemma wf_handle_remote_mode [inv_intros]:
  assumes "actor_wf a"
  shows "actor_wf (handle_remote_mode e ts setter str params a)"
proof -
  have "actor_wf b \<Longrightarrow> actor_wf (fold (apply_remote_mode setter t) mds b)" for b t mds
    by (induction mds arbitrary: b) (simp_all add: wf_apply_remote_mode)
  then show ?thesis using assms by (simp add: handle_remote_mode_def Let_def)
qed

lemma wf_handle_remote_topic [inv_intros]: "actor_wf a \<Longrightarrow> actor_wf (handle_remote_topic e ts setter t a)"
  by (simp add: handle_remote_topic_def Let_def)

lemma wf_handle_remote_kick [inv_intros]: "actor_wf a \<Longrightarrow> actor_wf (fst (handle_remote_kick e s t r a))"
  by (simp add: handle_remote_kick_def Let_def prod.case_eq_if wf_send_to_senders wf_remove_member wf_cleanup_if_empty)

lemma wf_apply_merged_member [inv_intros]:
  assumes "actor_wf a"
  shows "actor_wf (apply_merged_member e crdt u a)"
proof (cases "ms_get_modes (cc_members crdt) u")
  case (Some m)
  let ?ms = "AList.update u (member_of_crdt m) (ch_members a)"
  have "tables_ok ?ms (ch_senders a) (ch_user_nicks a) (ch_user_caps a)"
    using assms by (simp add: actor_wf_def tables_ok_member)
  moreover then have "tables_ok ?ms (AList.update u s (ch_senders a)) (ch_user_nicks a) (ch_user_caps a)" for s
    by (intro tables_ok_sender) (simp_all add: hash_simps)
  ultimately show ?thesis using assms Some by (simp add: apply_merged_member_def Let_def actor_wf_def)
qed (use assms in \<open>simp add: apply_merged_member_def\<close>)

lemma wf_apply_merged_members [inv_intros]:
  assumes "actor_wf a"
  shows "actor_wf (apply_merged_members e crdt a)"
proof -
  have "actor_wf b \<Longrightarrow> actor_wf (fold (apply_merged_member e crdt) us b)" for b us
    by (induction us arbitrary: b) (simp_all add: wf_apply_merged_member)
  moreover have "actor_wf b \<Longrightarrow> actor_wf (fold remove_member us b)" for b us
    by (induction us arbitrary: b) (simp_all add: wf_remove_member)
  ultimately show ?thesis using assms by (simp add: apply_merged_members_def Let_def)
qed

text \<open>The flags of the CRDT give modes without parameter only.\<close>

lemma crdt_flags_simple: "list_all (\<lambda>f. mode_kind (fst (snd f)) = None) (crdt_flags crdt)"
  by (simp add: crdt_flags_def Let_def)

definition flags_only :: "channel_mode list \<Rightarrow> bool" where
  "flags_only ms \<longleftrightarrow> modes_ok ms \<and> (\<forall>m \<in> set ms. mode_kind m = None)"

lemma flags_only_insert: "mode_kind m = None \<Longrightarrow> flags_only ms \<Longrightarrow> flags_only (List.insert m ms)"
  by (simp add: flags_only_def modes_ok_simple)

lemma flags_only_step:
  "mode_kind (fst (snd f)) = None \<Longrightarrow> flags_only (fst acc) \<Longrightarrow> flags_only (fst (apply_crdt_flag f acc))"
  by (cases f; cases acc) (simp add: flags_only_insert)

lemma fold_apply_crdt_flag:
  "list_all (\<lambda>f. mode_kind (fst (snd f)) = None) fs \<Longrightarrow> flags_only (fst acc) \<Longrightarrow>
    flags_only (fst (fold apply_crdt_flag fs acc))"
  by (induction fs arbitrary: acc) (simp_all add: flags_only_step)

lemma modes_ok_insert_opt:
  assumes "modes_ok ms" "\<And>x v. x \<in> set ms \<Longrightarrow> mode_kind x \<noteq> mode_kind (build v)"
  shows "modes_ok (insert_opt build v_opt ms)"
  using assms by (auto simp: insert_opt_def intro: modes_ok_param split: option.split)

lemma set_insert_opt: "x \<in> set (insert_opt build v_opt ms) \<Longrightarrow> x \<in> set ms \<or> (\<exists>v. x = build v)"
  by (auto simp: insert_opt_def split: option.splits)

lemma wf_apply_merged_modes [inv_intros]:
  assumes "actor_wf a"
  shows "actor_wf (apply_merged_modes crdt a)"
proof -
  obtain ms ts where f: "fold apply_crdt_flag (crdt_flags crdt) ([], ch_mode_timestamps a) = (ms, ts)" by fastforce
  have ok: "modes_ok ms" and kinds: "\<forall>m \<in> set ms. mode_kind m = None"
    using fold_apply_crdt_flag [OF crdt_flags_simple, of "([], ch_mode_timestamps a)" crdt] f
    by (simp_all add: flags_only_def modes_ok_def)
  have "modes_ok (insert_opt (\<lambda>r. MRedirect r t3) o3
      (insert_opt (\<lambda>l. MLimit (unat l) t2) (o2 :: 32 word option) (insert_opt (\<lambda>k. MKey k t1) o1 ms)))"
    for o1 o2 o3 t1 t2 t3
    using ok kinds by (intro modes_ok_insert_opt) (auto dest!: set_insert_opt)
  then show ?thesis using assms by (simp add: apply_merged_modes_def f Let_def actor_wf_modes)
qed

lemma wf_handle_merge_crdt [inv_intros]: "actor_wf a \<Longrightarrow> actor_wf (fst (handle_merge_crdt e crdt source a))"
  by (simp add: handle_merge_crdt_def Let_def merged_state_def apply_merged_lists_def apply_merged_topic_def
      wf_apply_merged_members wf_apply_merged_modes split: option.split)

section \<open>Life cycle\<close>

lemma apply_remote_mode_frame [actor_frame]:
  "ch_state (apply_remote_mode setter ts md a) = ch_state a"
  "keys (ch_members (apply_remote_mode setter ts md a)) = keys (ch_members a)"
proof -
  have *: "ch_state (apply_remote_mode_with_lww m arg setter ts adding a) = ch_state a \<and>
      keys (ch_members (apply_remote_mode_with_lww m arg setter ts adding a)) = keys (ch_members a)" for m arg adding
    by (cases m) (simp_all add: apply_remote_mode_with_lww_def modify_member_def apply_param_mode_lww_def
        apply_boolean_mode_lww_def Let_def keys_alist_update split: option.split)
  then show "ch_state (apply_remote_mode setter ts md a) = ch_state a"
    "keys (ch_members (apply_remote_mode setter ts md a)) = keys (ch_members a)"
    by (cases md; simp)+
qed

lemma fold_remote_mode_frame [actor_frame]:
  "ch_state (fold (apply_remote_mode setter ts) mds a) = ch_state a"
  "keys (ch_members (fold (apply_remote_mode setter ts) mds a)) = keys (ch_members a)"
  by (induction mds arbitrary: a) (simp_all add: actor_frame)

lemma handle_remote_mode_frame [actor_frame]:
  "ch_state (handle_remote_mode e ts setter str params a) = ch_state a"
  "keys (ch_members (handle_remote_mode e ts setter str params a)) = keys (ch_members a)"
  by (simp_all add: handle_remote_mode_def Let_def actor_frame)

lemma handle_remote_topic_frame [actor_frame]:
  "ch_state (handle_remote_topic e ts setter t a) = ch_state a"
  "ch_members (handle_remote_topic e ts setter t a) = ch_members a"
  by (simp_all add: handle_remote_topic_def Let_def)

lemma drained_handle_remote_kick:
  "ch_state a = Draining \<Longrightarrow> ch_state (fst (handle_remote_kick e s t r a)) = Draining"
  by (simp add: handle_remote_kick_def Let_def prod.case_eq_if actor_frame cleanup_draining)

lemma state_handle_merge_crdt [actor_frame]: "ch_state (fst (handle_merge_crdt e crdt source a)) = ch_state a"
proof -
  have "ch_state (fold (apply_merged_member e c) us b) = ch_state b" for c us b
    by (induction us arbitrary: b) (simp_all add: apply_merged_member_def Let_def split: option.split)
  moreover have "ch_state (fold remove_member us b) = ch_state b" for us b
    by (induction us arbitrary: b) (simp_all add: actor_frame)
  ultimately show ?thesis
    by (simp add: handle_merge_crdt_def merged_state_def apply_merged_lists_def apply_merged_members_def
        apply_merged_modes_def apply_merged_topic_def Let_def prod.case_eq_if split: option.split)
qed

end
