(* ===== verification/Channel_Actor.thy ===== *)
theory Channel_Actor
  imports Actor_Message Actor_Remote
begin

text \<open>
  The channel actor as a whole (\<open>src/state/actor/mod.rs\<close>): the events of its mailbox
  (\<open>types.rs\<close>), their dispatch (\<open>handle_event\<close>), persistence (\<open>handle_check_and_save\<close>) and the loop that
  drains the mailbox (\<open>run\<close>).  Each event is handled in an environment of its own.
\<close>

section \<open>Events and replies\<close>

record channel_info =
  ci_name :: string
  ci_topic :: "topic option"
  ci_member_count :: nat
  ci_created :: int
  ci_modes :: "channel_mode list"
  ci_is_member :: bool
  ci_members :: "uid list"

datatype channel_event =
    EvJoin join_params
  | EvPart uid "string option" msg_prefix int
  | EvQuit uid message bool
  | EvDetach uid
  | EvMessage channel_message_params
  | EvGetInfo "uid option"
  | EvMergeCrdt channel_crdt "server_id option"
  | EvGetList string
  | EvGetMembers
  | EvGetMemberModes uid
  | EvApplyModes mode_params
  | EvKick kick_params
  | EvSetTopic topic_params
  | EvInvite invite_params
  | EvKnock uid msg_prefix
  | EvBroadcast message "uid option"
  | EvBroadcastWithCap message "uid list" "string option" "message option"
  | EvUpdateCaps uid "string list"
  | EvNickChange uid string
  | EvClear uid msg_prefix clear_target int
  | EvRemoteMode "64 word" string string "string list"
  | EvRemoteTopic "64 word" string string
  | EvRemoteKick string uid string
  | EvNetsplitQuit uid
  | EvMetadata metadata_command
  | EvAttachSender uid sender
  | EvCheckAndSave

datatype reply =
    JoinReply "channel_error + join_success_data"
  | PartReply "channel_error + nat"
  | CountReply nat
  | RouteReply channel_route_result
  | InfoReply channel_info
  | ListReply "list_entry list"
  | MembersReply "(uid \<times> member_modes) list"
  | MemberModesReply "member_modes option"
  | ModesReply "channel_error + proto_mode mode list"
  | ResultReply "channel_error + unit"
  | MetadataReply "channel_error + (string \<times> string) list"
  | DoneReply

section \<open>Persistence\<close>

fun key_of :: "channel_mode \<Rightarrow> string option" where
  "key_of (MKey k _) = Some k"
| "key_of _ = None"

fun limit_of :: "channel_mode \<Rightarrow> nat option" where
  "limit_of (MLimit l _) = Some l"
| "limit_of _ = None"

fun find_map :: "('a \<Rightarrow> 'b option) \<Rightarrow> 'a list \<Rightarrow> 'b option" where
  "find_map f [] = None"
| "find_map f (x # xs) = (case f x of Some y \<Rightarrow> Some y | None \<Rightarrow> find_map f xs)"

text \<open>\<open>*l as i32\<close> truncates.\<close>

definition usize_as_i32 :: "nat \<Rightarrow> int" where
  "usize_as_i32 l = sint (of_nat l :: 32 word)"

definition saved_state_of :: "env \<Rightarrow> channel_actor \<Rightarrow> saved_state" where
  "saved_state_of e a =
    \<lparr>sv_name = ch_name a, sv_modes = modes_to_string (ch_modes a),
     sv_topic = map_option tp_text (ch_topic a), sv_topic_set_by = map_option tp_set_by (ch_topic a),
     sv_topic_set_at = map_option tp_set_at (ch_topic a), sv_created_at = ch_created a,
     sv_key = find_map key_of (ch_modes a), sv_user_limit = map_option usize_as_i32 (find_map limit_of (ch_modes a)),
     sv_metadata = (if ch_metadata a = [] then None else env_metadata_json e (ch_metadata a))\<rparr>"

definition handle_check_and_save :: "env \<Rightarrow> channel_actor \<Rightarrow> channel_actor \<times> effect list" where
  "handle_check_and_save e a =
    (if \<not> ch_dirty a then (a, [])
     else if env_matrix e
     then (if env_save_ok e then a\<lparr>ch_dirty := False\<rparr> else a, [SaveState (saved_state_of e a)])
     else (a, []))"

section \<open>Dispatch\<close>

definition handle_nick_change :: "uid \<Rightarrow> string \<Rightarrow> channel_actor \<Rightarrow> channel_actor" where
  "handle_nick_change uid new_nick a =
    (if map_of (ch_user_nicks a) uid \<noteq> None
     then a\<lparr>ch_user_nicks := AList.update uid new_nick (ch_user_nicks a)\<rparr> else a)"

definition channel_info_of :: "uid option \<Rightarrow> channel_actor \<Rightarrow> channel_info" where
  "channel_info_of requester a =
    \<lparr>ci_name = ch_name a, ci_topic = ch_topic a, ci_member_count = length (ch_members a),
     ci_created = ch_created a, ci_modes = ch_modes a,
     ci_is_member = (case requester of Some u \<Rightarrow> is_member a u | None \<Rightarrow> False),
     ci_members = keys (ch_members a)\<rparr>"

definition list_of :: "string \<Rightarrow> channel_actor \<Rightarrow> list_entry list" where
  "list_of c a =
    (if c = ''b'' then ch_bans a else if c = ''e'' then ch_excepts a
     else if c = ''I'' then ch_invex a else if c = ''q'' then ch_quiets a else [])"

fun handle_event :: "env \<Rightarrow> channel_event \<Rightarrow> channel_actor \<Rightarrow> channel_actor \<times> effect list \<times> reply option" where
  "handle_event e (EvJoin p) a =
    (case handle_join e p a of (a, effs, r) \<Rightarrow> (a, effs, map_option JoinReply r))"
| "handle_event e (EvPart uid reason prefix nanotime) a =
    (case handle_part e uid reason prefix nanotime a of (a, effs, r) \<Rightarrow> (a, effs, map_option PartReply r))"
| "handle_event e (EvQuit uid quit_msg has_reply) a =
    (case handle_quit e uid quit_msg has_reply a of (a, effs, r) \<Rightarrow> (a, effs, map_option CountReply r))"
| "handle_event e (EvDetach uid) a =
    (case (if is_member a uid then cleanup_if_empty e (remove_member uid a) else (a, [])) of (a, effs) \<Rightarrow>
       (a, effs, Some (CountReply (length (ch_members a)))))"
| "handle_event e (EvMessage p) a =
    (case handle_message e p a of (a, effs, r) \<Rightarrow> (a, effs, map_option RouteReply r))"
| "handle_event e (EvBroadcast msg exclude) a = (a, handle_broadcast e msg exclude a, None)"
| "handle_event e (EvBroadcastWithCap msg exclude required_cap fallback) a =
    (a, handle_broadcast_with_cap e msg exclude required_cap fallback a, None)"
| "handle_event e (EvUpdateCaps uid caps) a =
    (if is_member a uid then a\<lparr>ch_user_caps := AList.update uid caps (ch_user_caps a)\<rparr> else a, [], None)"
| "handle_event e (EvGetInfo requester) a = (a, [], Some (InfoReply (channel_info_of requester a)))"
| "handle_event e (EvMergeCrdt crdt source) a =
    (case handle_merge_crdt e crdt source a of (a, effs) \<Rightarrow> (a, effs, None))"
| "handle_event e (EvGetList c) a = (a, [], Some (ListReply (list_of c a)))"
| "handle_event e EvGetMembers a = (a, [], Some (MembersReply (ch_members a)))"
| "handle_event e (EvGetMemberModes uid) a = (a, [], Some (MemberModesReply (map_of (ch_members a) uid)))"
| "handle_event e (EvApplyModes p) a =
    (case handle_apply_modes e p a of (a, effs, r) \<Rightarrow> (a, effs, map_option ModesReply r))"
| "handle_event e (EvKick p) a =
    (case handle_kick e p a of (a, effs, r) \<Rightarrow> (a, effs, map_option ResultReply r))"
| "handle_event e (EvSetTopic p) a =
    (case handle_set_topic e p a of (a, effs, r) \<Rightarrow> (a, effs, map_option ResultReply r))"
| "handle_event e (EvInvite p) a =
    (case handle_invite e p a of (a, effs, r) \<Rightarrow> (a, effs, map_option ResultReply r))"
| "handle_event e (EvKnock uid prefix) a =
    (case handle_knock e uid prefix a of (a, effs, r) \<Rightarrow> (a, effs, map_option ResultReply r))"
| "handle_event e (EvNickChange uid new_nick) a = (handle_nick_change uid new_nick a, [], None)"
| "handle_event e (EvClear uid prefix target nanotime) a =
    (case handle_clear e prefix target nanotime a of (a, effs, r) \<Rightarrow> (a, effs, map_option ResultReply r))"
| "handle_event e (EvRemoteMode ts setter modes args) a = (handle_remote_mode e ts setter modes args a, [], None)"
| "handle_event e (EvRemoteTopic ts setter topic) a = (handle_remote_topic e ts setter topic a, [], None)"
| "handle_event e (EvRemoteKick sender_text target reason) a =
    (case handle_remote_kick e sender_text target (Some reason) a of (a, effs) \<Rightarrow> (a, effs, None))"
| "handle_event e (EvNetsplitQuit uid) a = (remove_member uid a, [], Some DoneReply)"
| "handle_event e (EvMetadata command) a =
    (case handle_metadata command a of (a, r) \<Rightarrow> (a, [], Some (MetadataReply r)))"
| "handle_event e (EvAttachSender uid tx) a =
    (if is_member a uid then a\<lparr>ch_senders := AList.update uid tx (ch_senders a)\<rparr> else a, [], None)"
| "handle_event e EvCheckAndSave a = (case handle_check_and_save e a of (a, effs) \<Rightarrow> (a, effs, None))"

text \<open>The loop over the mailbox: final state and all effects.\<close>

fun run :: "(env \<times> channel_event) list \<Rightarrow> channel_actor \<Rightarrow> channel_actor \<times> effect list" where
  "run [] a = (a, [])"
| "run ((e, ev) # evs) a =
    (case handle_event e ev a of (a, effs, _) \<Rightarrow> (case run evs a of (a, effs2) \<Rightarrow> (a, effs @ effs2)))"

section \<open>Event loops\<close>

text \<open>The contract of an actor loop: a step per event and a predicate no step breaks.\<close>

locale event_loop =
  fixes step :: "'ev \<Rightarrow> 's \<Rightarrow> 's" and inv :: "'s \<Rightarrow> bool" and allowed :: "'ev \<Rightarrow> bool"
  assumes step_inv: "allowed ev \<Longrightarrow> inv s \<Longrightarrow> inv (step ev s)"
begin

lemma fold_inv: "list_all allowed evs \<Longrightarrow> inv s \<Longrightarrow> inv (fold step evs s)"
  by (induction evs arbitrary: s) (simp_all add: step_inv)

end

definition actor_step :: "env \<times> channel_event \<Rightarrow> channel_actor \<Rightarrow> channel_actor" where
  "actor_step ev a = fst (handle_event (fst ev) (snd ev) a)"

lemma fst_run: "fst (run evs a) = fold actor_step evs a"
  by (induction evs arbitrary: a) (auto simp: actor_step_def prod.case_eq_if)

text \<open>The states an actor can reach from its spawn.\<close>

inductive reachable :: "channel_actor \<Rightarrow> bool" where
  spawned: "\<lbrakk>\<And>m. initial_modes = Some m \<Longrightarrow> modes_ok m; \<And>m. initial_metadata = Some m \<Longrightarrow> metadata_ok m\<rbrakk> \<Longrightarrow>
    reachable (spawn e name t initial_modes initial_metadata c obs)"
| handled: "reachable a \<Longrightarrow> reachable (fst (handle_event e ev a))"

lemma member_dom: "is_member a u \<Longrightarrow> u \<in> dom (map_of (ch_members a))"
  by (auto simp: is_member_def)

lemma wf_handle_event [inv_intros]:
  assumes "actor_wf a"
  shows "actor_wf (fst (handle_event e ev a))"
proof -
  have "is_member a u \<Longrightarrow> actor_wf (a\<lparr>ch_user_caps := AList.update u c (ch_user_caps a)\<rparr>)"
    "is_member a u \<Longrightarrow> actor_wf (a\<lparr>ch_senders := AList.update u tx (ch_senders a)\<rparr>)" for u c tx
    using assms by (simp_all add: actor_wf_def tables_ok_caps tables_ok_sender member_dom)
  moreover have "map_of (ch_user_nicks a) u \<noteq> None \<Longrightarrow>
      actor_wf (a\<lparr>ch_user_nicks := AList.update u n (ch_user_nicks a)\<rparr>)" for u n
    using assms tables_ok_nick [of u "ch_user_nicks a"] by (simp add: actor_wf_def domIff)
  ultimately show ?thesis
    using assms
    by (cases ev) (simp_all add: prod.case_eq_if inv_intros handle_nick_change_def handle_check_and_save_def)
qed

interpretation actor: event_loop actor_step actor_wf "\<lambda>_. True"
  by unfold_locales (simp add: actor_step_def wf_handle_event)

end
