(* ===== verification/Actor_Membership.thy ===== *)
theory Actor_Membership
  imports Channel_Actor
begin

text \<open>
  Who is in a channel: the invariant of every reachable actor, the end of a channel, and what joining,
  leaving, kicking and inviting do to the membership tables.
\<close>

section \<open>A small channel\<close>

text \<open>An environment and a channel with one operator, on which the statements below are tried.\<close>

definition sample_env :: env where
  "sample_env =
    \<lparr>env_matrix = True, env_server_id = ServerId ''001'', env_hash = (\<lambda>_. 0), env_millis = 5000,
     env_nanos = Some 5000000000, env_instant = 10, env_uuid = ''msg-1'', env_time_text = ''now'',
     env_users = [(''001AAAAAA'', \<lparr>ui_session_id = ''s1'', ui_account = None, ui_caps = []\<rparr>)],
     env_account_sessions = (\<lambda>_. []), env_first_uid = (\<lambda>_. None), env_first_sender = (\<lambda>_. None),
     env_router = 0, env_senders = (\<lambda>_. None), env_session_caps = (\<lambda>_. None), env_links = [],
     env_route = (\<lambda>_. None), env_try_send = (\<lambda>_. SendOk), env_join_quota = (\<lambda>_. True),
     env_join_limited = False, env_message_limited = False, env_multiclient = False,
     env_censored_words = [], env_lowercase = (\<lambda>s. s), env_is_uppercase = (\<lambda>_. False),
     env_is_alphabetic = (\<lambda>_. False), env_metadata_json = (\<lambda>_. None), env_save_ok = True\<rparr>"

definition sample_channel :: channel_actor where
  "sample_channel = (spawn sample_env ''#c'' None None None None True)
    \<lparr>ch_members := [(''001AAAAAA'', default_modes\<lparr>mo_op := True\<rparr>)],
     ch_user_nicks := [(''001AAAAAA'', ''alice'')], ch_senders := [(''001AAAAAA'', 1)],
     ch_user_caps := [(''001AAAAAA'', [])]\<rparr>"

lemma sample_channel_wf: "actor_wf sample_channel"
  by (simp add: sample_channel_def spawn_def actor_wf_def tables_ok_def invites_ok_def metadata_ok_def)

section \<open>The invariant of reachable actors\<close>

inductive_cases reachable_cases: "reachable a"

text \<open>C1. Every state an actor can reach from its spawn, by any sequence of events in any
  environments, is in good order: the sender, nickname and capability tables hold members only and no
  user twice, there is at most one mode of each kind with a parameter, at most a hundred pending
  invitations, none twice, and at most a hundred metadata entries.\<close>

theorem reachable_actor_wf:
  assumes "reachable a"
  shows "actor_wf a"
  using assms
proof induction
  case (spawned initial_modes initial_metadata e name t c obs)
  then show ?case by (rule wf_spawn)
next
  case (handled a e ev)
  then show ?case by (simp add: wf_handle_event)
qed

theorem reachable_actor_wf_witness:
  "reachable (fst (handle_event sample_env (EvMetadata (MetadataSet ''k'' (Some ''v'')))
     (spawn sample_env ''#c'' None (Some [MSecret]) None None False))) \<and>
   actor_wf (fst (handle_event sample_env (EvMetadata (MetadataSet ''k'' (Some ''v'')))
     (spawn sample_env ''#c'' None (Some [MSecret]) None None False)))"
proof -
  have "reachable (spawn sample_env ''#c'' None (Some [MSecret]) None None False)"
    by (rule reachable.spawned) (auto simp: modes_ok_def inj_on_def)
  note r = reachable.handled [OF this, of sample_env "EvMetadata (MetadataSet ''k'' (Some ''v''))"]
  show ?thesis using r reachable_actor_wf [OF r] by (rule conjI)
qed

section \<open>The end of a channel\<close>

definition drained :: "channel_actor \<Rightarrow> bool" where
  "drained a \<longleftrightarrow> ch_state a = Draining \<and> ch_members a = []"

definition is_merge :: "channel_event \<Rightarrow> bool" where
  "is_merge ev \<longleftrightarrow> (case ev of EvMergeCrdt _ _ \<Rightarrow> True | _ \<Rightarrow> False)"

lemma no_members_iff: "keys ms = keys ms' \<Longrightarrow> ms = [] \<longleftrightarrow> ms' = []"
  by auto

lemma drained_same_keys:
  "drained a \<Longrightarrow> ch_state b = ch_state a \<Longrightarrow> keys (ch_members b) = keys (ch_members a) \<Longrightarrow> drained b"
  using no_members_iff [of "ch_members b" "ch_members a"] by (simp add: drained_def)

lemma drained_not_member: "drained a \<Longrightarrow> \<not> is_member a u"
  by (simp add: drained_def is_member_def)

lemma drained_handle_join: "drained a \<Longrightarrow> handle_join e p a = (a, [], Some (Inl ChannelTombstone))"
  by (simp add: drained_def handle_join_def)

lemma drained_removed: "drained a \<Longrightarrow> drained (remove_member u a)"
  by (simp add: drained_def remove_member_def)

lemma drained_handle_kick: "drained a \<Longrightarrow> drained (fst (handle_kick e p a))"
  by (simp add: handle_kick_def Let_def drained_not_member)

lemma drained_quit: "drained a \<Longrightarrow> drained (fst (handle_quit e u m r a))"
  by (simp add: handle_quit_def drained_not_member cleanup_draining drained_def is_member_def)

lemma drained_part: "drained a \<Longrightarrow> drained (fst (handle_part e u r pre n a))"
  by (simp add: handle_part_def drained_not_member)

lemma drained_remote_kick: "drained a \<Longrightarrow> drained (fst (handle_remote_kick e s t r a))"
  by (auto simp: handle_remote_kick_def drained_def remove_member_def cleanup_if_empty_def Let_def
      prod.case_eq_if actor_frame split: option.split)

lemma drained_message: "drained a \<Longrightarrow> drained (fst (handle_message e p a))"
  by (simp add: drained_def drained_handle_message no_members_handle_message)

lemma drained_step:
  assumes "drained a" and "\<not> is_merge ev"
  shows "drained (fst (handle_event e ev a))"
proof -
  note frames = drained_same_keys [OF assms(1)]
  have "drained (fst (handle_apply_modes e p a))" "drained (fst (handle_clear e pre t n a))"
    "drained (handle_remote_mode e ts setter str params a)" "drained (handle_remote_topic e ts setter tt a)"
    for p pre t n ts setter str params tt
    by (rule frames; simp add: actor_frame)+
  moreover have "drained (fst (handle_set_topic e p a))" "drained (fst (handle_invite e ip a))"
    "drained (fst (handle_knock e u pre a))" "drained (fst (handle_metadata md a))" for p ip u pre md
    using assms(1) by (simp_all add: drained_def handle_set_topic_def handle_invite_def handle_knock_def
        handle_metadata_def Let_def prod.case_eq_if actor_frame split: metadata_command.split option.split)
  moreover have "drained (handle_nick_change u n a)" "drained (fst (handle_check_and_save e a))" for u n
    using assms(1) by (simp_all add: drained_def handle_nick_change_def handle_check_and_save_def)
  ultimately show ?thesis
    using assms by (cases ev) (simp_all add: prod.case_eq_if drained_handle_join drained_part drained_quit
        drained_not_member drained_message drained_handle_kick drained_remote_kick drained_removed is_merge_def)
qed

interpretation drain: event_loop actor_step drained "\<lambda>(_, ev). \<not> is_merge ev"
  by unfold_locales (auto simp: actor_step_def drained_step)

text \<open>C18. The end of a channel is final for clients: once the actor drains without members, no sequence
  of events other than merges of another server's state gives it a member again, and every attempt to
  join is answered with the tombstone error, changes nothing and sends nothing.\<close>

theorem drained_stays_empty:
  assumes "ch_state a = Draining" and "ch_members a = []" and "list_all (\<lambda>(_, ev). \<not> is_merge ev) evs"
  shows "ch_state (fst (run evs a)) = Draining \<and> ch_members (fst (run evs a)) = [] \<and>
    handle_join e p (fst (run evs a)) = (fst (run evs a), [], Some (Inl ChannelTombstone))"
proof -
  have "drained (fst (run evs a))"
    unfolding fst_run using assms by (intro drain.fold_inv) (simp_all add: drained_def)
  then show ?thesis by (simp add: drained_def drained_handle_join)
qed

theorem drained_stays_empty_witness:
  "ch_members (fst (run [(sample_env, EvKnock ''001AAAAAA'' (ServerName ''s'')), (sample_env, EvCheckAndSave)]
     ((spawn sample_env ''#c'' None None None None True)\<lparr>ch_state := Draining\<rparr>))) = []"
  using drained_stays_empty [of "(spawn sample_env ''#c'' None None None None True)\<lparr>ch_state := Draining\<rparr>"
      "[(sample_env, EvKnock ''001AAAAAA'' (ServerName ''s'')), (sample_env, EvCheckAndSave)]"]
  by (simp add: is_merge_def spawn_def)

section \<open>Joining\<close>

text \<open>What the modes and lists of a channel ask of a user who joins.\<close>

definition invited_to :: "env \<Rightarrow> uid \<Rightarrow> channel_actor \<Rightarrow> bool" where
  "invited_to e u a \<longleftrightarrow> u \<in> iv_uid ` set (ch_invites (prune_invites e a))"

definition invite_exempt :: "join_params \<Rightarrow> channel_actor \<Rightarrow> bool" where
  "invite_exempt p a \<longleftrightarrow> (\<exists>x \<in> set (ch_invex a).
    matches_ban_or_except (en_mask x) (create_user_mask (jp_user_context p)) (jp_user_context p))"

definition join_allowed :: "env \<Rightarrow> join_params \<Rightarrow> channel_actor \<Rightarrow> bool" where
  "join_allowed e p a \<longleftrightarrow>
    ch_state a = Active \<and> session_valid e (jp_uid p) (jp_session_id p) \<and>
    (is_banned (create_user_mask (jp_user_context p)) (jp_user_context p) (ch_bans a) (ch_excepts a) \<or>
       MInviteOnly \<in> set (ch_modes a) \<longrightarrow> invited_to e (jp_uid p) a \<or> invite_exempt p a) \<and>
    (\<forall>n ts. MLimit n ts \<in> set (ch_modes a) \<longrightarrow> length (ch_members a) < n) \<and>
    (\<forall>k ts. MKey k ts \<in> set (ch_modes a) \<longrightarrow> (case jp_key p of Some given \<Rightarrow> given | None \<Rightarrow> []) = k) \<and>
    (ch_flood_join_limiter a \<noteq> None \<longrightarrow> \<not> env_join_limited e) \<and>
    (MRegisteredOnly \<in> set (ch_modes a) \<longrightarrow> ctx_is_registered (jp_user_context p)) \<and>
    (MTlsOnly \<in> set (ch_modes a) \<longrightarrow> ctx_is_tls (jp_user_context p)) \<and>
    (MOperOnly \<in> set (ch_modes a) \<longrightarrow> ctx_is_oper (jp_user_context p)) \<and>
    (MAdminOnly \<in> set (ch_modes a) \<longrightarrow> ctx_oper_type (jp_user_context p) = Some ''admin'')"

lemma limit_error_None: "limit_error n all ms = None \<longleftrightarrow> (\<forall>l ts. MLimit l ts \<in> set ms \<longrightarrow> n < l)"
  by (induction n all ms rule: limit_error.induct) auto

lemma good_key_iff:
  "\<not> bad_key k ms \<longleftrightarrow> (\<forall>key ts. MKey key ts \<in> set ms \<longrightarrow> (case k of Some given \<Rightarrow> given | None \<Rightarrow> []) = key)"
  by (induction k ms rule: bad_key.induct) auto

lemma join_checks_None:
  "join_checks e p a invited = None \<longleftrightarrow>
    (is_banned (create_user_mask (jp_user_context p)) (jp_user_context p) (ch_bans a) (ch_excepts a) \<or>
       MInviteOnly \<in> set (ch_modes a) \<longrightarrow> invited \<or> invite_exempt p a) \<and>
    limit_error (length (ch_members a)) (ch_modes a) (ch_modes a) = None \<and> \<not> bad_key (jp_key p) (ch_modes a)"
  by (auto simp: join_checks_def Let_def has_mode_def invite_exempt_def list_ex_iff split: option.split)

lemma join_late_checks_None:
  "join_late_checks p a = None \<longleftrightarrow>
    (MRegisteredOnly \<in> set (ch_modes a) \<longrightarrow> ctx_is_registered (jp_user_context p)) \<and>
    (MTlsOnly \<in> set (ch_modes a) \<longrightarrow> ctx_is_tls (jp_user_context p)) \<and>
    (MOperOnly \<in> set (ch_modes a) \<longrightarrow> ctx_is_oper (jp_user_context p)) \<and>
    (MAdminOnly \<in> set (ch_modes a) \<longrightarrow> ctx_oper_type (jp_user_context p) = Some ''admin'')"
  by (auto simp: join_late_checks_def Let_def has_mode_def)

lemma join_allowed_checks:
  "join_allowed e p a \<longleftrightarrow>
    ch_state a \<noteq> Draining \<and> session_valid e (jp_uid p) (jp_session_id p) \<and>
    join_checks e p (prune_invites e a) (invited_to e (jp_uid p) a) = None \<and>
    \<not> (ch_flood_join_limiter a \<noteq> None \<and> env_join_limited e) \<and> join_late_checks p (prune_invites e a) = None"
proof -
  have state: "ch_state a = Active \<longleftrightarrow> ch_state a \<noteq> Draining" by (cases "ch_state a") simp_all
  have exempt: "invite_exempt p (prune_invites e a) = invite_exempt p a"
    by (simp add: invite_exempt_def prune_invites_frame)
  show ?thesis
    unfolding join_allowed_def join_checks_None join_late_checks_None limit_error_None good_key_iff
      prune_invites_frame state exempt by blast
qed

lemma is_invited_pair: "is_invited e u a = (prune_invites e a, invited_to e u a)"
  by (auto simp: is_invited_def Let_def invited_to_def list_ex_iff)

lemma join_announce_frame [actor_frame]:
  "ch_members (fst (join_announce e p a)) = ch_members a" "ch_invites (fst (join_announce e p a)) = ch_invites a"
  "ch_modes (fst (join_announce e p a)) = ch_modes a" "ch_topic (fst (join_announce e p a)) = ch_topic a"
  "ch_name (fst (join_announce e p a)) = ch_name a"
  by (simp_all add: join_announce_def)

lemma join_insert_frame [actor_frame]:
  "ch_modes (join_insert p a) = ch_modes a" "ch_topic (join_insert p a) = ch_topic a"
  "ch_name (join_insert p a) = ch_name a"
  "ch_members (join_insert p a) = AList.update (jp_uid p) (joined_modes p a) (ch_members a)"
  "ch_invites (join_insert p a) = filter (\<lambda>i. iv_uid i \<noteq> jp_uid p) (ch_invites a)"
  by (simp_all add: join_insert_def Let_def remove_invite_def joined_modes_def)

lemma joined_modes_pruned: "joined_modes p (prune_invites e a) = joined_modes p a"
  by (simp add: joined_modes_def actor_frame)

lemma join_flood_frame [actor_frame]:
  "ch_members (fst (join_flood e a)) = ch_members a" "ch_senders (fst (join_flood e a)) = ch_senders a"
  by (simp_all add: join_flood_def Let_def)

lemma handle_join_allowed:
  assumes "join_allowed e p a"
  shows "handle_join e p a = (case join_announce e p (join_insert p (prune_invites e a)) of (b, effs) \<Rightarrow>
    (b, effs @ notify_observer e None b, Some (Inr \<lparr>js_topic = ch_topic b, js_channel_name = ch_name b,
       js_is_secret = has_mode b MSecret\<rparr>)))"
proof -
  from assms [unfolded join_allowed_checks] have "\<not> (ch_flood_join_limiter a \<noteq> None \<and> env_join_limited e)" by blast
  moreover note assms [unfolded join_allowed_checks]
  ultimately show ?thesis
    unfolding handle_join_def is_invited_pair by (simp only: actor_frame if_False if_True split option.case simp_thms)
qed

lemma handle_join_refused:
  assumes "\<not> join_allowed e p a"
  shows "(\<nexists>d. snd (snd (handle_join e p a)) = Some (Inr d)) \<and> ch_members (fst (handle_join e p a)) = ch_members a"
proof (cases "ch_state a = Draining \<or> \<not> session_valid e (jp_uid p) (jp_session_id p)")
  case True
  then show ?thesis by (auto simp: handle_join_def)
next
  case False
  let ?a = "prune_invites e a"
  obtain f effs where f: "join_flood e ?a = (f, effs)" by fastforce
  have "ch_members f = ch_members a"
    using join_flood_frame(1) [of e ?a] by (simp add: f prune_invites_frame)
  with False assms f show ?thesis
    by (cases "join_checks e p ?a (invited_to e (jp_uid p) a)"; cases "join_late_checks p ?a")
      (simp_all add: handle_join_def is_invited_pair prune_invites_frame join_allowed_checks)
qed

text \<open>C2. A join succeeds exactly when the channel's modes and lists allow it: the actor is active, the
  session is current, a banned user or a user of a \<open>+i\<close> channel is invited or exempt, and the limit,
  the key, the flood limiter and the registration, TLS, operator and admin modes are satisfied.  On
  success the user is a member (the operator, if there was nobody), the other members keep their modes
  and the invitation is used up; on refusal the members do not change.\<close>

theorem handle_join_correct:
  "case handle_join e p a of (b, effs, r) \<Rightarrow>
    if join_allowed e p a then
      r = Some (Inr \<lparr>js_topic = ch_topic a, js_channel_name = ch_name a,
                     js_is_secret = (MSecret \<in> set (ch_modes a))\<rparr>) \<and>
      map_of (ch_members b) = (map_of (ch_members a))(jp_uid p \<mapsto>
        (case map_of (ch_members a) (jp_uid p) of
           Some modes \<Rightarrow> modes
         | None \<Rightarrow> if ch_members a = [] then default_modes\<lparr>mo_op := True\<rparr>
             else (case jp_initial_modes p of Some modes \<Rightarrow> modes | None \<Rightarrow> default_modes))) \<and>
      jp_uid p \<notin> iv_uid ` set (ch_invites b)
    else (\<nexists>d. r = Some (Inr d)) \<and> ch_members b = ch_members a"
proof (cases "join_allowed e p a")
  case True
  let ?a = "prune_invites e a"
  obtain b effs where b: "join_announce e p (join_insert p ?a) = (b, effs)" by fastforce
  have frame: "ch_members b = AList.update (jp_uid p) (joined_modes p a) (ch_members a)"
    "ch_invites b = filter (\<lambda>i. iv_uid i \<noteq> jp_uid p) (ch_invites ?a)" "ch_modes b = ch_modes a"
    "ch_topic b = ch_topic a" "ch_name b = ch_name a"
    using join_announce_frame [of e p "join_insert p ?a"]
    by (simp_all add: b join_insert_frame prune_invites_frame joined_modes_pruned)
      (simp_all add: prune_invites_def)
  have "handle_join e p a = (b, effs @ notify_observer e None b,
      Some (Inr \<lparr>js_topic = ch_topic b, js_channel_name = ch_name b, js_is_secret = has_mode b MSecret\<rparr>))"
    using handle_join_allowed [OF True] by (simp add: b)
  then show ?thesis
    using True by (auto simp: frame has_mode_def hash_simps joined_modes_def)
next
  case False
  have "(\<nexists>d. snd (snd (handle_join e p a)) = Some (Inr d)) \<and> ch_members (fst (handle_join e p a)) = ch_members a"
    using False handle_join_refused by blast
  then show ?thesis using False by (simp add: prod.case_eq_if)
qed

section \<open>Leaving\<close>

lemma absent_same_tables:
  "absent u a \<Longrightarrow> ch_members b = ch_members a \<Longrightarrow> ch_senders b = ch_senders a \<Longrightarrow>
    ch_user_nicks b = ch_user_nicks a \<Longrightarrow> ch_user_caps b = ch_user_caps a \<Longrightarrow> absent u b"
  by (simp add: absent_def)

lemma cleanup_tables:
  "ch_senders (fst (cleanup_if_empty e a)) = ch_senders a" "ch_user_nicks (fst (cleanup_if_empty e a)) = ch_user_nicks a"
  "ch_user_caps (fst (cleanup_if_empty e a)) = ch_user_caps a"
  by (simp_all add: cleanup_if_empty_def)

lemma absent_cleanup: "absent u a \<Longrightarrow> absent u (fst (cleanup_if_empty e a))"
  by (erule absent_same_tables) (simp_all add: cleanup_frame cleanup_tables)

lemma length_delete_member:
  assumes "distinct (keys al)" and "map_of al u = Some m"
  shows "length (AList.delete u al) = length al - 1"
proof -
  have "u \<in> set (keys al)" using assms(2) by (force dest: map_of_SomeD)
  have "length (keys (AList.delete u al)) = length (removeAll u (keys al))"
    by (simp add: delete_keys removeAll_filter_not_eq eq_commute)
  also have "\<dots> = length (keys al) - 1"
    using assms(1) \<open>u \<in> set (keys al)\<close> by (simp add: distinct_remove1_removeAll [symmetric] length_remove1)
  finally show ?thesis by simp
qed

lemma remove_member_count:
  "actor_wf a \<Longrightarrow> is_member a u \<Longrightarrow> length (ch_members (remove_member u a)) = length (ch_members a) - 1"
  using length_delete_member [of "ch_members a" u]
  by (auto simp: actor_wf_def tables_ok_def remove_member_def is_member_def)

text \<open>The state after a user has left and the empty channel has been cleaned up.\<close>

definition has_left :: "uid \<Rightarrow> channel_actor \<Rightarrow> channel_actor \<Rightarrow> bool" where
  "has_left u a b \<longleftrightarrow>
    map_of (ch_members b) = (map_of (ch_members a))(u := None) \<and>
    map_of (ch_senders b) = (map_of (ch_senders a))(u := None) \<and>
    map_of (ch_user_nicks b) = (map_of (ch_user_nicks a))(u := None) \<and>
    map_of (ch_user_caps b) = (map_of (ch_user_caps a))(u := None) \<and>
    length (ch_members b) = length (ch_members a) - 1 \<and>
    (ch_state b = Draining \<longleftrightarrow>
      ch_state a = Draining \<or> length (ch_members a) = 1 \<and> MPermanent \<notin> set (ch_modes a)) \<and>
    b = a\<lparr>ch_members := ch_members b, ch_senders := ch_senders b, ch_user_nicks := ch_user_nicks b,
          ch_user_caps := ch_user_caps b, ch_state := ch_state b\<rparr>"

lemma cleanup_only_state:
  "fst (cleanup_if_empty e a) = a\<lparr>ch_state := ch_state (fst (cleanup_if_empty e a))\<rparr>"
  by (simp add: cleanup_if_empty_def)

lemma has_left_cleanup:
  assumes "actor_wf a" and "is_member a u"
  shows "has_left u a (fst (cleanup_if_empty e (remove_member u a)))"
proof -
  let ?r = "remove_member u a" let ?b = "fst (cleanup_if_empty e ?r)"
  have count: "length (ch_members ?r) = length (ch_members a) - 1"
    by (rule remove_member_count [OF assms])
  have "ch_members a \<noteq> []" using assms(2) by (auto simp: is_member_def)
  then have empty: "ch_members ?r = [] \<longleftrightarrow> length (ch_members a) = 1"
    using count by (cases "ch_members a") auto
  have "has_mode ?r MPermanent \<longleftrightarrow> MPermanent \<in> set (ch_modes a)"
    by (simp add: has_mode_def remove_member_def)
  then have "ch_state ?b = Draining \<longleftrightarrow>
      ch_state a = Draining \<or> length (ch_members a) = 1 \<and> MPermanent \<notin> set (ch_modes a)"
    using empty by (auto simp: cleanup_state state_remove_member)
  moreover have "?b = a\<lparr>ch_members := ch_members ?b, ch_senders := ch_senders ?b, ch_user_nicks := ch_user_nicks ?b,
          ch_user_caps := ch_user_caps ?b, ch_state := ch_state ?b\<rparr>"
    by (subst (1) cleanup_only_state) (simp add: cleanup_frame cleanup_tables remove_member_def)
  ultimately show ?thesis
    using count by (simp add: has_left_def cleanup_frame cleanup_tables) (simp add: remove_member_def hash_simps)
qed

text \<open>C19. Leaving works for every member of a well-formed actor: a part, a quit and a detach take the
  user out of the tables of members, senders, nicknames and capabilities, keep every other entry of
  them, and change nothing else of the actor but its state, which becomes draining exactly when nobody
  is left and the channel is not permanent (the set of silent members and the message limiters keep
  their entries).  The reply of each of the three is the number of members left.  For somebody who is
  not a member a part is an error and a detach reports the number of members; neither changes anything.\<close>

theorem leaving_correct:
  assumes "actor_wf a"
  shows "if is_member a u then
      has_left u a (fst (handle_part e u reason prefix nanotime a)) \<and>
      snd (snd (handle_part e u reason prefix nanotime a)) = Some (Inr (length (ch_members a) - 1)) \<and>
      has_left u a (fst (handle_quit e u quit_msg True a)) \<and>
      snd (snd (handle_quit e u quit_msg True a)) = Some (length (ch_members a) - 1) \<and>
      has_left u a (fst (handle_event e (EvDetach u) a)) \<and>
      snd (snd (handle_event e (EvDetach u) a)) = Some (CountReply (length (ch_members a) - 1))
    else handle_part e u reason prefix nanotime a = (a, [], Some (Inl NotOnChannel)) \<and>
      handle_event e (EvDetach u) a = (a, [], Some (CountReply (length (ch_members a))))"
  using has_left_cleanup [OF assms, of u e] remove_member_count [OF assms, of u]
  by (simp add: handle_part_def handle_quit_def Let_def prod.case_eq_if cleanup_frame)

theorem leaving_correct_witness:
  "is_member sample_channel ''001AAAAAA'' \<and>
   has_left ''001AAAAAA'' sample_channel
     (fst (handle_part sample_env ''001AAAAAA'' None (ServerName ''s'') 0 sample_channel))"
proof -
  have "is_member sample_channel ''001AAAAAA''" by (simp add: is_member_def sample_channel_def)
  then show ?thesis
    using leaving_correct [OF sample_channel_wf, of "''001AAAAAA''" sample_env None "ServerName ''s''" 0] by simp
qed

text \<open>The table of channels after the effects of an actor: \<open>RemoveChannel\<close> takes out one key.\<close>

fun remove_channels :: "effect list \<Rightarrow> (string \<times> sender) list \<Rightarrow> (string \<times> sender) list" where
  "remove_channels [] table = table"
| "remove_channels (RemoveChannel name_lower # effs) table = remove_channels effs (AList.delete name_lower table)"
| "remove_channels (_ # effs) table = remove_channels effs table"

lemma remove_channels_append: "remove_channels (xs @ ys) table = remove_channels ys (remove_channels xs table)"
  by (induction xs table rule: remove_channels.induct) auto

lemma remove_channels_members: "remove_channels (snd (broadcast_members pick exclude us)) table = table"
  by (induction us) (auto simp: prod.case_eq_if split: option.split)

lemma remove_channels_extra: "remove_channels (send_extra pick delivered us) table = table"
  by (induction pick delivered us rule: send_extra.induct) (auto split: option.split)

lemma remove_channels_quiet:
  "remove_channels (handle_broadcast_with_cap e msg exclude cap fallback a) table = table"
  "remove_channels (store_history e a item) table = table" "remove_channels (notify_observer e source a) table = table"
  by (simp_all add: handle_broadcast_with_cap_def Let_def prod.case_eq_if remove_channels_append
      remove_channels_members remove_channels_extra store_history_def notify_observer_def)

text \<open>C20. The last member to leave an active channel that is not permanent ends it, while the server's
  state is alive: the effects of the part end by telling the observer, deleting the saved state and
  removing one entry from the table of channels, in that order.  The entry removed is the one under
  the name in \<open>str::to_lowercase\<close>, and no other: an entry under a different key, such as the RFC 1459
  lower-case name under which a \<open>JOIN\<close> creates the channel, stays whenever the two differ.\<close>

theorem last_part_removes_channel:
  assumes "ch_members a = [(u, modes)]" and "ch_state a = Active" and "MPermanent \<notin> set (ch_modes a)"
    and "env_matrix e"
  shows "(\<exists>effs. fst (snd (handle_part e u reason prefix nanotime a)) =
      effs @ (if ch_observer a then [ObserverDestroy (ch_name a)] else []) @
        [DeleteState (ch_name a), RemoveChannel (to_lowercase e (ch_name a))]) \<and>
    map_of (remove_channels (fst (snd (handle_part e u reason prefix nanotime a))) table) key =
      (if key = to_lowercase e (ch_name a) then None else map_of table key)"
proof -
  have "is_member a u" by (simp add: is_member_def assms(1))
  moreover have "snd (cleanup_if_empty e (remove_member u a)) =
      (if ch_observer a then [ObserverDestroy (ch_name a)] else []) @
      [DeleteState (ch_name a), RemoveChannel (to_lowercase e (ch_name a))]"
    using assms by (simp add: cleanup_if_empty_def remove_member_def has_mode_def)
  ultimately show ?thesis
    by (auto simp: handle_part_def Let_def prod.case_eq_if remove_channels_append remove_channels_quiet hash_simps)
qed

theorem last_part_removes_channel_witness:
  "map_of (remove_channels (fst (snd (handle_part sample_env ''001AAAAAA'' None (ServerName ''s'') 0
        (sample_channel\<lparr>ch_name := ''#[x]''\<rparr>)))) [(''#{x}'', 7)]) ''#{x}'' = Some 7"
proof -
  let ?a = "sample_channel\<lparr>ch_name := ''#[x]''\<rparr>"
  have "ch_members ?a = [(''001AAAAAA'', default_modes\<lparr>mo_op := True\<rparr>)]" "ch_state ?a = Active"
    "MPermanent \<notin> set (ch_modes ?a)" "env_matrix sample_env"
    by (simp_all add: sample_channel_def spawn_def sample_env_def)
  note last_part_removes_channel [OF this, of None "ServerName ''s''" 0 "[(''#{x}'', 7)]" "''#{x}''"]
  moreover have "to_lowercase sample_env (ch_name ?a) = ''#[x]''" by (simp add: to_lowercase_def byte_of_def)
  ultimately show ?thesis by simp
qed

section \<open>Kicking\<close>

text \<open>Who may kick: an authorised caller, or an operator or half-operator unless the channel forbids
  kicks.\<close>

definition may_kick :: "kick_params \<Rightarrow> channel_actor \<Rightarrow> bool" where
  "may_kick p a \<longleftrightarrow> kp_force p \<or> kp_cap p \<or>
    MNoKicks \<notin> set (ch_modes a) \<and>
    (\<exists>m. map_of (ch_members a) (kp_sender_uid p) = Some m \<and> (mo_op m \<or> mo_halfop m))"

lemma default_modes_unprivileged [simp]: "\<not> mo_op default_modes" "\<not> mo_halfop default_modes"
  by (simp_all add: default_modes_def)

lemma member_modes_op:
  "mo_op (member_modes_or_default a u) \<or> mo_halfop (member_modes_or_default a u) \<longleftrightarrow>
    (\<exists>m. map_of (ch_members a) u = Some m \<and> (mo_op m \<or> mo_halfop m))"
  by (simp add: member_modes_or_default_def split: option.split)

text \<open>C21. A kick needs the right to kick and a target who is a member.  Then the target is in none of
  the tables, the time is recorded for the rejoin delay and everybody else stays as they are;
  otherwise the caller gets an error, the state is unchanged and nothing is sent.\<close>

theorem kick_correct:
  "case handle_kick e p a of (b, effs, r) \<Rightarrow>
    if may_kick p a \<and> is_member a (kp_target_uid p) then
      r = Some (Inr ()) \<and> absent (kp_target_uid p) b \<and>
      map_of (ch_kicked_users b) (kp_target_uid p) = Some (env_instant e) \<and>
      map_of (ch_members b) = (map_of (ch_members a))(kp_target_uid p := None)
    else b = a \<and> effs = [] \<and>
      r = Some (Inl (if may_kick p a then UserNotInChannel (kp_target_nick p)
         else if MNoKicks \<in> set (ch_modes a) then NoKicksActive else ChanOpPrivsNeeded))"
proof -
  let ?b = "remove_member (kp_target_uid p) (fst (send_to_senders e (\<lambda>_. \<lparr>msg_tags = None,
    msg_prefix = Some (kp_sender_prefix p),
    msg_command = KICK (ch_name a) (kp_target_nick p) (Some (kp_reason p))\<rparr>) a))"
  have "map_of (ch_members ?b) = (map_of (ch_members a))(kp_target_uid p := None)"
    by (simp add: remove_member_def hash_simps members_send_to_senders fun_eq_iff)
  moreover have "absent (kp_target_uid p) (?b\<lparr>ch_kicked_users := k\<rparr>)" for k
    by (rule absent_same_tables [OF absent_remove_member]) simp_all
  moreover have may: "may_kick p a \<longleftrightarrow> (kp_force p \<or> kp_cap p) \<or> \<not> has_mode a MNoKicks \<and>
      (mo_op (member_modes_or_default a (kp_sender_uid p)) \<or> mo_halfop (member_modes_or_default a (kp_sender_uid p)))"
    unfolding may_kick_def member_modes_op has_mode_def by blast
  ultimately show ?thesis
    by (auto simp: handle_kick_def Let_def prod.case_eq_if may has_mode_def hash_simps)
qed

end
