(* ===== verification/Actor_Authority.thy ===== *)
theory Actor_Authority
  imports Actor_Membership
begin

text \<open>
  Who can give power: which events can make a member an operator, and what a local mode change needs.
\<close>

section \<open>Operators\<close>

definition is_op_of :: "channel_actor \<Rightarrow> uid \<Rightarrow> bool" where
  "is_op_of a v \<longleftrightarrow> (\<exists>m. map_of (ch_members a) v = Some m \<and> mo_op m)"

text \<open>The events that only take members away.\<close>

definition shrinks :: "channel_actor \<Rightarrow> channel_actor \<Rightarrow> bool" where
  "shrinks a b \<longleftrightarrow> map_of (ch_members b) \<subseteq>\<^sub>m map_of (ch_members a)"

lemma shrinks_op: "shrinks a b \<Longrightarrow> is_op_of b v \<Longrightarrow> is_op_of a v"
  by (auto simp: shrinks_def is_op_of_def map_le_def dom_def)

lemma shrinks_same [simp]: "ch_members b = ch_members a \<Longrightarrow> shrinks a b"
  by (simp add: shrinks_def)

lemma shrinks_remove: "ch_members b = ch_members (remove_member u a) \<Longrightarrow> shrinks a b"
  by (auto simp: shrinks_def remove_member_def hash_simps map_le_def split: if_splits)

lemma shrinks_handlers:
  "shrinks a (fst (handle_part e u r pre n a))" "shrinks a (fst (handle_quit e u qm rep a))"
  "shrinks a (fst (handle_kick e kp a))" "shrinks a (fst (handle_set_topic e tp a))"
  "shrinks a (fst (handle_invite e ip a))" "shrinks a (fst (handle_knock e u pre a))"
proof -
  show "shrinks a (fst (handle_part e u r pre n a))"
    by (simp add: handle_part_def Let_def prod.case_eq_if cleanup_frame shrinks_remove)
  show "shrinks a (fst (handle_quit e u qm rep a))"
    by (simp add: handle_quit_def Let_def prod.case_eq_if cleanup_frame shrinks_remove)
  have "ch_members (remove_member t (fst (send_to_senders e m a))) = ch_members (remove_member t a)" for t m
    by (simp add: remove_member_def members_send_to_senders)
  then show "shrinks a (fst (handle_kick e kp a))"
    by (auto simp: handle_kick_def Let_def prod.case_eq_if intro: shrinks_remove)
  show "shrinks a (fst (handle_set_topic e tp a))" "shrinks a (fst (handle_invite e ip a))"
    "shrinks a (fst (handle_knock e u pre a))"
    by (simp_all add: handle_set_topic_def handle_invite_def handle_knock_def Let_def prod.case_eq_if actor_frame)
qed

lemma shrinks_message: "shrinks a (fst (handle_message e p a))"
proof -
  have "shrinks a (fst (flood_kick e p b))" if "ch_members b = ch_members a" for b
    using that by (auto simp: flood_kick_def Let_def prod.case_eq_if cleanup_frame remove_member_def
        intro!: shrinks_remove [where u = "cp_sender_uid p"])
  then show ?thesis
    by (simp add: handle_message_def Let_def prod.case_eq_if actor_frame split: option.split)
qed

lemma shrinks_remote_kick: "shrinks a (fst (handle_remote_kick e s t r a))"
  by (simp add: handle_remote_kick_def Let_def prod.case_eq_if actor_frame shrinks_remove [of _ t a])

section \<open>Mode changes\<close>

lemma clear_ops_none: "map_of (fst (clear_ops ns ms)) v = Some m \<Longrightarrow> \<not> mo_op m"
  by (induction ms) (auto simp: prod.case_eq_if split: if_splits)

lemma clear_voices_op:
  "map_of (fst (clear_voices ns ms)) v = Some m \<Longrightarrow> \<exists>m'. map_of ms v = Some m' \<and> mo_op m' = mo_op m"
  by (induction ms) (auto simp: prod.case_eq_if split: if_splits)

lemma handle_clear_op: "is_op_of (fst (handle_clear e pre t n a)) v \<Longrightarrow> is_op_of a v"
  using clear_ops_none [of "ch_user_nicks a" "ch_members a" v] clear_voices_op [of "ch_user_nicks a" "ch_members a" v]
  by (cases t) (auto simp: handle_clear_def Let_def prod.case_eq_if is_op_of_def)

lemma update_member_mode_op:
  assumes "is_op_of (fst (update_member_mode e u f a)) v"
  shows "is_op_of a v \<or> (u = v \<and> (\<exists>m. mo_op (f m) \<and> \<not> mo_op m))"
  using assms by (cases "map_of (ch_members a) u")
    (auto simp: update_member_mode_def is_op_of_def Let_def hash_simps split: if_splits)

lemma update_members_op:
  "is_op_of (fst (update_members e f us a c)) v \<Longrightarrow> is_op_of a v \<or> (v \<in> set us \<and> (\<exists>m. mo_op (f m) \<and> \<not> mo_op m))"
proof (induction us arbitrary: a c)
  case (Cons u us)
  then show ?case using update_member_mode_op [of e u f a v] by (fastforce simp: prod.case_eq_if)
qed simp

text \<open>A change that gives the user \<open>v\<close>, among the users the client's nicknames stand for, operator status.\<close>

definition grants_op :: "(string \<times> uid list) list \<Rightarrow> uid \<Rightarrow> proto_mode mode \<Rightarrow> bool" where
  "grants_op targets v md \<longleftrightarrow> mode_mode md = POper \<and> is_plus md \<and>
    (\<exists>nick uids. mode_arg md = Some nick \<and> map_of targets nick = Some uids \<and> v \<in> set uids)"

lemma apply_member_mode_op:
  "is_op_of (fst (apply_member_mode e targets f arg a)) v \<Longrightarrow> is_op_of a v \<or>
    ((\<exists>m. mo_op (f m) \<and> \<not> mo_op m) \<and> (\<exists>nick uids. arg = Some nick \<and> map_of targets nick = Some uids \<and> v \<in> set uids))"
  by (auto simp: apply_member_mode_def split: option.splits dest: update_members_op)

lemma is_op_frame: "ch_members b = ch_members a \<Longrightarrow> is_op_of b v = is_op_of a v"
  by (simp add: is_op_of_def)

lemma apply_mode_op:
  assumes "is_op_of (fst (apply_mode e pre targets md a)) v"
  shows "is_op_of a v \<or> grants_op targets v md"
proof -
  note member = apply_member_mode_op [of e targets _ "mode_arg md" a v]
  show ?thesis
  proof (cases "mode_mode md \<in> {PFounder, PAdmin, POper, PHalfop, PVoice}")
    case True
    then show ?thesis
      using assms member [of "mo_owner_update (\<lambda>_. is_plus md)"] member [of "mo_admin_update (\<lambda>_. is_plus md)"]
        member [of "mo_op_update (\<lambda>_. is_plus md)"] member [of "mo_halfop_update (\<lambda>_. is_plus md)"]
        member [of "mo_voice_update (\<lambda>_. is_plus md)"]
      by (auto simp: apply_mode_def Let_def grants_op_def)
  next
    case False
    then have "ch_members (fst (apply_mode e pre targets md a)) = ch_members a"
      by (cases "mode_mode md") (simp_all add: apply_mode_def Let_def prod.case_eq_if actor_frame split: option.split)
    then show ?thesis using assms is_op_frame by blast
  qed
qed

lemma apply_modes_loop_op:
  "is_op_of (fst (apply_modes_loop e pre targets mds a)) v \<Longrightarrow>
    is_op_of a v \<or> (\<exists>md \<in> set mds. grants_op targets v md)"
proof (induction mds arbitrary: a)
  case (Cons md mds)
  then show ?case using apply_mode_op [of e pre targets md a v] by (fastforce simp: prod.case_eq_if)
qed simp

lemma handle_apply_modes_op:
  assumes "is_op_of (fst (handle_apply_modes e p a)) v" and "\<not> is_op_of a v"
  shows "(mp_force p \<or> has_op_or_higher (member_modes_or_default a (mp_sender_uid p))) \<and>
    (\<exists>md \<in> set (mp_modes p). grants_op (mp_target_uids p) v md)"
proof -
  let ?b = "fst (apply_modes_loop e (mp_sender_prefix p) (mp_target_uids p) (mp_modes p) a)"
  have "is_op_of (fst (send_to_senders e msg ?b)) v = is_op_of ?b v" for msg
    by (rule is_op_frame) (simp add: actor_frame)
  then show ?thesis
    using assms apply_modes_loop_op [of e "mp_sender_prefix p" "mp_target_uids p" "mp_modes p" a v]
    by (auto simp: handle_apply_modes_def Let_def prod.case_eq_if split: if_splits)
qed

lemma apply_remote_mode_op:
  assumes "is_op_of (apply_remote_mode setter ts md a) v"
  shows "is_op_of a v \<or> md = Plus POper (Some v)"
proof -
  have modify: "is_op_of (modify_member arg f a) v \<Longrightarrow> is_op_of a v \<or> arg = Some v \<and> (\<exists>m. mo_op (f m) \<and> \<not> mo_op m)" for arg f
    by (auto simp: modify_member_def is_op_of_def hash_simps split: option.splits if_splits)
  have "is_op_of (apply_remote_mode_with_lww m arg setter ts adding a) v \<Longrightarrow>
      is_op_of a v \<or> m = POper \<and> arg = Some v \<and> adding" for m arg adding
  proof (cases "m \<in> {PFounder, PAdmin, POper, PHalfop, PVoice}")
    case True
    assume "is_op_of (apply_remote_mode_with_lww m arg setter ts adding a) v"
    with True show ?thesis
      using modify [of arg "mo_owner_update (\<lambda>_. adding)"] modify [of arg "mo_admin_update (\<lambda>_. adding)"]
        modify [of arg "mo_op_update (\<lambda>_. adding)"] modify [of arg "mo_halfop_update (\<lambda>_. adding)"]
        modify [of arg "mo_voice_update (\<lambda>_. adding)"]
      by (auto simp: apply_remote_mode_with_lww_def)
  next
    case False
    assume op: "is_op_of (apply_remote_mode_with_lww m arg setter ts adding a) v"
    from False have "ch_members (apply_remote_mode_with_lww m arg setter ts adding a) = ch_members a"
      by (cases m) (simp_all add: apply_remote_mode_with_lww_def apply_param_mode_lww_def
          apply_boolean_mode_lww_def Let_def split: option.split)
    with op show ?thesis using is_op_frame by blast
  qed
  then show ?thesis using assms by (cases md) auto
qed

lemma fold_remote_op:
  "is_op_of (fold (apply_remote_mode setter ts) mds a) v \<Longrightarrow> is_op_of a v \<or> Plus POper (Some v) \<in> set mds"
proof (induction mds arbitrary: a)
  case (Cons md mds)
  then show ?case using apply_remote_mode_op [of setter ts md a v] by fastforce
qed simp

lemma handle_remote_mode_op:
  assumes "is_op_of (handle_remote_mode e ts setter modes args a) v" and "\<not> is_op_of a v"
  shows "Plus POper (Some v) \<in> set (remote_parse_modes modes args)"
proof -
  have "is_op_of (a\<lparr>ch_created := c\<rparr>) v = is_op_of a v" for c by (rule is_op_frame) simp
  then show ?thesis
    using assms fold_remote_op by (fastforce simp: handle_remote_mode_def Let_def split: if_splits)
qed

lemma handle_join_op:
  assumes "is_op_of (fst (handle_join e p a)) v" and "\<not> is_op_of a v"
  shows "jp_uid p = v \<and> (ch_members a = [] \<or> (\<exists>m. jp_initial_modes p = Some m \<and> mo_op m))"
proof (cases "join_allowed e p a")
  case True
  have "ch_members (fst (handle_join e p a)) = AList.update (jp_uid p) (joined_modes p a) (ch_members a)"
    unfolding handle_join_allowed [OF True]
    by (simp add: prod.case_eq_if join_announce_frame join_insert_frame prune_invites_frame joined_modes_pruned)
  then show ?thesis
    using assms by (auto simp: is_op_of_def hash_simps joined_modes_def split: option.splits if_splits)
next
  case False
  then show ?thesis using assms handle_join_refused [OF False] is_op_frame by blast
qed

text \<open>C3. Nobody becomes an operator by accident: if an event makes a user an operator, it is the user
  founding an empty channel or joining with modes granted by the access list, a local mode change by an
  operator (or a forced one) that contains \<open>+o\<close> for the user, a remote \<open>+o\<close> for the user, or the merge of
  another server's state.  No other event can.\<close>

theorem operator_only_granted:
  assumes "is_op_of (fst (handle_event e ev a)) v" and "\<not> is_op_of a v"
  shows "case ev of
      EvJoin p \<Rightarrow> jp_uid p = v \<and> (ch_members a = [] \<or> (\<exists>m. jp_initial_modes p = Some m \<and> mo_op m))
    | EvApplyModes p \<Rightarrow>
        (mp_force p \<or> (\<exists>m. map_of (ch_members a) (mp_sender_uid p) = Some m \<and> has_op_or_higher m)) \<and>
        (\<exists>md \<in> set (mp_modes p). grants_op (mp_target_uids p) v md)
    | EvRemoteMode ts setter modes args \<Rightarrow> Plus POper (Some v) \<in> set (remote_parse_modes modes args)
    | EvMergeCrdt crdt source \<Rightarrow> True
    | _ \<Rightarrow> False"
proof -
  have shrink: "shrinks a b \<Longrightarrow> \<not> is_op_of b v" for b using shrinks_op assms(2) by blast
  have default: "has_op_or_higher (member_modes_or_default a u) \<longleftrightarrow>
      (\<exists>m. map_of (ch_members a) u = Some m \<and> has_op_or_higher m)" for u
    by (simp add: member_modes_or_default_def has_op_or_higher_def default_modes_def split: option.split)
  have "shrinks a (fst (handle_metadata c a))" "shrinks a (handle_nick_change u nick a)"
    "shrinks a (fst (handle_check_and_save e a))" "shrinks a (handle_remote_topic e ts s t a)" for c u nick ts s t
    by (simp_all add: handle_metadata_def handle_nick_change_def handle_check_and_save_def actor_frame
        split: metadata_command.split option.split)
  moreover have "shrinks a (fst (cleanup_if_empty e (remove_member u a)))" "shrinks a (remove_member u a)" for u
    by (simp_all add: shrinks_remove cleanup_frame)
  ultimately show ?thesis
    using assms shrink shrinks_handlers shrinks_message shrinks_remote_kick handle_apply_modes_op [of e _ a v]
      handle_remote_mode_op [of e _ _ _ _ a v] handle_join_op [of e _ a v] handle_clear_op [of e _ _ _ a v]
    by (cases ev) (auto simp: prod.case_eq_if default split: if_splits)
qed

theorem operator_only_granted_witness:
  "\<exists>md \<in> set [Plus POper (Some ''bob'')]. grants_op [(''bob'', [''001BBBBBB''])] ''001BBBBBB'' md"
proof -
  let ?a = "sample_channel\<lparr>ch_members := ch_members sample_channel @ [(''001BBBBBB'', default_modes)]\<rparr>"
  let ?p = "\<lparr>mp_sender_uid = ''001AAAAAA'', mp_sender_prefix = ServerName ''s'',
    mp_modes = [Plus POper (Some ''bob'')], mp_target_uids = [(''bob'', [''001BBBBBB''])], mp_force = False,
    mp_nanotime = 0\<rparr>"
  have "is_op_of (fst (handle_event sample_env (EvApplyModes ?p) ?a)) ''001BBBBBB''"
    by (simp add: is_op_of_def handle_apply_modes_def sample_channel_def member_modes_or_default_def
        has_op_or_higher_def apply_mode_def apply_member_mode_def update_member_mode_def default_modes_def
        prod.case_eq_if members_send_to_senders Let_def)
  moreover have "\<not> is_op_of ?a ''001BBBBBB''" by (simp add: is_op_of_def sample_channel_def default_modes_def)
  ultimately show ?thesis using operator_only_granted [of sample_env "EvApplyModes ?p" ?a "''001BBBBBB''"] by simp
qed

end
