(* ===== verification/Actor_Delivery.thy ===== *)
theory Actor_Delivery
  imports Actor_Membership
begin

text \<open>
  Who gets what: capability broadcasts reach each recipient once, the cached fan-out of a channel
  message sends what building every message afresh would send, and a message goes out exactly if the
  sender may speak.
\<close>

section \<open>The cache of built messages\<close>

text \<open>The key has every capability the built message depends on.\<close>

lemma four_bits:
  "of_bool a + 2 * of_bool b + 4 * of_bool c + 8 * of_bool d =
    of_bool a' + 2 * of_bool b' + 4 * of_bool c' + 8 * (of_bool d' :: nat) \<longleftrightarrow>
   a = a' \<and> b = b' \<and> c = c' \<and> d = d'"
  by (cases a; cases b; cases c; cases d; cases a'; cases b'; cases c'; cases d'; simp)

lemma build_msg_by_key:
  assumes "memo_key og caps = memo_key og caps'"
  shows "build_msg_for_recipient sid og [] (Some caps) = build_msg_for_recipient sid og [] (Some caps')"
proof -
  note keys = assms [unfolded memo_key_def four_bits]
  have "recipient_tags sid og [] (Some caps) = recipient_tags sid og [] (Some caps')"
    using keys by (cases "ctx_account (cp_user_context (og_params og))"; cases "cp_relaymsg_sender_nick (og_params og)")
      (simp_all add: recipient_tags_def has_caps_def Let_def)
  then show ?thesis using keys by (simp add: build_msg_for_recipient_def has_caps_def)
qed

definition memo_ok :: "string \<Rightarrow> outgoing \<Rightarrow> memo \<Rightarrow> bool" where
  "memo_ok sid og memo \<longleftrightarrow> (\<forall>caps. map_of memo (memo_key og caps) \<in>
    {None, Some (build_msg_for_recipient sid og [] (Some caps))})"

lemma memo_ok_empty [simp]: "memo_ok sid og []"
  by (simp add: memo_ok_def)

lemma memo_ok_lookup:
  "memo_ok sid og memo \<Longrightarrow> map_of memo (memo_key og caps) = Some msg \<Longrightarrow>
    build_msg_for_recipient sid og [] (Some caps) = msg"
  unfolding memo_ok_def by (drule spec [of _ caps]) simp

lemma memo_ok_update:
  assumes "memo_ok sid og memo"
  shows "memo_ok sid og (AList.update (memo_key og caps) (build_msg_for_recipient sid og [] (Some caps)) memo)"
  unfolding memo_ok_def
proof
  fix caps'
  show "map_of (AList.update (memo_key og caps) (build_msg_for_recipient sid og [] (Some caps)) memo) (memo_key og caps')
    \<in> {None, Some (build_msg_for_recipient sid og [] (Some caps'))}"
  proof (cases "memo_key og caps' = memo_key og caps")
    case True
    then show ?thesis using build_msg_by_key [OF True, of sid] by (simp add: hash_simps)
  next
    case False
    then show ?thesis using assms [unfolded memo_ok_def, rule_format, of caps'] by (simp add: hash_simps)
  qed
qed

lemma build_cached_msg_fresh:
  assumes "memo_ok sid og memo"
  shows "fst (build_cached_msg sid og caps memo) = build_msg_for_recipient sid og [] (Some caps) \<and>
    memo_ok sid og (snd (build_cached_msg sid og caps memo))"
  using assms memo_ok_update [OF assms, of caps] memo_ok_lookup [OF assms, of caps]
  by (cases "map_of memo (memo_key og caps)") (simp_all add: build_cached_msg_def Let_def)

section \<open>The fan-out without a cache\<close>

text \<open>The reference: every message is built for its session.  The state is the siblings served and the
  effects.\<close>

definition plain_sessions :: "env \<Rightarrow> string \<Rightarrow> outgoing \<Rightarrow> uid option \<Rightarrow> (string \<times> sender) list \<Rightarrow> effect list" where
  "plain_sessions e sid og direct ss =
    map (\<lambda>(session_id, tx). TrySend tx (build_msg_for_recipient sid og
          (case direct of Some uid \<Rightarrow> uid | None \<Rightarrow> []) (Some (session_caps e session_id))))
      (filter (\<lambda>(session_id, _). \<not> cp_is_tagmsg (og_params og) \<or> ''message-tags'' \<in> set (session_caps e session_id)) ss)"

definition plain_echo :: "env \<Rightarrow> outgoing \<Rightarrow> (string \<times> sender) list \<Rightarrow> effect list" where
  "plain_echo e og ss =
    map (\<lambda>(session_id, tx). TrySend tx ((og_base og)\<lparr>msg_tags := build_echo_tags (cp_tags (og_params og))
          (og_timestamp og) (og_msgid og) (''message-tags'' \<in> set (session_caps e session_id))
          (''server-time'' \<in> set (session_caps e session_id))\<rparr>))
      (filter (\<lambda>(session_id, _). session_id = cp_sender_session_id (og_params og) \<and>
         (''echo-message'' \<in> set (session_caps e session_id) \<or> cp_override_nick (og_params og) \<noteq> None)) ss)"

fun plain_siblings ::
  "env \<Rightarrow> channel_actor \<Rightarrow> outgoing \<Rightarrow> uid \<Rightarrow> string \<Rightarrow> (uid \<times> user_info) list \<Rightarrow>
    uid list \<times> effect list \<Rightarrow> uid list \<times> effect list" where
  "plain_siblings e a og uid account_lower [] st = st"
| "plain_siblings e a og uid account_lower ((sibling, info) # us) st =
    plain_siblings e a og uid account_lower us
      (if sibling = uid \<or> \<not> starts_with sibling (sid_str (ch_server_id a)) \<or> map_of (ch_senders a) sibling \<noteq> None \<or>
         sibling \<in> set (fst st) \<or> map_option irc_to_lower (ui_account info) \<noteq> Some account_lower
       then st
       else let new = (case env_senders e sibling of
                None \<Rightarrow> [] | Some sessions \<Rightarrow> plain_sessions e (sid_str (ch_server_id a)) og None sessions)
         in if new = [] then st else (List.insert sibling (fst st), snd st @ new))"

definition plain_account ::
  "env \<Rightarrow> channel_actor \<Rightarrow> outgoing \<Rightarrow> uid \<Rightarrow> uid list \<times> effect list \<Rightarrow> uid list \<times> effect list" where
  "plain_account e a og uid st =
    (if env_multiclient e \<and> starts_with uid (sid_str (ch_server_id a)) \<and> uid \<notin> set (fst st) \<and> env_matrix e
     then (case map_of (env_users e) uid of
         Some user \<Rightarrow> (case ui_account user of
             Some account \<Rightarrow> plain_siblings e a og uid (irc_to_lower account) (env_users e) st
           | None \<Rightarrow> st)
       | None \<Rightarrow> st)
     else st)"

text \<open>The sessions of a user.\<close>

definition sessions_of :: "env \<Rightarrow> uid \<Rightarrow> (string \<times> sender) list" where
  "sessions_of e uid = (if env_matrix e then (case env_senders e uid of Some ss \<Rightarrow> ss | None \<Rightarrow> []) else [])"

text \<open>A recipient of a message: not hidden by \<open>+U\<close>, with the status a STATUSMSG asks for.\<close>

definition receives :: "channel_actor \<Rightarrow> channel_message_params \<Rightarrow> uid \<Rightarrow> bool" where
  "receives a p uid \<longleftrightarrow>
    (MOpModerated \<in> set (ch_modes a) \<longrightarrow>
       member_has_voice_or_higher a (cp_sender_uid p) \<or> member_has_voice_or_higher a uid) \<and>
    recipient_wanted a p uid"

definition direct_to :: "channel_actor \<Rightarrow> uid \<Rightarrow> uid option" where
  "direct_to a uid = (if starts_with uid (sid_str (ch_server_id a)) then None else Some uid)"

definition plain_member ::
  "env \<Rightarrow> channel_actor \<Rightarrow> outgoing \<Rightarrow> uid \<Rightarrow> uid list \<times> effect list \<Rightarrow> uid list \<times> effect list" where
  "plain_member e a og uid st =
    (if uid = cp_sender_uid (og_params og)
     then plain_account e a og uid (fst st, snd st @ plain_echo e og (sessions_of e uid))
     else let new = plain_sessions e (sid_str (ch_server_id a)) og (direct_to a uid) (sessions_of e uid)
       in if receives a (og_params og) uid \<and> new \<noteq> [] then plain_account e a og uid (fst st, snd st @ new) else st)"

definition plain_fan_out :: "env \<Rightarrow> channel_actor \<Rightarrow> outgoing \<Rightarrow> effect list" where
  "plain_fan_out e a og = snd (fold (plain_member e a og) (keys (ch_members a)) ([], []))"

section \<open>The cached fan-out agrees\<close>

definition fan_rel :: "channel_actor \<Rightarrow> outgoing \<Rightarrow> fanout \<Rightarrow> uid list \<times> effect list \<Rightarrow> bool" where
  "fan_rel a og fo st \<longleftrightarrow> memo_ok (sid_str (ch_server_id a)) og (fo_memo fo) \<and> st = (fo_extra fo, fo_effs fo)"

lemma echo_sessions_effs:
  "fo_effs (echo_sessions e og ss fo) = fo_effs fo @ plain_echo e og ss \<and>
   fo_extra (echo_sessions e og ss fo) = fo_extra fo \<and> fo_memo (echo_sessions e og ss fo) = fo_memo fo"
  by (induction e og ss fo rule: echo_sessions.induct) (simp_all add: Let_def plain_echo_def)

lemma send_sessions_effs:
  assumes "memo_ok sid og (fo_memo fo)"
  shows "fo_effs (fst (send_sessions e sid og direct ss fo any)) = fo_effs fo @ plain_sessions e sid og direct ss \<and>
    fo_extra (fst (send_sessions e sid og direct ss fo any)) = fo_extra fo \<and>
    memo_ok sid og (fo_memo (fst (send_sessions e sid og direct ss fo any))) \<and>
    (snd (send_sessions e sid og direct ss fo any) \<longleftrightarrow> any \<or> plain_sessions e sid og direct ss \<noteq> [])"
  using assms
proof (induction e sid og direct ss fo any rule: send_sessions.induct)
  case (2 e sid og direct session_id tx ss fo any)
  let ?caps = "session_caps e session_id"
  show ?case
  proof (cases "cp_is_tagmsg (og_params og) \<and> ''message-tags'' \<notin> set ?caps")
    case True
    then show ?thesis using 2 by (simp add: plain_sessions_def)
  next
    case False
    obtain msg memo where mm: "(case direct of Some uid \<Rightarrow> (build_msg_for_recipient sid og uid (Some ?caps), fo_memo fo)
        | None \<Rightarrow> build_cached_msg sid og ?caps (fo_memo fo)) = (msg, memo)" by fastforce
    then have msg: "msg = build_msg_for_recipient sid og (case direct of Some uid \<Rightarrow> uid | None \<Rightarrow> []) (Some ?caps)"
      and memo: "memo_ok sid og memo"
      using build_cached_msg_fresh [OF 2(3), of ?caps] 2(3) by (auto split: option.splits)
    let ?fo = "fo\<lparr>fo_memo := memo, fo_sent := fo_sent fo + 1, fo_effs := fo_effs fo @ [TrySend tx msg]\<rparr>"
    have step: "send_sessions e sid og direct ((session_id, tx) # ss) fo any = send_sessions e sid og direct ss ?fo True"
      using False mm by (simp only: send_sessions.simps Let_def if_False prod.case)
    have plain: "plain_sessions e sid og direct ((session_id, tx) # ss) = TrySend tx msg # plain_sessions e sid og direct ss"
      using False msg by (auto simp: plain_sessions_def)
    show ?thesis
      unfolding step plain using 2(2) [OF refl False mm [symmetric]] memo by simp
  qed
qed (simp add: plain_sessions_def)

lemma send_siblings_rel:
  "fan_rel a og fo st \<Longrightarrow>
    fan_rel a og (send_siblings e a og uid account us fo) (plain_siblings e a og uid account us st)"
proof (induction us arbitrary: fo st)
  case (Cons u us)
  obtain sibling info where u: "u = (sibling, info)" by (cases u)
  have rel: "memo_ok (sid_str (ch_server_id a)) og (fo_memo fo)" "st = (fo_extra fo, fo_effs fo)"
    using Cons.prems by (simp_all add: fan_rel_def)
  show ?case
  proof (cases "env_senders e sibling")
    case None
    then show ?thesis using Cons.IH [OF Cons.prems] rel by (simp add: u Let_def)
  next
    case (Some sessions)
    let ?r = "send_sessions e (sid_str (ch_server_id a)) og None sessions fo False"
    note ss = send_sessions_effs [OF rel(1), of e None sessions False]
    have "fan_rel a og (if snd ?r then (fst ?r)\<lparr>fo_extra := List.insert sibling (fo_extra (fst ?r))\<rparr> else fst ?r)
      (let new = plain_sessions e (sid_str (ch_server_id a)) og None sessions
       in if new = [] then st else (List.insert sibling (fst st), snd st @ new))"
      using ss rel(2) by (simp add: fan_rel_def Let_def)
    note served = Cons.IH [OF this] and skipped = Cons.IH [OF Cons.prems]
    show ?thesis
    proof (cases "sibling = uid \<or> \<not> starts_with sibling (sid_str (ch_server_id a)) \<or>
        map_of (ch_senders a) sibling \<noteq> None \<or> sibling \<in> set (fo_extra fo) \<or>
        map_option irc_to_lower (ui_account info) \<noteq> Some account")
      case True
      then show ?thesis using skipped unfolding rel(2) by (auto simp: u)
    next
      case False
      then show ?thesis
        using served Some unfolding u send_siblings.simps plain_siblings.simps Let_def rel(2) prod.case_eq_if
        by (simp only: if_False option.case fst_conv snd_conv)
    qed
  qed
qed simp

lemma account_fan_out_rel:
  assumes "fan_rel a og fo st"
  shows "fan_rel a og (account_fan_out e a og uid fo) (plain_account e a og uid st)"
proof -
  have "fst st = fo_extra fo" using assms by (simp add: fan_rel_def)
  then show ?thesis
    using assms send_siblings_rel [OF assms, of e uid]
    unfolding account_fan_out_def plain_account_def by (simp split: option.split)
qed

lemma deliver_to_member_rel:
  assumes "fan_rel a og fo st"
  shows "fan_rel a og (deliver_to_member e a og uid fo) (plain_member e a og uid st)"
proof (cases "uid = cp_sender_uid (og_params og)")
  case True
  let ?fo = "if env_matrix e then (case env_senders e uid of Some ss \<Rightarrow> echo_sessions e og ss fo | None \<Rightarrow> fo) else fo"
  have "fan_rel a og ?fo (fst st, snd st @ plain_echo e og (sessions_of e uid))"
    using assms echo_sessions_effs [of e og _ fo]
    by (simp add: fan_rel_def sessions_of_def plain_echo_def [of e og "[]"] split: option.split)
  from account_fan_out_rel [OF this, of e uid] show ?thesis
    unfolding deliver_to_member_def plain_member_def Let_def True [symmetric] by simp
next
  case False
  let ?sid = "sid_str (ch_server_id a)"
  define r where "r = (if env_matrix e then (case env_senders e uid of
      Some ss \<Rightarrow> send_sessions e ?sid og (direct_to a uid) ss fo False | None \<Rightarrow> (fo, False)) else (fo, False))"
  define new where "new = plain_sessions e ?sid og (direct_to a uid) (sessions_of e uid)"
  have memo: "memo_ok ?sid og (fo_memo fo)" and st: "st = (fo_extra fo, fo_effs fo)"
    using assms by (simp_all add: fan_rel_def)
  have rel: "fan_rel a og (fst r) (fst st, snd st @ new)" and sent: "snd r \<longleftrightarrow> new \<noteq> []"
    using send_sessions_effs [OF memo, of e "direct_to a uid" _ False] memo st unfolding r_def new_def
    by (auto simp: fan_rel_def sessions_of_def plain_sessions_def [of e ?sid og _ "[]"] split: option.split)
  have deliver: "deliver_to_member e a og uid fo =
      (if receives a (og_params og) uid then (if snd r then account_fan_out e a og uid (fst r) else fst r) else fo)"
    unfolding deliver_to_member_def Let_def direct_to_def [symmetric] prod.case_eq_if has_mode_def receives_def r_def
    using False by (simp cong: if_cong)
  have plain: "plain_member e a og uid st =
      (if receives a (og_params og) uid then (if new \<noteq> [] then plain_account e a og uid (fst st, snd st @ new) else st) else st)"
    using False by (simp add: plain_member_def Let_def new_def)
  show ?thesis
    using assms rel account_fan_out_rel [OF rel, of e uid] unfolding deliver plain sent
    by (cases st) auto
qed

lemma fan_out_effs: "fo_effs (fan_out e a og) = plain_fan_out e a og"
proof -
  have "fan_rel a og fo st \<Longrightarrow>
      fan_rel a og (fold (deliver_to_member e a og) us fo) (fold (plain_member e a og) us st)" for us fo st
    by (induction us arbitrary: fo st) (simp_all add: deliver_to_member_rel)
  from this [of "\<lparr>fo_memo = [], fo_extra = [], fo_sent = 0, fo_effs = []\<rparr>" "([], [])" "keys (ch_members a)"]
  show ?thesis by (simp add: fan_rel_def fan_out_def plain_fan_out_def)
qed

text \<open>C15. The cache changes nothing: the messages a channel message is fanned out to, with at most one
  built message per combination of capabilities, are those that building every message for its
  session gives, in the same order.\<close>

theorem fan_out_eq_plain: "fo_effs (fan_out e a og) = plain_fan_out e a og"
  by (rule fan_out_effs)

text \<open>Without account fan-out, the effects of each member stand alone.\<close>

definition member_effects :: "env \<Rightarrow> channel_actor \<Rightarrow> outgoing \<Rightarrow> uid \<Rightarrow> effect list" where
  "member_effects e a og uid =
    (if uid = cp_sender_uid (og_params og) then plain_echo e og (sessions_of e uid)
     else if receives a (og_params og) uid
     then plain_sessions e (sid_str (ch_server_id a)) og (direct_to a uid) (sessions_of e uid) else [])"

lemma plain_member_single:
  "\<not> env_multiclient e \<Longrightarrow> plain_member e a og uid st = (fst st, snd st @ member_effects e a og uid)"
  by (cases st) (simp add: plain_member_def plain_account_def member_effects_def Let_def)

lemma plain_fan_out_single:
  assumes "\<not> env_multiclient e"
  shows "plain_fan_out e a og = concat (map (member_effects e a og) (keys (ch_members a)))"
proof -
  have "fold (plain_member e a og) us st = (fst st, snd st @ concat (map (member_effects e a og) us))" for us st
    by (induction us arbitrary: st) (simp_all add: plain_member_single [OF assms])
  then show ?thesis by (simp add: plain_fan_out_def)
qed

section \<open>Capability broadcasts\<close>

fun recipients :: "effect list \<Rightarrow> uid list" where
  "recipients [] = []"
| "recipients (SendToUid u _ # effs) = u # recipients effs"
| "recipients (_ # effs) = recipients effs"

lemma recipients_append: "recipients (xs @ ys) = recipients xs @ recipients ys"
  by (induction xs rule: recipients.induct) simp_all

lemma broadcast_members_spec:
  "fst (broadcast_members pick exclude us) = filter (\<lambda>u. u \<notin> set exclude \<and> pick u \<noteq> None) us \<and>
   snd (broadcast_members pick exclude us) =
     map (\<lambda>u. SendToUid u (the (pick u))) (filter (\<lambda>u. u \<notin> set exclude \<and> pick u \<noteq> None) us)"
  by (induction pick exclude us rule: broadcast_members.induct) (auto simp: prod.case_eq_if split: option.split)

lemma recipients_sends: "recipients (map (\<lambda>u. SendToUid u (f u)) us) = us"
  by (induction us) simp_all

lemma send_extra_spec:
  "set (recipients (send_extra pick delivered us)) = {u \<in> set us. u \<notin> set delivered \<and> pick u \<noteq> None} \<and>
   distinct (recipients (send_extra pick delivered us))"
proof (induction pick delivered us rule: send_extra.induct)
  case (2 pick delivered u us)
  then show ?case by (cases "u \<in> set delivered"; cases "pick u") (auto split: option.splits)
qed simp

lemma set_add_targets:
  "set (add_targets delivered exclude ss extra) =
    set extra \<union> {s \<in> set ss. s \<notin> set delivered \<and> s \<notin> set exclude}"
  by (induction delivered exclude ss extra rule: add_targets.induct) auto

text \<open>The users that share an account with one of the given users.\<close>

definition siblings_of :: "env \<Rightarrow> uid list \<Rightarrow> uid set" where
  "siblings_of e us = {s. \<exists>u info account. u \<in> set us \<and> map_of (env_users e) u = Some info \<and>
    ui_account info = Some account \<and> s \<in> set (env_account_sessions e account)}"

lemma siblings_of_Cons:
  "siblings_of e (u # us) =
    (case map_of (env_users e) u of
       Some info \<Rightarrow> (case ui_account info of Some account \<Rightarrow> set (env_account_sessions e account) | None \<Rightarrow> {})
     | None \<Rightarrow> {}) \<union> siblings_of e us"
  by (auto simp: siblings_of_def split: option.splits)

lemma set_extra_targets:
  "set (extra_targets e delivered exclude us extra) =
    set extra \<union> {s \<in> siblings_of e us. s \<notin> set delivered \<and> s \<notin> set exclude}"
proof (induction e delivered exclude us extra rule: extra_targets.induct)
  case (1 e delivered exclude extra)
  then show ?case by (simp add: siblings_of_def)
next
  case (2 e delivered exclude u us extra)
  show ?case
    unfolding extra_targets.simps 2 siblings_of_Cons
    by (cases "map_of (env_users e) u"; cases "ui_account (the (map_of (env_users e) u))")
      (auto simp: set_add_targets)
qed

text \<open>C17. A capability broadcast of a well-formed actor sends nobody the message twice, sends nothing
  to an excluded user, and reaches, beyond the members, only users logged in to the account of a
  member.  While the server's state is alive, every member that is not excluded and for whose
  capabilities there is a message (the main one, or the fallback) gets exactly that message; a member
  without the required capability is owed nothing when there is no fallback.  Once the state is gone,
  nothing is sent.\<close>

theorem broadcast_with_cap_once:
  assumes "actor_wf a"
  shows "distinct (recipients (handle_broadcast_with_cap e msg exclude cap fallback a)) \<and>
    set (recipients (handle_broadcast_with_cap e msg exclude cap fallback a)) \<inter> set exclude = {} \<and>
    (if env_matrix e then
       \<forall>u m. u \<in> set (keys (ch_members a)) \<and> u \<notin> set exclude \<longrightarrow>
         message_for msg cap fallback (map_of (ch_user_caps a) u) = Some m \<longrightarrow>
         SendToUid u m \<in> set (handle_broadcast_with_cap e msg exclude cap fallback a)
     else handle_broadcast_with_cap e msg exclude cap fallback a = []) \<and>
    set (recipients (handle_broadcast_with_cap e msg exclude cap fallback a)) \<subseteq>
      set (keys (ch_members a)) \<union> siblings_of e (keys (ch_members a))"
proof (cases "env_matrix e")
  case False
  then show ?thesis by (simp add: handle_broadcast_with_cap_def)
next
  case True
  let ?us = "keys (ch_members a)"
  let ?pick = "\<lambda>u. message_for msg cap fallback (map_of (ch_user_caps a) u)"
  let ?pick' = "\<lambda>u. message_for msg cap fallback (map_option ui_caps (map_of (env_users e) u))"
  let ?d = "filter (\<lambda>u. u \<notin> set exclude \<and> ?pick u \<noteq> None) ?us"
  let ?x = "extra_targets e ?d exclude ?us []"
  have eff: "handle_broadcast_with_cap e msg exclude cap fallback a =
      map (\<lambda>u. SendToUid u (the (?pick u))) ?d @ send_extra ?pick' ?d ?x"
    using True broadcast_members_spec [of ?pick exclude ?us]
    by (simp add: handle_broadcast_with_cap_def Let_def prod.case_eq_if)
  have rec: "recipients (handle_broadcast_with_cap e msg exclude cap fallback a) =
      ?d @ recipients (send_extra ?pick' ?d ?x)"
    unfolding eff recipients_append recipients_sends ..
  have extra: "set (recipients (send_extra ?pick' ?d ?x)) = {u \<in> set ?x. u \<notin> set ?d \<and> ?pick' u \<noteq> None}"
    "distinct (recipients (send_extra ?pick' ?d ?x))"
    using send_extra_spec [of ?pick' ?d ?x] by blast+
  have x: "set ?x = {s \<in> siblings_of e ?us. s \<notin> set ?d \<and> s \<notin> set exclude}"
    unfolding set_extra_targets by simp
  have "distinct ?d" using assms by (simp add: actor_wf_def tables_ok_def)
  then have "distinct (?d @ recipients (send_extra ?pick' ?d ?x))"
    using extra unfolding distinct_append by blast
  moreover have "SendToUid u m \<in> set (handle_broadcast_with_cap e msg exclude cap fallback a)"
    if "u \<in> set ?us \<and> u \<notin> set exclude" "?pick u = Some m" for u m
  proof -
    have "u \<in> set ?d" "m = the (?pick u)" using that by simp_all
    then show ?thesis unfolding eff set_append set_map by blast
  qed
  moreover have "set ?d \<inter> set exclude = {}" "set ?d \<subseteq> set ?us" by auto
  ultimately show ?thesis using True unfolding rec set_append extra(1) x by auto
qed

theorem broadcast_with_cap_once_witness:
  "SendToUid ''001AAAAAA'' \<lparr>msg_tags = None, msg_prefix = None, msg_command = QUIT None\<rparr> \<in>
    set (handle_broadcast_with_cap sample_env \<lparr>msg_tags = None, msg_prefix = None, msg_command = QUIT None\<rparr>
      [''001BBBBBB''] None None sample_channel)"
proof -
  have "env_matrix sample_env" by (simp add: sample_env_def)
  with broadcast_with_cap_once [OF sample_channel_wf, of sample_env
      "\<lparr>msg_tags = None, msg_prefix = None, msg_command = QUIT None\<rparr>" "[''001BBBBBB'']" None None]
  show ?thesis by (simp add: sample_channel_def message_for_def)
qed

section \<open>Who may speak\<close>

text \<open>What the modes of the channel ask of a message and its sender.\<close>

definition modes_let_speak :: "env \<Rightarrow> channel_message_params \<Rightarrow> channel_actor \<Rightarrow> bool" where
  "modes_let_speak e p a \<longleftrightarrow>
    (MNoExternal \<in> set (ch_modes a) \<longrightarrow> is_member a (cp_sender_uid p)) \<and>
    (MRegistered \<in> set (ch_modes a) \<or> MRegisteredOnly \<in> set (ch_modes a) \<longrightarrow> cp_is_registered p) \<and>
    (MTlsOnly \<in> set (ch_modes a) \<longrightarrow> cp_is_tls p) \<and>
    (MModerated \<in> set (ch_modes a) \<longrightarrow> member_has_voice_or_higher a (cp_sender_uid p)) \<and>
    (MModeratedUnreg \<in> set (ch_modes a) \<longrightarrow> cp_is_registered p \<or> member_has_voice_or_higher a (cp_sender_uid p)) \<and>
    (MNoNotice \<in> set (ch_modes a) \<longrightarrow> cp_is_notice p \<longrightarrow> member_has_halfop_or_higher a (cp_sender_uid p)) \<and>
    (MNoCtcp \<in> set (ch_modes a) \<longrightarrow> is_ctcp (cp_text p) \<longrightarrow>
      (\<forall>c. ctcp_parse (cp_text p) = Some c \<longrightarrow> ctcp_knd c = CtcpAction)) \<and>
    (MAntiCaps \<in> set (ch_modes a) \<longrightarrow> \<not> cp_is_tagmsg p \<longrightarrow> 10 < length (cp_text p) \<longrightarrow> \<not> too_many_caps e (cp_text p)) \<and>
    (MCensor \<in> set (ch_modes a) \<longrightarrow> \<not> cp_is_tagmsg p \<longrightarrow> env_matrix e \<longrightarrow>
      (\<forall>w \<in> set (env_censored_words e). \<not> contains_str (to_lowercase e (cp_text p)) (to_lowercase e w)))"

lemma message_gate_None: "message_gate e p a = None \<longleftrightarrow> modes_let_speak e p a"
proof -
  have ctcp: "(case x of Some c \<Rightarrow> ctcp_knd c \<noteq> CtcpAction | None \<Rightarrow> False) \<longleftrightarrow>
      \<not> (\<forall>c. x = Some c \<longrightarrow> ctcp_knd c = CtcpAction)" for x by (cases x) simp_all
  have gate: "(if c then Some x else r) = None \<longleftrightarrow> \<not> c \<and> r = None"
    "(if c then Some x else None) = None \<longleftrightarrow> \<not> c" for c and x :: channel_route_result and r by simp_all
  show ?thesis
    unfolding message_gate_def modes_let_speak_def has_mode_def Let_def ctcp list_ex_iff gate
    by (intro arg_cong2 [where f = "(\<and>)"]) auto
qed

lemma message_gate_not_sent: "message_gate e p a \<noteq> Some Sent" "message_gate e p a \<noteq> Some NoSuchChannel"
  by (simp_all add: message_gate_def Let_def)

text \<open>Over the limit of \<open>+f\<close>.\<close>

definition over_limit :: "env \<Rightarrow> channel_actor \<Rightarrow> bool" where
  "over_limit e a \<longleftrightarrow> map_of (ch_flood_config a) FloodMessage \<noteq> None \<and> env_message_limited e"

definition banned_sender :: "channel_message_params \<Rightarrow> channel_actor \<Rightarrow> bool" where
  "banned_sender p a \<longleftrightarrow>
    is_banned (create_user_mask (cp_user_context p)) (cp_user_context p) (ch_bans a) (ch_excepts a)"

definition silenced :: "channel_message_params \<Rightarrow> channel_actor \<Rightarrow> bool" where
  "silenced p a \<longleftrightarrow>
    \<not> member_has_voice_or_higher a (cp_sender_uid p) \<and>
      is_muted (create_user_mask (cp_user_context p)) (cp_user_context p) a \<or>
    is_quieted (create_user_mask (cp_user_context p)) (cp_user_context p) a"

definition silence_reply :: "channel_message_params \<Rightarrow> channel_actor \<Rightarrow> channel_route_result" where
  "silence_reply p a =
    (if \<not> member_has_voice_or_higher a (cp_sender_uid p) \<and>
       is_muted (create_user_mask (cp_user_context p)) (cp_user_context p) a then BlockedBanned else BlockedModerated)"

definition may_speak :: "env \<Rightarrow> channel_message_params \<Rightarrow> channel_actor \<Rightarrow> bool" where
  "may_speak e p a \<longleftrightarrow> modes_let_speak e p a \<and>
    (member_has_halfop_or_higher a (cp_sender_uid p) \<or>
     \<not> banned_sender p a \<and> \<not> over_limit e a \<and> \<not> silenced p a)"

definition flooding :: "env \<Rightarrow> channel_message_params \<Rightarrow> channel_actor \<Rightarrow> bool" where
  "flooding e p a \<longleftrightarrow> modes_let_speak e p a \<and> \<not> member_has_halfop_or_higher a (cp_sender_uid p) \<and>
    \<not> banned_sender p a \<and> over_limit e a"

text \<open>The limiters are read by nothing after the flood check.\<close>

lemma limiters_unread:
  fixes a :: channel_actor and x
  defines "b \<equiv> a\<lparr>ch_flood_message_limiters := x\<rparr>"
  shows "member_has_voice_or_higher b u = member_has_voice_or_higher a u"
    "is_muted bm ctx b = is_muted bm ctx a" "is_quieted bm ctx b = is_quieted bm ctx a"
    "settle e p b = settle e p a" "plain_fan_out e b og = plain_fan_out e a og"
proof -
  show "member_has_voice_or_higher b u = member_has_voice_or_higher a u" for u
    by (simp add: b_def member_has_voice_or_higher_def)
  note voice = this
  have fields: "ch_bans b = ch_bans a" "ch_excepts b = ch_excepts a" "ch_quiets b = ch_quiets a"
    "ch_modes b = ch_modes a" "ch_name b = ch_name a" "ch_members b = ch_members a"
    "ch_senders b = ch_senders a" "ch_server_id b = ch_server_id a"
    by (simp_all add: b_def)
  show "is_muted bm ctx b = is_muted bm ctx a" "is_quieted bm ctx b = is_quieted bm ctx a"
    "settle e p b = settle e p a"
    unfolding is_muted_def is_quieted_def settle_def has_mode_def fields by (rule refl)+
  have siblings: "plain_siblings e b og u acc us st = plain_siblings e a og u acc us st" for u acc us st
  proof (induction us arbitrary: st)
    case (Cons x us)
    show ?case by (cases x) (simp only: plain_siblings.simps fields Cons.IH)
  qed simp
  have account: "plain_account e b og u st = plain_account e a og u st" for u st
    unfolding plain_account_def fields siblings ..
  have "plain_member e b og u st = plain_member e a og u st" for u st
    unfolding plain_member_def receives_def recipient_wanted_def direct_to_def fields voice account ..
  then have "plain_member e b og = plain_member e a og" by (intro ext)
  then show "plain_fan_out e b og = plain_fan_out e a og" unfolding plain_fan_out_def fields by simp
qed

lemma target_peers_Some:
  "list_all (\<lambda>u. 3 \<le> length u) us \<Longrightarrow> \<exists>ps. target_peers e my other us peers = Some ps"
  by (induction e my other us peers rule: target_peers.induct) auto

lemma deliver_message_sent:
  assumes "list_all (\<lambda>u. 3 \<le> length u) (keys (ch_members a))"
  shows "snd (snd (deliver_message e p a)) = Some Sent \<and>
    (\<exists>rest. fst (snd (deliver_message e p a)) = plain_fan_out e a (settle e p a) @ rest)"
proof -
  have "\<exists>effs. s2s_effects e a (settle e p a) = Some effs"
    using target_peers_Some [OF assms, of e "sid_str (ch_server_id a)" "if 3 \<le> length (cp_sender_uid
        (og_params (settle e p a))) then take 3 (cp_sender_uid (og_params (settle e p a)))
        else sid_str (ch_server_id a)" "[]"] unfolding s2s_effects_def Let_def by fastforce
  then show ?thesis
    by (auto simp: deliver_message_def Let_def prod.case_eq_if fan_out_effs)
qed

lemma handle_message_cases:
  "handle_message e p a =
    (if \<not> modes_let_speak e p a then (a, [], message_gate e p a)
     else if member_has_halfop_or_higher a (cp_sender_uid p) then deliver_message e p a
     else if banned_sender p a then (a, [], Some BlockedBanned)
     else let b = fst (flood_check e (cp_sender_uid p) a) in
       if over_limit e a then (fst (flood_kick e p b), snd (flood_kick e p b), Some NoSuchChannel)
       else if silenced p a then (b, [], Some (silence_reply p a))
       else deliver_message e p b)"
proof (cases "message_gate e p a")
  case (Some r)
  then show ?thesis using message_gate_None [of e p a] by (simp add: handle_message_def)
next
  case None
  obtain x where b: "fst (flood_check e (cp_sender_uid p) a) = a\<lparr>ch_flood_message_limiters := x\<rparr>"
  proof
    show "fst (flood_check e (cp_sender_uid p) a) = a\<lparr>ch_flood_message_limiters :=
      ch_flood_message_limiters (fst (flood_check e (cp_sender_uid p) a))\<rparr>"
      by (simp add: flood_check_def split: option.split)
  qed
  have over: "snd (flood_check e (cp_sender_uid p) a) \<longleftrightarrow> over_limit e a"
    by (auto simp: flood_check_def over_limit_def split: option.split)
  show ?thesis
    using None message_gate_None [of e p a] over
    by (simp add: handle_message_def Let_def prod.case_eq_if b limiters_unread silenced_def silence_reply_def
        banned_sender_def)
qed

lemma flood_kick_absent: "absent (cp_sender_uid p) (fst (flood_kick e p a))"
  unfolding flood_kick_def Let_def prod.case_eq_if fst_conv
  by (rule absent_cleanup, rule absent_same_tables [OF absent_remove_member]) simp_all

text \<open>C16. A message goes out exactly if its sender may speak: the channel's modes let the message
  pass, and the sender is at least half-operator or neither banned, over the flood limit, muted nor
  quieted.  Then it is fanned out to the members' sessions before anything else is sent.  A sender over
  the flood limit is removed from the channel; in every other case a blocked message sends nothing and
  changes no member.\<close>

theorem handle_message_correct:
  assumes "list_all (\<lambda>u. 3 \<le> length u) (keys (ch_members a))"
  shows "case handle_message e p a of (b, effs, r) \<Rightarrow>
    if may_speak e p a then
      r = Some Sent \<and> (\<exists>rest. effs = plain_fan_out e a (settle e p a) @ rest) \<and> ch_members b = ch_members a
    else r \<noteq> Some Sent \<and>
      (if flooding e p a then r = Some NoSuchChannel \<and> absent (cp_sender_uid p) b
       else effs = [] \<and> ch_members b = ch_members a)"
proof -
  let ?b = "fst (flood_check e (cp_sender_uid p) a)"
  obtain x where b: "?b = a\<lparr>ch_flood_message_limiters := x\<rparr>"
  proof
    show "?b = a\<lparr>ch_flood_message_limiters := ch_flood_message_limiters ?b\<rparr>"
      by (simp add: flood_check_def split: option.split)
  qed
  have sent: "snd (snd (deliver_message e p c)) = Some Sent \<and> ch_members (fst (deliver_message e p c)) = ch_members a \<and>
      (\<exists>rest. fst (snd (deliver_message e p c)) = plain_fan_out e a (settle e p a) @ rest)" if "c = a \<or> c = ?b" for c
    using that deliver_message_sent [of c e p] assms by (auto simp: b limiters_unread actor_frame)
  have reply: "silence_reply p a \<noteq> Sent" by (simp add: silence_reply_def)
  have "modes_let_speak e p a \<Longrightarrow> \<not> may_speak e p a \<Longrightarrow> \<not> member_has_halfop_or_higher a (cp_sender_uid p)"
    by (simp add: may_speak_def)
  then show ?thesis
    using sent [of a] sent [of ?b] reply message_gate_not_sent [of e p a] flood_kick_absent [of p e ?b]
    unfolding handle_message_cases may_speak_def flooding_def Let_def
    by (auto simp: prod.case_eq_if actor_frame)
qed

definition sample_params :: channel_message_params where
  "sample_params =
    \<lparr>cp_sender_uid = ''001AAAAAA'', cp_sender_session_id = ''s1'', cp_text = ''hello'', cp_tags = None,
     cp_is_notice = False, cp_is_tagmsg = False, cp_user_context = for_registration
       \<lparr>rp_hostname = ''h'', rp_nickname = ''alice'', rp_username = ''a'', rp_realname = ''r'', rp_server = ''s'',
        rp_account = None, rp_is_tls = False, rp_is_oper = False, rp_oper_type = None\<rparr>,
     cp_is_registered = False, cp_is_tls = False, cp_is_bot = False, cp_status_prefix = None,
     cp_timestamp = None, cp_msgid = None, cp_override_nick = None, cp_relaymsg_sender_nick = None,
     cp_nanotime = 0\<rparr>"

theorem handle_message_correct_witness:
  "may_speak sample_env sample_params sample_channel \<and>
   snd (snd (handle_message sample_env sample_params sample_channel)) = Some Sent"
proof -
  have op: "member_has_halfop_or_higher sample_channel ''001AAAAAA''" "is_member sample_channel ''001AAAAAA''"
    by (simp_all add: sample_channel_def member_has_halfop_or_higher_def has_halfop_or_higher_def is_member_def)
  have "ch_modes sample_channel = [MNoExternal, MTopicLock]" by (simp add: sample_channel_def spawn_def)
  then have "may_speak sample_env sample_params sample_channel"
    using op by (simp add: may_speak_def modes_let_speak_def sample_params_def)
  moreover have "list_all (\<lambda>u. 3 \<le> length u) (keys (ch_members sample_channel))"
    by (simp add: sample_channel_def)
  ultimately show ?thesis
    using handle_message_correct [of sample_channel sample_env sample_params] by (simp add: prod.case_eq_if)
qed

end
