(* ===== verification/Actor_Invites.thy ===== *)
theory Actor_Invites
  imports Actor_Membership
begin

text \<open>
  Invitations over the life of an actor: only \<open>INVITE\<close> adds one, the queue is ordered by time, and so
  dropping from its front forgets exactly the invitations that have expired.
\<close>

section \<open>Events that leave the invitations alone\<close>

named_theorems invite_frame

lemma invites_primitives [invite_frame]:
  "ch_invites (remove_member u a) = ch_invites a"
  "ch_invites (fst (send_to_senders e msg a)) = ch_invites a"
  "ch_invites (fst (cleanup_if_empty e a)) = ch_invites a"
  "ch_invites (fst (update_member_mode e u f a)) = ch_invites a"
  using send_to_senders_shape [of e msg a]
  by (auto simp: remove_member_def cleanup_if_empty_def update_member_mode_def Let_def split: option.split)

lemma invites_mode_primitives [invite_frame]:
  "ch_invites (fst (set_flag_mode e f adding a)) = ch_invites a"
  "ch_invites (fst (replace_param_mode P n a)) = ch_invites a"
  by (auto simp: set_flag_mode_def replace_param_mode_def Let_def split: option.split)

lemma invites_set_flood_params [invite_frame]: "ch_invites (fold (set_flood_param e) ps a) = ch_invites a"
  by (induction ps arbitrary: a) (simp_all add: set_flood_param_def Let_def split: flood_type.split)

lemma invites_mode_helpers [invite_frame]:
  "ch_invites (fst (apply_text_mode e P b adding arg a)) = ch_invites a"
  "ch_invites (fst (apply_flood e adding arg a)) = ch_invites a"
  by (simp_all add: apply_text_mode_def apply_flood_def Let_def invite_frame clear_flood_def split: option.split)

lemma invites_update_members [invite_frame]: "ch_invites (fst (update_members e f us a c)) = ch_invites a"
  by (induction us arbitrary: a c) (simp_all add: prod.case_eq_if invite_frame)

lemma invites_apply_mode [invite_frame]: "ch_invites (fst (apply_mode e pre t md a)) = ch_invites a"
  by (cases "mode_mode md")
    (simp_all add: apply_mode_def Let_def prod.case_eq_if apply_member_mode_def invite_frame split: option.split)

lemma invites_apply_modes_loop [invite_frame]: "ch_invites (fst (apply_modes_loop e pre t mds a)) = ch_invites a"
  by (induction mds arbitrary: a) (simp_all add: prod.case_eq_if invite_frame)

lemma invites_mode_handlers [invite_frame]:
  "ch_invites (fst (handle_apply_modes e p a)) = ch_invites a"
  "ch_invites (fst (handle_clear e pre t n a)) = ch_invites a"
proof -
  show "ch_invites (fst (handle_apply_modes e p a)) = ch_invites a"
    by (simp add: handle_apply_modes_def Let_def prod.case_eq_if invite_frame)
  show "ch_invites (fst (handle_clear e pre t n a)) = ch_invites a"
    by (cases t) (simp_all add: handle_clear_def Let_def prod.case_eq_if)
qed

lemma invites_membership_handlers [invite_frame]:
  "ch_invites (fst (handle_part e u r pre n a)) = ch_invites a"
  "ch_invites (fst (handle_quit e u m rep a)) = ch_invites a"
  "ch_invites (fst (handle_kick e kp a)) = ch_invites a"
  "ch_invites (fst (handle_set_topic e tp a)) = ch_invites a"
  "ch_invites (fst (handle_knock e u pre a)) = ch_invites a"
  by (simp_all add: handle_part_def handle_quit_def handle_kick_def handle_set_topic_def handle_knock_def
      Let_def prod.case_eq_if invite_frame)

lemma invites_small_handlers [invite_frame]:
  "ch_invites (fst (handle_metadata c a)) = ch_invites a"
  "ch_invites (handle_nick_change u nick a) = ch_invites a"
  "ch_invites (fst (handle_check_and_save e a)) = ch_invites a"
  by (simp_all add: handle_metadata_def handle_nick_change_def handle_check_and_save_def
      split: metadata_command.split option.split)

lemma invites_flood_check [invite_frame]: "ch_invites (fst (flood_check e u a)) = ch_invites a"
  by (simp add: flood_check_def split: option.split)

lemma invites_deliver_message [invite_frame]: "ch_invites (fst (deliver_message e p a)) = ch_invites a"
  by (simp add: deliver_message_def announce_silent_def Let_def split: option.split)

lemma invites_handle_message [invite_frame]: "ch_invites (fst (handle_message e p a)) = ch_invites a"
  by (simp add: handle_message_def Let_def prod.case_eq_if flood_kick_def invite_frame split: option.split)

lemma invites_apply_remote_mode [invite_frame]: "ch_invites (apply_remote_mode setter ts md a) = ch_invites a"
proof -
  have "ch_invites (apply_remote_mode_with_lww m arg setter ts adding a) = ch_invites a" for m arg adding
    by (cases m) (simp_all add: apply_remote_mode_with_lww_def modify_member_def apply_param_mode_lww_def
        apply_boolean_mode_lww_def Let_def split: option.split)
  then show ?thesis by (cases md) simp_all
qed

lemma invites_fold_remote [invite_frame]:
  "ch_invites (fold (apply_remote_mode setter ts) mds a) = ch_invites a"
  by (induction mds arbitrary: a) (simp_all add: invite_frame)

lemma invites_remote_handlers [invite_frame]:
  "ch_invites (handle_remote_mode e ts setter str params a) = ch_invites a"
  "ch_invites (handle_remote_topic e ts setter t a) = ch_invites a"
  "ch_invites (fst (handle_remote_kick e s target r a)) = ch_invites a"
  by (simp_all add: handle_remote_mode_def handle_remote_topic_def handle_remote_kick_def Let_def
      prod.case_eq_if invite_frame)

lemma invites_handle_merge_crdt [invite_frame]: "ch_invites (fst (handle_merge_crdt e crdt source a)) = ch_invites a"
proof -
  have "ch_invites (fold (apply_merged_member e c) us b) = ch_invites b" for c us b
    by (induction us arbitrary: b) (simp_all add: apply_merged_member_def Let_def split: option.split)
  moreover have "ch_invites (fold remove_member us b) = ch_invites b" for us b
    by (induction us arbitrary: b) (simp_all add: invite_frame)
  ultimately show ?thesis
    by (simp add: handle_merge_crdt_def merged_state_def apply_merged_lists_def apply_merged_members_def
        apply_merged_modes_def apply_merged_topic_def Let_def prod.case_eq_if split: option.split)
qed

section \<open>The order of the queue\<close>

text \<open>At time \<open>t\<close> the queue is ordered by the time of invitation, and none is from the future.\<close>

definition invites_timed :: "nat \<Rightarrow> channel_actor \<Rightarrow> bool" where
  "invites_timed t a \<longleftrightarrow> sorted (map iv_set_at (ch_invites a)) \<and> (\<forall>i \<in> set (ch_invites a). iv_set_at i \<le> t)"

lemma invites_timed_cong: "ch_invites b = ch_invites a \<Longrightarrow> invites_timed t b = invites_timed t a"
  by (simp add: invites_timed_def)

lemma invites_timed_mono: "invites_timed t a \<Longrightarrow> t \<le> t' \<Longrightarrow> invites_timed t' a"
  by (auto simp: invites_timed_def)

lemma invites_timed_prune: "invites_timed t a \<Longrightarrow> invites_timed t (prune_invites e a)"
  by (auto simp: invites_timed_def prune_invites_def dropWhile_eq_drop drop_map [symmetric]
      intro: sorted_wrt_drop dest: in_set_dropD)

lemma invites_timed_remove: "invites_timed t a \<Longrightarrow> invites_timed t (remove_invite u a)"
  by (auto simp: invites_timed_def remove_invite_def intro: sorted_filter)

lemma invites_timed_add:
  assumes "invites_timed (env_instant e) a"
  shows "invites_timed (env_instant e) (add_invite e u a)"
proof -
  let ?x = "\<lparr>iv_uid = u, iv_set_at = env_instant e\<rparr>"
  have "invites_timed (env_instant e) (prune_invites e a)" by (rule invites_timed_prune [OF assms])
  moreover from this have "invites_timed (env_instant e)
      ((prune_invites e a)\<lparr>ch_invites := drop n (ch_invites (prune_invites e a) @ [?x])\<rparr>)" for n
    by (auto simp: invites_timed_def drop_map [symmetric] sorted_append
        intro!: sorted_wrt_drop dest!: in_set_dropD)
  ultimately show ?thesis unfolding add_invite_def Let_def by (simp del: drop_append)
qed

lemma invites_timed_join:
  assumes "invites_timed t a"
  shows "invites_timed t (fst (handle_join e p a))"
proof (cases "join_allowed e p a")
  case True
  have "ch_invites (fst (handle_join e p a)) = ch_invites (remove_invite (jp_uid p) (prune_invites e a))"
    unfolding handle_join_allowed [OF True]
    by (simp add: prod.case_eq_if join_announce_frame join_insert_frame remove_invite_def)
  then show ?thesis
    using invites_timed_remove [OF invites_timed_prune [OF assms]] invites_timed_cong by blast
next
  case False
  have "ch_invites (fst (join_flood e b)) = ch_invites b" for b by (simp add: join_flood_def Let_def)
  then have "ch_invites (fst (handle_join e p a)) = ch_invites a \<or>
      ch_invites (fst (handle_join e p a)) = ch_invites (prune_invites e a)"
    using False
    by (cases "join_checks e p (prune_invites e a) (invited_to e (jp_uid p) a)";
        cases "join_late_checks p (prune_invites e a)")
      (auto simp: handle_join_def is_invited_pair prod.case_eq_if join_allowed_checks prune_invites_frame)
  then show ?thesis using assms invites_timed_prune [OF assms] invites_timed_cong by blast
qed

lemma invites_timed_step:
  assumes "invites_timed t a" and "t \<le> env_instant e"
  shows "invites_timed (env_instant e) (fst (handle_event e ev a))"
proof -
  have now: "invites_timed (env_instant e) a" by (rule invites_timed_mono [OF assms])
  have "invites_timed (env_instant e) (fst (handle_invite e p a))" for p
    using now invites_timed_add [OF now] by (simp add: handle_invite_def Let_def)
  moreover have "invites_timed (env_instant e) b" if "ch_invites b = ch_invites a" for b
    using now invites_timed_cong [OF that] by simp
  ultimately show ?thesis
    using invites_timed_join [OF now]
    by (cases ev) (simp_all add: prod.case_eq_if invite_frame)
qed

text \<open>A mailbox whose events are handled at times that never decrease.\<close>

definition in_time_order :: "(env \<times> channel_event) list \<Rightarrow> bool" where
  "in_time_order evs \<longleftrightarrow> sorted (map (\<lambda>(e, _). env_instant e) evs)"

lemma invites_timed_run:
  "in_time_order evs \<Longrightarrow> invites_timed t a \<Longrightarrow> list_all (\<lambda>(e, _). t \<le> env_instant e \<and> env_instant e \<le> now) evs \<Longrightarrow>
    t \<le> now \<Longrightarrow> invites_timed now (fst (run evs a))"
proof (induction evs arbitrary: a t)
  case Nil
  then show ?case by (simp add: invites_timed_mono)
next
  case (Cons x evs)
  obtain e ev where x: "x = (e, ev)" by (cases x)
  have "invites_timed (env_instant e) (fst (handle_event e ev a))"
    using Cons.prems by (intro invites_timed_step) (auto simp: x)
  moreover have "list_all (\<lambda>(e', _). env_instant e \<le> env_instant e' \<and> env_instant e' \<le> now) evs"
    using Cons.prems(1,3) by (auto simp: x in_time_order_def list_all_iff)
  moreover have "in_time_order evs" "env_instant e \<le> now"
    using Cons.prems(1,3) by (simp_all add: x in_time_order_def)
  ultimately have "invites_timed now (fst (run evs (fst (handle_event e ev a))))"
    by (intro Cons.IH [of "env_instant e"])
  then show ?case by (simp add: x prod.case_eq_if)
qed

section \<open>Properties\<close>

lemma dropWhile_sorted:
  assumes "sorted (map f xs)" and "\<And>x y. f x \<le> f y \<Longrightarrow> P y \<Longrightarrow> P x"
  shows "dropWhile P xs = filter (\<lambda>x. \<not> P x) xs"
  using assms(1)
proof (induction xs)
  case (Cons x xs)
  show ?case
  proof (cases "P x")
    case False
    then have "\<forall>y \<in> set xs. \<not> P y" using Cons.prems assms(2) by auto
    then show ?thesis using False by simp
  qed (use Cons in simp)
qed simp

lemma invited_to_timed:
  assumes "invites_timed (env_instant e) a"
  shows "invited_to e u a \<longleftrightarrow>
    (\<exists>i \<in> set (ch_invites a). iv_uid i = u \<and> env_instant e \<le> iv_set_at i + INVITE_TTL)"
proof -
  have "ch_invites (prune_invites e a) = filter (\<lambda>i. \<not> INVITE_TTL < env_instant e - iv_set_at i) (ch_invites a)"
    unfolding prune_invites_def using assms
    by (simp add: invites_timed_def) (rule dropWhile_sorted [where f = iv_set_at], auto)
  then show ?thesis by (auto simp: invited_to_def)
qed

text \<open>An invitation is good for one hour: in every actor run from its spawn with a clock that does
  not go back, the actor takes a user as invited exactly if there is an invitation for them in its
  queue that is at most an hour old.\<close>

theorem invitation_expires:
  assumes "in_time_order evs" and "list_all (\<lambda>(e', _). env_instant e' \<le> env_instant e) evs"
  shows "snd (is_invited e u (fst (run evs (spawn e0 name t modes md c obs)))) \<longleftrightarrow>
    (\<exists>i \<in> set (ch_invites (fst (run evs (spawn e0 name t modes md c obs)))).
       iv_uid i = u \<and> env_instant e \<le> iv_set_at i + INVITE_TTL)"
proof -
  have "invites_timed 0 (spawn e0 name t modes md c obs)" by (simp add: invites_timed_def spawn_def)
  then have "invites_timed (env_instant e) (fst (run evs (spawn e0 name t modes md c obs)))"
    using assms by (intro invites_timed_run [of _ 0]) simp_all
  then show ?thesis by (simp add: is_invited_pair invited_to_timed)
qed

lemma in_dropWhile: "x \<in> set xs \<Longrightarrow> \<not> P x \<Longrightarrow> x \<in> set (dropWhile P xs)"
  by (induction xs) auto

lemma invited_to_added: "invited_to e u (add_invite e u a)"
proof (cases "list_ex (\<lambda>i. iv_uid i = u) (ch_invites (prune_invites e a))")
  case True
  then show ?thesis
    by (auto simp: add_invite_def invited_to_def prune_invites_def list_ex_iff dropWhile_idem)
next
  case False
  let ?x = "\<lparr>iv_uid = u, iv_set_at = env_instant e\<rparr>" and ?xs = "ch_invites (prune_invites e a)"
  have "?x \<in> set (drop (length (?xs @ [?x]) - MAX_INVITES_PER_CHANNEL) (?xs @ [?x]))"
    by (simp add: MAX_INVITES_PER_CHANNEL_def)
  then have "?x \<in> set (ch_invites (prune_invites e (add_invite e u a)))"
    using False unfolding add_invite_def Let_def
    by (simp add: prune_invites_def [of e "x\<lparr>ch_invites := y\<rparr>" for x y] in_dropWhile del: drop_append)
  then show ?thesis unfolding invited_to_def by (rule rev_image_eqI) simp
qed

text \<open>C32. A successful \<open>INVITE\<close> lets the target pass the ban and \<open>+i\<close> checks at that moment, even
  when the queue is full, and only authorised users and members with the right to invite get that
  far on a \<open>+i\<close> or \<open>+V\<close> channel.\<close>

theorem invite_correct:
  "case handle_invite e p a of (b, effs, r) \<Rightarrow>
    if r = Some (Inr ()) then
      snd (is_invited e (ip_target_uid p) b) \<and> \<not> is_member a (ip_target_uid p) \<and>
      (ip_force p \<or> ip_cap p \<or> MNoInvite \<notin> set (ch_modes a) \<and> (MInviteOnly \<notin> set (ch_modes a) \<or>
        (\<exists>m. map_of (ch_members a) (ip_sender_uid p) = Some m \<and> (mo_op m \<or> mo_halfop m)))) \<and>
      b = a\<lparr>ch_invites := ch_invites b\<rparr>
    else b = a \<and> effs = []"
proof -
  note invited = invited_to_added [of e "ip_target_uid p" a]
  have frame: "add_invite e u a = a\<lparr>ch_invites := ch_invites (add_invite e u a)\<rparr>" for u
    by (simp add: add_invite_def prune_invites_def Let_def)
  show ?thesis
    using invited frame [of "ip_target_uid p"] member_modes_op [of a "ip_sender_uid p"]
    by (auto simp: handle_invite_def Let_def is_invited_pair has_mode_def)
qed

theorem invite_correct_witness:
  "snd (is_invited sample_env ''001BBBBBB'' (fst (handle_invite sample_env
     \<lparr>ip_sender_uid = ''001AAAAAA'', ip_sender_prefix = ServerName ''s'', ip_target_uid = ''001BBBBBB'',
      ip_target_nick = ''bob'', ip_force = False, ip_cap = False\<rparr> sample_channel)))"
  using invite_correct [of sample_env "\<lparr>ip_sender_uid = ''001AAAAAA'', ip_sender_prefix = ServerName ''s'',
      ip_target_uid = ''001BBBBBB'', ip_target_nick = ''bob'', ip_force = False, ip_cap = False\<rparr>" sample_channel]
  by (simp add: handle_invite_def sample_channel_def spawn_def has_mode_def is_member_def Let_def)

end
