(* ===== verification/Actor_Sync.thy ===== *)
theory Actor_Sync
  imports Actor_Membership
begin

text \<open>
  Changes from peer servers arrive in different orders on different servers.  A \<open>lww_slot\<close> is a part of
  the actor's state that the last write wins; the topic, every flag mode, the key and the limit are
  slots, so for them the order does not matter.
\<close>

section \<open>Slots\<close>

text \<open>\<open>write\<close> applies a write; \<open>relevant\<close> are the writes to the slot, with their timestamp and content;
  \<open>cur\<close> and \<open>view\<close> read the slot's timestamp and content in a state.\<close>

locale lww_slot =
  fixes "write" :: "'w \<Rightarrow> 's \<Rightarrow> 's"
    and relevant :: "'w \<Rightarrow> bool"
    and stamp :: "'w \<Rightarrow> hybrid_timestamp"
    and content :: "'w \<Rightarrow> 'c"
    and cur :: "'s \<Rightarrow> hybrid_timestamp option"
    and view :: "'s \<Rightarrow> 'c"
  assumes cur_write: "cur (write w s) = (if relevant w \<and> incoming_wins (cur s) (stamp w) then Some (stamp w) else cur s)"
    and view_write: "view (write w s) = (if relevant w \<and> incoming_wins (cur s) (stamp w) then content w else view s)"
begin

definition upd :: "'w \<Rightarrow> hybrid_timestamp option \<times> 'c \<Rightarrow> hybrid_timestamp option \<times> 'c" where
  "upd w slot = (if relevant w \<and> incoming_wins (fst slot) (stamp w) then (Some (stamp w), content w) else slot)"

lemma slot_fold: "(cur (fold write ws s), view (fold write ws s)) = fold upd ws (cur s, view s)"
proof (induction ws arbitrary: s)
  case (Cons w ws)
  have "(cur (write w s), view (write w s)) = upd w (cur s, view s)" by (simp add: upd_def cur_write view_write)
  then show ?case using Cons.IH [of "write w s"] by simp
qed simp

lemma upd_idem: "upd w \<circ> upd w = upd w"
  by (rule ext) (simp add: upd_def incoming_wins_def)

lemma upd_commute:
  assumes "relevant w \<Longrightarrow> relevant v \<Longrightarrow> stamp w = stamp v \<Longrightarrow> content w = content v"
  shows "upd v \<circ> upd w = upd w \<circ> upd v"
proof
  fix slot :: "hybrid_timestamp option \<times> 'c"
  show "(upd v \<circ> upd w) slot = (upd w \<circ> upd v) slot"
    using assms by (cases "stamp w" "stamp v" rule: linorder_cases; cases "fst slot")
      (auto simp: upd_def incoming_wins_def)
qed

lemma order_independent:
  assumes "set ws = set vs"
    and agree: "\<And>w v. w \<in> set ws \<Longrightarrow> v \<in> set ws \<Longrightarrow> relevant w \<Longrightarrow> relevant v \<Longrightarrow> stamp w = stamp v \<Longrightarrow> content w = content v"
  shows "view (fold write ws s) = view (fold write vs s) \<and> cur (fold write ws s) = cur (fold write vs s)"
proof -
  have idem: "comp_fun_idem_on (set ws) upd"
    using upd_commute agree upd_idem
    by (intro comp_fun_idem_on.intro comp_fun_commute_on.intro comp_fun_idem_on_axioms.intro) blast+
  have "fold upd ws (cur s, view s) = fold upd vs (cur s, view s)"
    using comp_fun_idem_on.fold_set_fold [OF idem, of ws] comp_fun_idem_on.fold_set_fold [OF idem, of vs] assms(1)
    by simp
  then show ?thesis unfolding slot_fold [symmetric] by simp
qed

end

section \<open>The writes of remote events\<close>

datatype remote_write =
    RwCreated "64 word"
  | RwMode string hybrid_timestamp "proto_mode mode"
  | RwTopic env "64 word" string string

definition set_created :: "64 word \<Rightarrow> channel_actor \<Rightarrow> channel_actor" where
  "set_created ts a =
    (if ch_created a > 0 then (if ts_i64 ts < ch_created a then a\<lparr>ch_created := ts_i64 ts\<rparr> else a)
     else a\<lparr>ch_created := ts_i64 ts\<rparr>)"

fun rw_step :: "remote_write \<Rightarrow> channel_actor \<Rightarrow> channel_actor" where
  "rw_step (RwCreated ts) a = set_created ts a"
| "rw_step (RwMode setter ts md) a = apply_remote_mode setter ts md a"
| "rw_step (RwTopic e ts setter t) a = handle_remote_topic e ts setter t a"

fun writes_of :: "env \<times> channel_event \<Rightarrow> remote_write list" where
  "writes_of (e, EvRemoteMode ts setter modes args) =
    RwCreated ts # map (RwMode setter (remote_ts e ts setter)) (remote_parse_modes modes args)"
| "writes_of (e, EvRemoteTopic ts setter t) = [RwTopic e ts setter t]"
| "writes_of _ = []"

definition is_remote_change :: "env \<times> channel_event \<Rightarrow> bool" where
  "is_remote_change ev \<longleftrightarrow> (case snd ev of EvRemoteMode _ _ _ _ \<Rightarrow> True | EvRemoteTopic _ _ _ \<Rightarrow> True | _ \<Rightarrow> False)"

lemma actor_step_writes: "is_remote_change ev \<Longrightarrow> actor_step ev a = fold rw_step (writes_of ev) a"
proof -
  have *: "fold rw_step (map (RwMode setter ts) mds) b = fold (apply_remote_mode setter ts) mds b" for setter ts mds b
    by (induction mds arbitrary: b) simp_all
  show "is_remote_change ev \<Longrightarrow> actor_step ev a = fold rw_step (writes_of ev) a"
    by (cases ev; cases "snd ev")
      (simp_all add: is_remote_change_def actor_step_def handle_remote_mode_def set_created_def * Let_def)
qed

lemma run_writes: "list_all is_remote_change evs \<Longrightarrow> fst (run evs a) = fold rw_step (concat (map writes_of evs)) a"
  unfolding fst_run by (induction evs arbitrary: a) (simp_all add: actor_step_writes)

section \<open>The slots of the actor\<close>

subsection \<open>Topic\<close>

fun topic_write :: "remote_write \<Rightarrow> bool" where
  "topic_write (RwTopic _ _ _ _) = True"
| "topic_write _ = False"

fun rw_stamp :: "remote_write \<Rightarrow> hybrid_timestamp" where
  "rw_stamp (RwTopic e ts setter _) = remote_ts e ts setter"
| "rw_stamp (RwMode _ ts _) = ts"
| "rw_stamp (RwCreated ts) = ht_new (\<lambda>_. 0) (ts_i64 ts) 0 (ServerId [])"

fun topic_content :: "remote_write \<Rightarrow> topic option" where
  "topic_content (RwTopic _ ts setter t) = Some \<lparr>tp_text = t, tp_set_by = setter, tp_set_at = ts_i64 ts\<rparr>"
| "topic_content _ = None"

lemma set_created_frame [simp]:
  "ch_topic (set_created ts a) = ch_topic a" "ch_topic_timestamp (set_created ts a) = ch_topic_timestamp a"
  "ch_modes (set_created ts a) = ch_modes a" "ch_mode_timestamps (set_created ts a) = ch_mode_timestamps a"
  by (simp_all add: set_created_def)

lemma remote_mode_topic [simp]:
  "ch_topic (apply_remote_mode setter ts md a) = ch_topic a"
  "ch_topic_timestamp (apply_remote_mode setter ts md a) = ch_topic_timestamp a"
proof -
  have *: "ch_topic (apply_remote_mode_with_lww m arg setter ts adding a) = ch_topic a \<and>
      ch_topic_timestamp (apply_remote_mode_with_lww m arg setter ts adding a) = ch_topic_timestamp a" for m arg adding
    by (cases m) (simp_all add: apply_remote_mode_with_lww_def modify_member_def apply_param_mode_lww_def
        apply_boolean_mode_lww_def Let_def split: option.split)
  show "ch_topic (apply_remote_mode setter ts md a) = ch_topic a"
    "ch_topic_timestamp (apply_remote_mode setter ts md a) = ch_topic_timestamp a"
    using * by (cases md; simp)+
qed

interpretation topic_slot: lww_slot rw_step topic_write rw_stamp topic_content ch_topic_timestamp ch_topic
proof
  show "ch_topic_timestamp (rw_step w s) =
      (if topic_write w \<and> incoming_wins (ch_topic_timestamp s) (rw_stamp w) then Some (rw_stamp w)
       else ch_topic_timestamp s)" for w s
    by (cases w) (simp_all add: handle_remote_topic_def Let_def)
  show "ch_topic (rw_step w s) =
      (if topic_write w \<and> incoming_wins (ch_topic_timestamp s) (rw_stamp w) then topic_content w else ch_topic s)" for w s
    by (cases w) (simp_all add: handle_remote_topic_def Let_def)
qed

subsection \<open>Modes\<close>

text \<open>What one remote mode change does to the modes and their timestamps, in one equation.\<close>

definition mode_effect ::
  "proto_mode \<Rightarrow> string option \<Rightarrow> hybrid_timestamp \<Rightarrow> bool \<Rightarrow> channel_actor \<Rightarrow> channel_actor" where
  "mode_effect m arg ts adding a =
    (if m = PKey then
       (if adding \<and> arg = None then a else
          apply_param_mode_lww is_key ''k'' (if adding then Some (MKey (the arg) ts) else None) ts a)
     else if m = PLimit then
       (case (if adding then Option.bind arg (parse_uint (2 ^ 64 - 1)) else Some 0) of
          None \<Rightarrow> a
        | Some l \<Rightarrow> apply_param_mode_lww is_limit ''l'' (if adding then Some (MLimit l ts) else None) ts a)
     else (case remote_flag_mode m of Some (c, f) \<Rightarrow> apply_boolean_mode_lww c f adding ts a | None \<Rightarrow> a))"

lemma modes_apply_remote:
  "ch_modes (apply_remote_mode_with_lww m arg setter ts adding a) = ch_modes (mode_effect m arg ts adding a)"
  "ch_mode_timestamps (apply_remote_mode_with_lww m arg setter ts adding a) =
    ch_mode_timestamps (mode_effect m arg ts adding a)"
  by (cases m; cases arg;
      simp add: apply_remote_mode_with_lww_def mode_effect_def modify_member_def split: option.split)+

text \<open>A flag, named by the mode that stands for it on the wire.\<close>

fun flag_write :: "proto_mode \<Rightarrow> remote_write \<Rightarrow> bool" where
  "flag_write p (RwMode _ _ (Plus q _)) = (q = p \<and> remote_flag_mode p \<noteq> None)"
| "flag_write p (RwMode _ _ (Minus q _)) = (q = p \<and> remote_flag_mode p \<noteq> None)"
| "flag_write p _ = False"

fun flag_content :: "remote_write \<Rightarrow> bool" where
  "flag_content (RwMode _ _ md) = is_plus md"
| "flag_content _ = False"

definition flag_cur :: "proto_mode \<Rightarrow> channel_actor \<Rightarrow> hybrid_timestamp option" where
  "flag_cur p a = (case remote_flag_mode p of Some (c, _) \<Rightarrow> map_of (ch_mode_timestamps a) c | None \<Rightarrow> None)"

definition flag_view :: "proto_mode \<Rightarrow> channel_actor \<Rightarrow> bool" where
  "flag_view p a = (case remote_flag_mode p of Some (_, f) \<Rightarrow> f \<in> set (ch_modes a) | None \<Rightarrow> False)"

lemma remote_flag_letter: "remote_flag_mode p = Some (c, f) \<Longrightarrow> c \<noteq> ''k'' \<and> c \<noteq> ''l'' \<and> \<not> is_key f \<and> \<not> is_limit f"
  by (cases p) auto

lemma remote_flag_code:
  assumes "remote_flag_mode p = Some (c, f)"
  shows "mode_to_char f = Some c \<and> proto_mode_from_char (if c = ''R'' then ''r'' else c) = p"
proof -
  have "remote_flag_mode p \<noteq> None \<Longrightarrow> mode_to_char (snd (the (remote_flag_mode p))) = Some (fst (the (remote_flag_mode p)))"
    by (cases p) simp_all
  moreover have "remote_flag_mode p \<noteq> None \<Longrightarrow> proto_mode_from_char
      (if fst (the (remote_flag_mode p)) = ''R'' then ''r'' else fst (the (remote_flag_mode p))) = p"
    by (cases p) (simp_all add: proto_mode_from_char_def)
  ultimately show ?thesis unfolding assms by auto
qed

lemma remote_flag_inj:
  assumes "remote_flag_mode p = Some (c, f)" and "remote_flag_mode q = Some (c', f')" and "p \<noteq> q"
  shows "c \<noteq> c' \<and> f \<noteq> f'"
  using assms(3) remote_flag_code [OF assms(1)] remote_flag_code [OF assms(2)] by auto

lemma flag_mode_effect_same:
  assumes "remote_flag_mode p = Some (c, f)"
  shows "mode_effect p arg ts adding a = apply_boolean_mode_lww c f adding ts a"
proof -
  have "p \<noteq> PKey" "p \<noteq> PLimit" using assms by auto
  then show ?thesis using assms by (simp add: mode_effect_def)
qed

lemma flag_mode_effect_other:
  assumes "remote_flag_mode p = Some (c, f)" and "q \<noteq> p"
  shows "map_of (ch_mode_timestamps (mode_effect q arg ts adding a)) c = map_of (ch_mode_timestamps a) c \<and>
    (f \<in> set (ch_modes (mode_effect q arg ts adding a)) \<longleftrightarrow> f \<in> set (ch_modes a))"
proof (cases "remote_flag_mode q")
  case None
  then show ?thesis
    using remote_flag_letter [OF assms(1)]
    by (auto simp: mode_effect_def apply_param_mode_lww_def Let_def hash_simps split: option.split)
next
  case (Some cf)
  obtain c' f' where q: "remote_flag_mode q = Some (c', f')" using Some by (cases cf) simp
  have "c \<noteq> c'" "f \<noteq> f'" using remote_flag_inj [OF assms(1) q] assms(2) by auto
  then show ?thesis
    unfolding flag_mode_effect_same [OF q] by (simp add: apply_boolean_mode_lww_def hash_simps)
qed

lemma flag_slot_laws:
  "flag_cur p (rw_step w a) =
    (if flag_write p w \<and> incoming_wins (flag_cur p a) (rw_stamp w) then Some (rw_stamp w) else flag_cur p a) \<and>
   flag_view p (rw_step w a) =
    (if flag_write p w \<and> incoming_wins (flag_cur p a) (rw_stamp w) then flag_content w else flag_view p a)"
proof (cases "remote_flag_mode p")
  case None
  then show ?thesis by (cases "(p, w)" rule: flag_write.cases) (simp_all add: flag_cur_def flag_view_def)
next
  case (Some cf)
  obtain c f where cf: "remote_flag_mode p = Some (c, f)" using Some by (cases cf) simp
  have read: "flag_cur p b = map_of (ch_mode_timestamps b) c" "flag_view p b \<longleftrightarrow> f \<in> set (ch_modes b)" for b
    using cf by (simp_all add: flag_cur_def flag_view_def)
  have eff: "flag_cur p (apply_remote_mode_with_lww q arg setter ts adding a) =
      (if q = p \<and> incoming_wins (flag_cur p a) ts then Some ts else flag_cur p a) \<and>
    flag_view p (apply_remote_mode_with_lww q arg setter ts adding a) =
      (if q = p \<and> incoming_wins (flag_cur p a) ts then adding else flag_view p a)" for q arg setter ts adding
    using flag_mode_effect_other [OF cf, of q arg ts adding a] flag_mode_effect_same [OF cf, of arg ts adding a]
    unfolding read modes_apply_remote
    by (cases "q = p") (simp_all add: apply_boolean_mode_lww_def hash_simps)
  show ?thesis
  proof (cases w)
    case (RwMode setter ts md)
    then show ?thesis using eff cf by (cases md) simp_all
  qed (simp_all add: read handle_remote_topic_def Let_def)
qed

interpretation flag_slot: lww_slot rw_step "flag_write p" rw_stamp flag_content "flag_cur p" "flag_view p" for p
  by unfold_locales (simp_all only: flag_slot_laws)

subsection \<open>Key and limit\<close>

lemma param_current_ts_filter:
  "param_current_ts P c a =
    (case filter P (ch_modes a) of m # _ \<Rightarrow> mode_own_ts m | [] \<Rightarrow> map_of (ch_mode_timestamps a) c)"
proof -
  have "List.find P xs = (case filter P xs of m # _ \<Rightarrow> Some m | [] \<Rightarrow> None)" for xs
    by (induction xs) simp_all
  then show ?thesis by (simp add: param_current_ts_def split: list.split)
qed

lemma param_same:
  assumes "\<And>m. new = Some m \<Longrightarrow> P m \<and> mode_own_ts m = Some ts"
  shows "param_current_ts P c (apply_param_mode_lww P c new ts a) =
      (if incoming_wins (param_current_ts P c a) ts then Some ts else param_current_ts P c a) \<and>
    filter P (ch_modes (apply_param_mode_lww P c new ts a)) =
      (if incoming_wins (param_current_ts P c a) ts then (case new of Some m \<Rightarrow> [m] | None \<Rightarrow> [])
       else filter P (ch_modes a))"
proof (cases "incoming_wins (param_current_ts P c a) ts")
  case True
  let ?b = "apply_param_mode_lww P c new ts a"
  have "filter P (ch_modes ?b) = (case new of Some m \<Rightarrow> [m] | None \<Rightarrow> [])"
    using True assms by (cases new) (simp_all add: apply_param_mode_lww_def Let_def filter_empty_conv)
  moreover have "map_of (ch_mode_timestamps ?b) c = Some ts"
    using True by (simp add: apply_param_mode_lww_def Let_def hash_simps)
  ultimately have "param_current_ts P c ?b = Some ts"
    unfolding param_current_ts_filter [of P c ?b] using assms by (cases new) simp_all
  with \<open>filter P (ch_modes ?b) = _\<close> True show ?thesis by simp
qed (simp add: apply_param_mode_lww_def)

text \<open>Writes to other modes.\<close>

lemma filter_insert_other: "\<not> P m \<Longrightarrow> filter P (List.insert m ms) = filter P ms"
  by (simp add: List.insert_def)

lemma filter_removeAll_other: "\<not> P m \<Longrightarrow> filter P (removeAll m ms) = filter P ms"
  by (induction ms) auto

lemma filter_disjoint: "(\<And>m. P m \<Longrightarrow> \<not> Q m) \<Longrightarrow> filter P (filter (\<lambda>m. \<not> Q m) ms) = filter P ms"
  by (induction ms) auto

lemma param_cross:
  assumes "\<And>m. P m \<Longrightarrow> \<not> Q m" and "c \<noteq> d" and "\<And>m. new = Some m \<Longrightarrow> \<not> P m"
  shows "filter P (ch_modes (apply_param_mode_lww Q d new ts a)) = filter P (ch_modes a) \<and>
    map_of (ch_mode_timestamps (apply_param_mode_lww Q d new ts a)) c = map_of (ch_mode_timestamps a) c"
  using assms(2,3) filter_disjoint [of P Q, OF assms(1)]
  by (cases new) (simp_all add: apply_param_mode_lww_def Let_def hash_simps filter_insert_other)

lemma key_limit_disjoint: "is_key m \<Longrightarrow> \<not> is_limit m" "is_limit m \<Longrightarrow> \<not> is_key m"
  by (cases m; simp)+

lemma param_other:
  assumes "(P = is_key \<and> c = ''k'' \<and> q \<noteq> PKey) \<or> (P = is_limit \<and> c = ''l'' \<and> q \<noteq> PLimit)"
  shows "param_current_ts P c (mode_effect q arg ts adding a) = param_current_ts P c a \<and>
    filter P (ch_modes (mode_effect q arg ts adding a)) = filter P (ch_modes a)"
proof -
  have "filter P (ch_modes (mode_effect q arg ts adding a)) = filter P (ch_modes a) \<and>
      map_of (ch_mode_timestamps (mode_effect q arg ts adding a)) c = map_of (ch_mode_timestamps a) c"
  proof (cases "remote_flag_mode q")
    case None
    note cross = param_cross [of is_key is_limit "''k''" "''l''" _ ts a, OF key_limit_disjoint(1)]
      param_cross [of is_limit is_key "''l''" "''k''" _ ts a, OF key_limit_disjoint(2)]
    have "filter is_key (ch_modes (mode_effect PLimit arg ts adding a)) = filter is_key (ch_modes a) \<and>
        map_of (ch_mode_timestamps (mode_effect PLimit arg ts adding a)) ''k'' = map_of (ch_mode_timestamps a) ''k''"
      using cross(1) [of None] cross(1) [of "Some (MLimit l ts)" for l]
      by (simp add: mode_effect_def split: option.split)
    moreover have "filter is_limit (ch_modes (mode_effect PKey arg ts adding a)) = filter is_limit (ch_modes a) \<and>
        map_of (ch_mode_timestamps (mode_effect PKey arg ts adding a)) ''l'' = map_of (ch_mode_timestamps a) ''l''"
      using cross(2) [of None] cross(2) [of "Some (MKey (the arg) ts)"]
      by (simp add: mode_effect_def)
    moreover have "q = PKey \<or> q = PLimit \<or> mode_effect q arg ts adding a = a"
      using None by (simp add: mode_effect_def)
    ultimately show ?thesis using assms by auto
  next
    case (Some cf)
    obtain c' f where q: "remote_flag_mode q = Some (c', f)" using Some by (cases cf) simp
    have "\<not> P f" "c \<noteq> c'" using remote_flag_letter [OF q] assms by auto
    then show ?thesis
      unfolding flag_mode_effect_same [OF q]
      by (simp add: apply_boolean_mode_lww_def hash_simps filter_insert_other filter_removeAll_other)
  qed
  then show ?thesis unfolding param_current_ts_filter by (simp split: list.split)
qed

fun key_write :: "remote_write \<Rightarrow> bool" where
  "key_write (RwMode _ _ (Plus q arg)) = (q = PKey \<and> arg \<noteq> None)"
| "key_write (RwMode _ _ (Minus q _)) = (q = PKey)"
| "key_write _ = False"

fun key_content :: "remote_write \<Rightarrow> channel_mode list" where
  "key_content (RwMode _ ts (Plus _ arg)) = (case arg of Some k \<Rightarrow> [MKey k ts] | None \<Rightarrow> [])"
| "key_content _ = []"

definition limit_arg :: "string option \<Rightarrow> nat option" where
  "limit_arg arg = Option.bind arg (parse_uint (2 ^ 64 - 1))"

fun limit_write :: "remote_write \<Rightarrow> bool" where
  "limit_write (RwMode _ _ (Plus q arg)) = (q = PLimit \<and> limit_arg arg \<noteq> None)"
| "limit_write (RwMode _ _ (Minus q _)) = (q = PLimit)"
| "limit_write _ = False"

fun limit_content :: "remote_write \<Rightarrow> channel_mode list" where
  "limit_content (RwMode _ ts (Plus _ arg)) = (case limit_arg arg of Some l \<Rightarrow> [MLimit l ts] | None \<Rightarrow> [])"
| "limit_content _ = []"

lemma param_frame:
  "ch_modes b = ch_modes a \<Longrightarrow> ch_mode_timestamps b = ch_mode_timestamps a \<Longrightarrow>
    param_current_ts P c b = param_current_ts P c a"
  by (simp only: param_current_ts_def)

lemma param_apply_remote:
  "param_current_ts P c (apply_remote_mode_with_lww q arg setter ts adding a) =
    param_current_ts P c (mode_effect q arg ts adding a)"
  by (rule param_frame) (simp_all add: modes_apply_remote)

lemma key_slot_laws:
  "param_current_ts is_key ''k'' (rw_step w a) =
    (if key_write w \<and> incoming_wins (param_current_ts is_key ''k'' a) (rw_stamp w) then Some (rw_stamp w)
     else param_current_ts is_key ''k'' a) \<and>
   filter is_key (ch_modes (rw_step w a)) =
    (if key_write w \<and> incoming_wins (param_current_ts is_key ''k'' a) (rw_stamp w) then key_content w
     else filter is_key (ch_modes a))"
proof (cases w)
  case (RwMode setter ts md)
  note other = param_other [of is_key "''k''" _ _ ts _ a] and same = param_same [of _ is_key ts "''k''" a]
  have key: "mode_effect PKey arg ts adding a = (if adding \<and> arg = None then a else
      apply_param_mode_lww is_key ''k'' (if adding then Some (MKey (the arg) ts) else None) ts a)" for arg adding
    by (simp add: mode_effect_def)
  show ?thesis
  proof (cases md)
    case (Plus q arg)
    then show ?thesis
      using other [of q arg True] same [of "Some (MKey (the arg) ts)"]
      by (cases "q = PKey"; cases arg) (auto simp: RwMode param_apply_remote modes_apply_remote key)
  next
    case (Minus q arg)
    then show ?thesis
      using other [of q arg False] same [of None]
      by (cases "q = PKey") (auto simp: RwMode param_apply_remote modes_apply_remote key)
  qed (simp add: RwMode)
qed (simp_all add: handle_remote_topic_def Let_def param_current_ts_def split: option.split)

lemma limit_slot_laws:
  "param_current_ts is_limit ''l'' (rw_step w a) =
    (if limit_write w \<and> incoming_wins (param_current_ts is_limit ''l'' a) (rw_stamp w) then Some (rw_stamp w)
     else param_current_ts is_limit ''l'' a) \<and>
   filter is_limit (ch_modes (rw_step w a)) =
    (if limit_write w \<and> incoming_wins (param_current_ts is_limit ''l'' a) (rw_stamp w) then limit_content w
     else filter is_limit (ch_modes a))"
proof (cases w)
  case (RwMode setter ts md)
  note other = param_other [of is_limit "''l''" _ _ ts _ a] and same = param_same [of _ is_limit ts "''l''" a]
  have limit: "mode_effect PLimit arg ts adding a = (case (if adding then limit_arg arg else Some 0) of
      None \<Rightarrow> a
    | Some l \<Rightarrow> apply_param_mode_lww is_limit ''l'' (if adding then Some (MLimit l ts) else None) ts a)" for arg adding
    by (simp add: mode_effect_def limit_arg_def)
  show ?thesis
  proof (cases md)
    case (Plus q arg)
    then show ?thesis
      using other [of q arg True] same [of "Some (MLimit (the (limit_arg arg)) ts)"]
      by (cases "q = PLimit"; cases "limit_arg arg") (auto simp: RwMode param_apply_remote modes_apply_remote limit)
  next
    case (Minus q arg)
    then show ?thesis
      using other [of q arg False] same [of None]
      by (cases "q = PLimit") (auto simp: RwMode param_apply_remote modes_apply_remote limit)
  qed (simp add: RwMode)
qed (simp_all add: handle_remote_topic_def Let_def param_current_ts_def split: option.split)

interpretation key_slot: lww_slot rw_step key_write rw_stamp key_content "param_current_ts is_key ''k''"
  "\<lambda>a. filter is_key (ch_modes a)"
  by unfold_locales (simp_all only: key_slot_laws)

interpretation limit_slot: lww_slot rw_step limit_write rw_stamp limit_content "param_current_ts is_limit ''l''"
  "\<lambda>a. filter is_limit (ch_modes a)"
  by unfold_locales (simp_all only: limit_slot_laws)

section \<open>Order independence\<close>

text \<open>Two writes to one slot at one timestamp write the same.\<close>

definition consistent :: "remote_write set \<Rightarrow> bool" where
  "consistent W \<longleftrightarrow> (\<forall>w \<in> W. \<forall>v \<in> W. rw_stamp w = rw_stamp v \<longrightarrow>
    (topic_write w \<and> topic_write v \<longrightarrow> topic_content w = topic_content v) \<and>
    (\<forall>p. flag_write p w \<and> flag_write p v \<longrightarrow> flag_content w = flag_content v) \<and>
    (key_write w \<and> key_write v \<longrightarrow> key_content w = key_content v) \<and>
    (limit_write w \<and> limit_write v \<longrightarrow> limit_content w = limit_content v))"

text \<open>C4. Remote changes commute: if the same \<open>TOPIC\<close> and \<open>TMODE\<close> events reach an actor in different
  orders and numbers, it ends with the same topic, the same flag modes, the same key and the same
  limit, with the same timestamps, provided no two of the writes give one slot different contents at
  one timestamp.\<close>

theorem remote_changes_commute:
  assumes "list_all is_remote_change evs" and "list_all is_remote_change evs'" and "set evs = set evs'"
    and "consistent (\<Union>ev \<in> set evs. set (writes_of ev))"
  shows "ch_topic (fst (run evs a)) = ch_topic (fst (run evs' a)) \<and>
    ch_topic_timestamp (fst (run evs a)) = ch_topic_timestamp (fst (run evs' a)) \<and>
    (\<forall>p. flag_view p (fst (run evs a)) = flag_view p (fst (run evs' a)) \<and>
      flag_cur p (fst (run evs a)) = flag_cur p (fst (run evs' a))) \<and>
    filter is_key (ch_modes (fst (run evs a))) = filter is_key (ch_modes (fst (run evs' a))) \<and>
    filter is_limit (ch_modes (fst (run evs a))) = filter is_limit (ch_modes (fst (run evs' a)))"
proof -
  let ?ws = "concat (map writes_of evs)" and ?vs = "concat (map writes_of evs')"
  have same: "set ?ws = set ?vs" using assms(3) by simp
  have con: "consistent (set ?ws)" using assms(4) by simp
  have "topic_content w = topic_content v"
    if "w \<in> set ?ws" "v \<in> set ?ws" "topic_write w" "topic_write v" "rw_stamp w = rw_stamp v" for w v
    using con that unfolding consistent_def by blast
  note topic_slot.order_independent [OF same this, of a]
  moreover have flags: "flag_content w = flag_content v"
    if "w \<in> set ?ws" "v \<in> set ?ws" "flag_write p w" "flag_write p v" "rw_stamp w = rw_stamp v" for p w v
    using con that unfolding consistent_def by blast
  have "flag_view p (fold rw_step ?ws a) = flag_view p (fold rw_step ?vs a) \<and>
      flag_cur p (fold rw_step ?ws a) = flag_cur p (fold rw_step ?vs a)" for p
    using flags by (intro flag_slot.order_independent [OF same]) blast
  moreover have "key_content w = key_content v"
    if "w \<in> set ?ws" "v \<in> set ?ws" "key_write w" "key_write v" "rw_stamp w = rw_stamp v" for w v
    using con that unfolding consistent_def by blast
  note key_slot.order_independent [OF same this, of a]
  moreover have "limit_content w = limit_content v"
    if "w \<in> set ?ws" "v \<in> set ?ws" "limit_write w" "limit_write v" "rw_stamp w = rw_stamp v" for w v
    using con that unfolding consistent_def by blast
  note limit_slot.order_independent [OF same this, of a]
  ultimately show ?thesis unfolding run_writes [OF assms(1)] run_writes [OF assms(2)] by blast
qed

text \<open>Two servers set the topic and the key; the channel ends the same both ways.\<close>

theorem remote_changes_commute_witness:
  "ch_topic (fst (run
      [(sample_env, EvRemoteTopic 5 ''002AAAAAA'' ''new''), (sample_env, EvRemoteMode 4 ''003AAAAAA'' ''+k'' [''pw''])]
      sample_channel)) =
   ch_topic (fst (run
      [(sample_env, EvRemoteMode 4 ''003AAAAAA'' ''+k'' [''pw'']), (sample_env, EvRemoteTopic 5 ''002AAAAAA'' ''new'')]
      sample_channel))"
proof -
  let ?t = "(sample_env, EvRemoteTopic 5 ''002AAAAAA'' ''new'')"
  let ?m = "(sample_env, EvRemoteMode 4 ''003AAAAAA'' ''+k'' [''pw''])"
  have "remote_parse_modes ''+k'' [''pw''] = [Plus PKey (Some ''pw'')]"
    by (simp add: remote_parse_modes_def is_cont_def byte_of_def proto_mode_from_char_def remote_takes_arg_def)
  then have "consistent (\<Union>ev \<in> set [?t, ?m]. set (writes_of ev))"
    by (auto simp: consistent_def)
  then show ?thesis
    using remote_changes_commute [of "[?t, ?m]" "[?m, ?t]" sample_channel]
    by (simp add: is_remote_change_def insert_commute)
qed

end
