(* ===== verification/Wire.thy ===== *)
theory Wire
  imports Proto_Text
begin

text \<open>
  The wire format of a message: the parser of \<open>crates/slirc-proto/src/message/nom_parser.rs\<close>, the
  borrowed message of \<open>message/borrowed.rs\<close> with its printer \<open>to_raw_owned\<close> and its encoder
  (\<open>encode/message.rs\<close>).

  A parser takes the input and returns the rest with its result, or the position and kind of nom's
  error.  The delimiters are ASCII, so the parsers run over bytes; only the command name is taken
  character by character, and there the classification of the characters beyond ASCII by
  \<open>char::is_alphanumeric\<close> (Unicode's tables) is the argument \<open>ua\<close>: every theorem holds for each.
\<close>

section \<open>The parser\<close>

definition is_eol :: "char \<Rightarrow> bool" where
  "is_eol c \<longleftrightarrow> c = CHR 0x0D \<or> c = CHR 0x0A"

definition is_ascii_alnum :: "char \<Rightarrow> bool" where
  "is_ascii_alnum c \<longleftrightarrow> is_ascii_alphabetic c \<or> is_ascii_digit c"

definition is_alphanumeric :: "(string \<Rightarrow> bool) \<Rightarrow> string \<Rightarrow> bool" where
  "is_alphanumeric ua g =
    (if byte_of (hd g) < 128 then is_ascii_alnum (hd g) else ua g)"

datatype nom_kind = KindChar | TakeUntil | TakeWhile1 | AlphaNumeric

type_synonym 'a nom_result = "(string \<times> nom_kind) + (string \<times> 'a)"

text \<open>The combinators \<open>opt\<close> and \<open>space0\<close>.\<close>

definition nom_opt :: "(string \<Rightarrow> 'a nom_result) \<Rightarrow> string \<Rightarrow> string \<times> 'a option" where
  "nom_opt p input =
    (case p input of Inl e \<Rightarrow> (input, None) | Inr (rest, x) \<Rightarrow> (rest, Some x))"

definition space0 :: "string \<Rightarrow> string" where
  "space0 input = dropWhile (\<lambda>c. c = CHR '' '' \<or> c = CHR 0x09) input"

definition parse_tags :: "string \<Rightarrow> string nom_result" where
  "parse_tags input =
    (case input of
       [] \<Rightarrow> Inl (input, KindChar)
     | c # r \<Rightarrow>
         if c \<noteq> CHR ''@'' then Inl (input, KindChar)
         else if CHR '' '' \<notin> set r then Inl (r, TakeUntil)
         else Inr (dropWhile (\<lambda>d. d \<noteq> CHR '' '') r, takeWhile (\<lambda>d. d \<noteq> CHR '' '') r))"

definition parse_prefix :: "string \<Rightarrow> string nom_result" where
  "parse_prefix input =
    (case input of
       [] \<Rightarrow> Inl (input, KindChar)
     | c # r \<Rightarrow>
         if c \<noteq> CHR '':'' then Inl (input, KindChar)
         else if takeWhile (\<lambda>d. d \<noteq> CHR '' '') r = [] then Inl (r, TakeWhile1)
         else Inr (dropWhile (\<lambda>d. d \<noteq> CHR '' '') r, takeWhile (\<lambda>d. d \<noteq> CHR '' '') r))"

definition parse_command :: "(string \<Rightarrow> bool) \<Rightarrow> string \<Rightarrow> string nom_result" where
  "parse_command ua input =
    (let gs = rust_chars input;
         cmd = concat (takeWhile (is_alphanumeric ua) gs);
         rest = concat (dropWhile (is_alphanumeric ua) gs)
     in if cmd = [] then Inl (input, TakeWhile1)
        else
          let is_all_letters = list_all is_ascii_alphabetic cmd;
              is_three_digits = (length cmd = 3 \<and> list_all is_ascii_digit cmd)
          in if is_all_letters \<or> is_three_digits then Inr (rest, cmd)
             else Inl (input, AlphaNumeric))"

text \<open>The loop of \<open>parse_params\<close>, with the vector it pushes to and the unread rest.\<close>

function param_loop :: "string list \<Rightarrow> string \<Rightarrow> string \<times> string list" where
  "param_loop params rest =
    (if rest = [] \<or> hd rest \<noteq> CHR '' '' then (rest, params)
     else if 15 \<le> length params then (rest, params)
     else
       let rest1 = dropWhile (\<lambda>c. c = CHR '' '') rest in
       if rest1 = [] \<or> is_eol (hd rest1) then (rest1, params)
       else if hd rest1 = CHR '':'' then
         let after_colon = tl rest1 in
         (dropWhile (\<lambda>c. \<not> is_eol c) after_colon,
          params @ [takeWhile (\<lambda>c. \<not> is_eol c) after_colon])
       else
         let param = takeWhile (\<lambda>c. c \<noteq> CHR '' '' \<and> \<not> is_eol c) rest1 in
         if param = [] then (rest1, params)
         else param_loop (params @ [param]) (drop (length param) rest1))"
  by pat_completeness auto
termination
  by (relation "measure (\<lambda>(params, rest). 15 - length params)") auto

declare param_loop.simps [simp del]

definition parse_params :: "string \<Rightarrow> string \<times> string list" where
  "parse_params input = param_loop [] input"

record parsed_message =
  pm_tags :: "string option"
  pm_prefix :: "string option"
  pm_command :: string
  pm_params :: "string list"

definition parse_message :: "(string \<Rightarrow> bool) \<Rightarrow> string \<Rightarrow> parsed_message nom_result" where
  "parse_message ua input =
    (let (input, tags) = nom_opt parse_tags input;
         input = space0 input;
         (input, pfx) = nom_opt parse_prefix input;
         input = space0 input
     in case parse_command ua input of
          Inl e \<Rightarrow> Inl e
        | Inr (input, command) \<Rightarrow>
            let (rest, params) = parse_params input in
            Inr (rest, \<lparr>pm_tags = tags, pm_prefix = pfx, pm_command = command, pm_params = params\<rparr>))"

record detailed_parse_error =
  dpe_input :: string
  dpe_position :: nat
  dpe_kind :: nom_kind

definition parsed_message_parse ::
  "(string \<Rightarrow> bool) \<Rightarrow> string \<Rightarrow> detailed_parse_error + parsed_message" where
  "parsed_message_parse ua input =
    (case parse_message ua input of
       Inr (remaining, msg) \<Rightarrow> Inr msg
     | Inl (at, kind) \<Rightarrow>
         Inl \<lparr>dpe_input = input, dpe_position = length input - length at, dpe_kind = kind\<rparr>)"

section \<open>The borrowed message\<close>

record command_ref =
  cr_name :: string
  cr_args :: "string list"

record message_ref =
  mr_tags :: "string option"
  mr_prefix :: "prefix_ref option"
  mr_command :: command_ref
  mr_raw :: string

datatype message_parse_error = EmptyMessage | InvalidCommand

definition trim_end_eol :: "string \<Rightarrow> string" where
  "trim_end_eol s = rev (dropWhile is_eol (rev s))"

definition message_ref_parse ::
  "(string \<Rightarrow> bool) \<Rightarrow> string \<Rightarrow> message_parse_error + message_ref" where
  "message_ref_parse ua s =
    (if s = [] then Inl EmptyMessage
     else case parsed_message_parse ua (trim_end_eol s) of
       Inl _ \<Rightarrow> Inl InvalidCommand
     | Inr parsed \<Rightarrow>
         Inr \<lparr>mr_tags = pm_tags parsed,
              mr_prefix = map_option prefix_ref_parse (pm_prefix parsed),
              mr_command = \<lparr>cr_name = pm_command parsed, cr_args = pm_params parsed\<rparr>,
              mr_raw = s\<rparr>)"

definition message_arg :: "message_ref \<Rightarrow> nat \<Rightarrow> string option" where
  "message_arg m index =
    (if index < length (cr_args (mr_command m)) then Some (cr_args (mr_command m) ! index) else None)"

fun find_tag :: "string \<Rightarrow> string list \<Rightarrow> string option" where
  "find_tag key [] = None"
| "find_tag key (t # ts) =
    (case split_once CHR ''='' t of
       Some (k, v) \<Rightarrow> if k = key then Some v else find_tag key ts
     | None \<Rightarrow> if t = key then Some [] else find_tag key ts)"

definition message_tag_value :: "message_ref \<Rightarrow> string \<Rightarrow> string option" where
  "message_tag_value m key =
    (case mr_tags m of None \<Rightarrow> None | Some tags \<Rightarrow> find_tag key (split_on CHR '';'' tags))"

definition message_has_tag :: "message_ref \<Rightarrow> string \<Rightarrow> bool" where
  "message_has_tag m key =
    (case mr_tags m of
       None \<Rightarrow> False
     | Some tags \<Rightarrow>
         list_ex (\<lambda>t. (case split_once CHR ''='' t of Some (k, _) \<Rightarrow> k | None \<Rightarrow> t) = key)
           (split_on CHR '';'' tags))"

definition message_tags_iter :: "message_ref \<Rightarrow> (string \<times> string) list" where
  "message_tags_iter m =
    (case mr_tags m of
       None \<Rightarrow> []
     | Some tags \<Rightarrow>
         map (\<lambda>t. case split_once CHR ''='' t of Some kv \<Rightarrow> kv | None \<Rightarrow> (t, []))
           (split_on CHR '';'' tags))"

text \<open>The printer: the last argument gets a colon where the parser needs one.\<close>

definition needs_colon_prefix :: "string \<Rightarrow> bool" where
  "needs_colon_prefix s \<longleftrightarrow> s = [] \<or> CHR '' '' \<in> set s \<or> hd s = CHR '':''"

fun raw_args :: "string list \<Rightarrow> string" where
  "raw_args [] = []"
| "raw_args [a] = CHR '' '' # (if needs_colon_prefix a then CHR '':'' # a else a)"
| "raw_args (a # b # as) = CHR '' '' # a @ raw_args (b # as)"

definition to_raw_owned :: "message_ref \<Rightarrow> string" where
  "to_raw_owned m =
    (case mr_tags m of None \<Rightarrow> [] | Some tags \<Rightarrow> CHR ''@'' # tags @ '' '')
    @ (case mr_prefix m of None \<Rightarrow> [] | Some p \<Rightarrow> CHR '':'' # pr_raw p @ '' '')
    @ cr_name (mr_command m) @ raw_args (cr_args (mr_command m))"

text \<open>\<open>IrcEncode for MessageRef\<close> writes the arguments as they are, here to a writer that takes every write
  whole.\<close>

definition CRLF :: string where
  "CRLF = [CHR 0x0D, CHR 0x0A]"

definition message_ref_encode :: "message_ref \<Rightarrow> string" where
  "message_ref_encode m =
    (case mr_tags m of None \<Rightarrow> [] | Some tags \<Rightarrow> CHR ''@'' # tags @ '' '')
    @ (case mr_prefix m of None \<Rightarrow> [] | Some p \<Rightarrow> CHR '':'' # pr_raw p @ '' '')
    @ cr_name (mr_command m) @ concat (map (\<lambda>a. CHR '' '' # a) (cr_args (mr_command m))) @ CRLF"

definition to_raw_string :: "command_ref \<Rightarrow> string" where
  "to_raw_string c =
    (if cr_args c = [] then cr_name c else cr_name c @ '' '' @ join_with '' '' (cr_args c))"

definition is_numeric :: "message_ref \<Rightarrow> bool" where
  "is_numeric m \<longleftrightarrow>
    length (cr_name (mr_command m)) = 3 \<and> list_all is_ascii_digit (cr_name (mr_command m))"

section \<open>What the parser returns\<close>

text \<open>A parameter other than the last, the last one, and the vector the loop builds.\<close>

definition middle_ok :: "string \<Rightarrow> bool" where
  "middle_ok a \<longleftrightarrow> a \<noteq> [] \<and> hd a \<noteq> CHR '':'' \<and> list_all (\<lambda>c. c \<noteq> CHR '' '' \<and> \<not> is_eol c) a"

definition last_ok :: "string \<Rightarrow> bool" where
  "last_ok a \<longleftrightarrow> list_all (\<lambda>c. \<not> is_eol c) a"

definition args_ok :: "string list \<Rightarrow> bool" where
  "args_ok as \<longleftrightarrow> list_all middle_ok (butlast as) \<and> (as \<noteq> [] \<longrightarrow> last_ok (last as)) \<and> length as \<le> 15"

definition name_ok :: "string \<Rightarrow> bool" where
  "name_ok cmd \<longleftrightarrow>
    cmd \<noteq> [] \<and> (list_all is_ascii_alphabetic cmd \<or> length cmd = 3 \<and> list_all is_ascii_digit cmd)"

definition message_ok :: "message_ref \<Rightarrow> bool" where
  "message_ok m \<longleftrightarrow>
    (\<forall>tags. mr_tags m = Some tags \<longrightarrow> CHR '' '' \<notin> set tags)
    \<and> (\<forall>p. mr_prefix m = Some p \<longrightarrow>
         p = prefix_ref_parse (pr_raw p) \<and> pr_raw p \<noteq> [] \<and> CHR '' '' \<notin> set (pr_raw p))
    \<and> name_ok (cr_name (mr_command m)) \<and> args_ok (cr_args (mr_command m))"

lemma not_eol: "\<not> is_eol CHR '' ''" "\<not> is_eol CHR '':''" "\<not> is_eol CHR ''@''"
  by (simp_all add: is_eol_def)

lemma middle_last: "middle_ok a \<Longrightarrow> last_ok a"
  by (auto simp: middle_ok_def last_ok_def list_all_iff)

lemma middle_takeWhile:
  assumes "r \<noteq> []" "hd r \<noteq> CHR '':''" "takeWhile (\<lambda>c. c \<noteq> CHR '' '' \<and> \<not> is_eol c) r \<noteq> []"
  shows "middle_ok (takeWhile (\<lambda>c. c \<noteq> CHR '' '' \<and> \<not> is_eol c) r)"
  using assms by (cases r) (auto simp: middle_ok_def list_all_iff dest: set_takeWhileD)

lemma args_ok_snoc: "list_all middle_ok ps \<Longrightarrow> length ps < 15 \<Longrightarrow> last_ok a \<Longrightarrow> args_ok (ps @ [a])"
  by (simp add: args_ok_def)

lemma args_ok_middle:
  assumes "list_all middle_ok ps" "length ps \<le> 15"
  shows "args_ok ps"
proof -
  have "list_all middle_ok (butlast ps)" using assms(1) by (auto simp: list_all_iff dest: in_set_butlastD)
  moreover have "ps \<noteq> [] \<longrightarrow> last_ok (last ps)"
    using assms(1) by (auto simp: list_all_iff intro: middle_last)
  ultimately show ?thesis using assms(2) by (simp add: args_ok_def)
qed

lemma param_loop_ok:
  "list_all middle_ok ps \<Longrightarrow> length ps \<le> 15 \<Longrightarrow> args_ok (snd (param_loop ps rest))"
proof (induction ps rest rule: param_loop.induct)
  case (1 ps rest)
  let ?r = "dropWhile (\<lambda>c. c = CHR '' '') rest"
  let ?p = "takeWhile (\<lambda>c. c \<noteq> CHR '' '' \<and> \<not> is_eol c) ?r"
  have here: "args_ok ps" by (rule args_ok_middle [OF 1(2,3)])
  show ?case
  proof (cases "rest = [] \<or> hd rest \<noteq> CHR '' '' \<or> 15 \<le> length ps \<or> ?r = [] \<or> is_eol (hd ?r)")
    case True
    then show ?thesis using here by (subst param_loop.simps) (auto simp: Let_def)
  next
    case False
    note run = False
    show ?thesis
    proof (cases "hd ?r = CHR '':''")
      case True
      have "last_ok (takeWhile (\<lambda>c. \<not> is_eol c) (tl ?r))"
        by (auto simp: last_ok_def list_all_iff dest: set_takeWhileD)
      then have "args_ok (ps @ [takeWhile (\<lambda>c. \<not> is_eol c) (tl ?r)])"
        using run args_ok_snoc [OF 1(2)] by simp
      moreover have "?r \<noteq> []" using run by blast
      ultimately show ?thesis using run True
        by (subst param_loop.simps) (auto simp: Let_def)
    next
      case False
      show ?thesis
      proof (cases "?p = []")
        case True
        then show ?thesis using run False here by (subst param_loop.simps) (simp add: Let_def)
      next
        case more: False
        have "middle_ok ?p" using run False more by (intro middle_takeWhile) auto
        then have "args_ok (snd (param_loop (ps @ [?p]) (drop (length ?p) ?r)))"
          using run False more 1(2) by (intro 1(1) [OF _ _ refl]) auto
        moreover have "?r \<noteq> []" using run by blast
        ultimately show ?thesis using run False more by (subst param_loop.simps) (auto simp: Let_def)
      qed
    qed
  qed
qed

lemma parse_params_ok: "args_ok (snd (parse_params s))"
  unfolding parse_params_def by (rule param_loop_ok) auto

lemma parse_command_ok: "parse_command ua s = Inr (rest, cmd) \<Longrightarrow> name_ok cmd"
  by (auto simp: parse_command_def name_ok_def Let_def split: if_splits)

lemma nom_opt_tags: "nom_opt parse_tags s = (r, Some tags) \<Longrightarrow> CHR '' '' \<notin> set tags"
  by (auto simp: nom_opt_def parse_tags_def split: sum.splits prod.splits list.splits if_splits
      dest: set_takeWhileD)

lemma nom_opt_prefix: "nom_opt parse_prefix s = (r, Some p) \<Longrightarrow> p \<noteq> [] \<and> CHR '' '' \<notin> set p"
  by (auto simp: nom_opt_def parse_prefix_def split: sum.splits prod.splits list.splits if_splits
      dest: set_takeWhileD)

lemma prefix_ref_raw [simp]: "pr_raw (prefix_ref_parse s) = s"
  by (simp add: prefix_ref_parse_def split: option.split prod.split)

lemma parse_message_ok:
  assumes "parse_message ua s = Inr (rest, m)"
  shows "(\<forall>tags. pm_tags m = Some tags \<longrightarrow> CHR '' '' \<notin> set tags)
    \<and> (\<forall>p. pm_prefix m = Some p \<longrightarrow> p \<noteq> [] \<and> CHR '' '' \<notin> set p)
    \<and> name_ok (pm_command m) \<and> args_ok (pm_params m)"
proof -
  obtain r1 tags where t: "nom_opt parse_tags s = (r1, tags)" by fastforce
  obtain r2 pfx where p: "nom_opt parse_prefix (space0 r1) = (r2, pfx)" by fastforce
  obtain r3 cmd where c: "parse_command ua (space0 r2) = Inr (r3, cmd)"
    using assms t p by (cases "parse_command ua (space0 r2)") (auto simp: parse_message_def)
  obtain r4 ps where a: "parse_params r3 = (r4, ps)" by fastforce
  have m: "m = \<lparr>pm_tags = tags, pm_prefix = pfx, pm_command = cmd, pm_params = ps\<rparr>"
    using assms by (simp add: parse_message_def t p c a)
  show ?thesis
    using nom_opt_tags [of s r1] t nom_opt_prefix [of _ r2] p parse_command_ok [OF c] parse_params_ok [of r3] a
    by (auto simp: m)
qed

section \<open>Printing and parsing again\<close>

lemma drop_takeWhile_length: "drop (length (takeWhile P xs)) xs = dropWhile P xs"
  by (simp add: dropWhile_eq_drop)

lemma middle_step:
  assumes "middle_ok a" "r = [] \<or> hd r = CHR '' ''"
  shows "takeWhile (\<lambda>c. c \<noteq> CHR '' '' \<and> \<not> is_eol c) (a @ r) = a"
    and "dropWhile (\<lambda>c. c = CHR '' '') (CHR '' '' # a @ r) = a @ r"
    and "\<not> is_eol (hd (a @ r))" "hd (a @ r) \<noteq> CHR '':''"
proof -
  show "takeWhile (\<lambda>c. c \<noteq> CHR '' '' \<and> \<not> is_eol c) (a @ r) = a"
    using assms by (cases r) (auto simp: middle_ok_def list_all_iff)
  show "dropWhile (\<lambda>c. c = CHR '' '') (CHR '' '' # a @ r) = a @ r"
    "\<not> is_eol (hd (a @ r))" "hd (a @ r) \<noteq> CHR '':''"
    using assms(1) by (cases a; auto simp: middle_ok_def)+
qed

lemma raw_args_start: "raw_args as = [] \<or> hd (raw_args as) = CHR '' ''"
  by (cases as rule: raw_args.cases) auto

lemma param_loop_middle:
  assumes "middle_ok a" "r = [] \<or> hd r = CHR '' ''" "length ps < 15"
  shows "param_loop ps (CHR '' '' # a @ r) = param_loop (ps @ [a]) r"
proof -
  have "a \<noteq> []" using assms(1) by (simp add: middle_ok_def)
  then show ?thesis
    using middle_step [OF assms(1,2)] assms(3) by (subst param_loop.simps) (simp add: Let_def)
qed

lemma param_loop_end: "param_loop ps [] = ([], ps)"
  by (subst param_loop.simps) simp

lemma param_loop_trailing:
  assumes "last_ok a" "length ps < 15"
  shows "param_loop ps (CHR '' '' # CHR '':'' # a) = ([], ps @ [a])"
proof -
  have "takeWhile (\<lambda>c. \<not> is_eol c) a = a" "dropWhile (\<lambda>c. \<not> is_eol c) a = []"
    using assms(1) by (simp_all add: last_ok_def list_all_iff takeWhile_eq_all_conv)
  then show ?thesis using assms(2) by (subst param_loop.simps) (simp add: Let_def not_eol)
qed

lemma param_loop_last:
  assumes "last_ok a" "length ps < 15"
  shows "param_loop ps (raw_args [a]) = ([], ps @ [a])"
proof (cases "needs_colon_prefix a")
  case True
  then show ?thesis using param_loop_trailing [OF assms] by simp
next
  case False
  then have "middle_ok a"
    using assms(1) by (auto simp: needs_colon_prefix_def middle_ok_def last_ok_def list_all_iff)
  then show ?thesis
    using False param_loop_middle [of a "[]" ps] assms(2) by (simp add: param_loop_end)
qed

lemma param_loop_raw_args:
  "list_all middle_ok (butlast as) \<Longrightarrow> as \<noteq> [] \<longrightarrow> last_ok (last as) \<Longrightarrow> length ps + length as \<le> 15 \<Longrightarrow>
    param_loop ps (raw_args as) = ([], ps @ as)"
proof (induction as arbitrary: ps rule: raw_args.induct)
  case 1
  then show ?case by (simp add: param_loop_end)
next
  case (2 a)
  then show ?case by (intro param_loop_last) auto
next
  case (3 a b as)
  have "param_loop ps (raw_args (a # b # as)) = param_loop (ps @ [a]) (raw_args (b # as))"
    using param_loop_middle [of a "raw_args (b # as)" ps] raw_args_start [of "b # as"] 3(2,4) by simp
  then show ?case using 3 by simp
qed

lemma parse_params_raw_args: "args_ok as \<Longrightarrow> parse_params (raw_args as) = ([], as)"
  using param_loop_raw_args [of as "[]"] by (simp add: parse_params_def args_ok_def)

lemma rust_chars_ascii_append:
  assumes "list_all (\<lambda>c. byte_of c < 128) a" "r = [] \<or> \<not> is_cont (hd r)"
  shows "rust_chars (a @ r) = map (\<lambda>c. [c]) a @ rust_chars r"
  using assms
proof (induction a)
  case (Cons c a)
  have "takeWhile is_cont (a @ r) = []" "dropWhile is_cont (a @ r) = a @ r"
    using Cons.prems by (cases a; cases r; auto simp: is_cont_def)+
  then show ?case using Cons by simp
qed simp

lemma name_ascii: "name_ok n \<Longrightarrow> list_all (\<lambda>c. byte_of c < 128 \<and> is_ascii_alnum c) n"
  by (auto simp: name_ok_def list_all_iff is_ascii_alnum_def is_ascii_alphabetic_def is_ascii_digit_def)

lemma space_class: "\<not> is_cont CHR '' ''" "\<not> is_alphanumeric ua (CHR '' '' # g)"
  by (simp_all add: is_cont_def byte_of_def is_alphanumeric_def is_ascii_alnum_def
      is_ascii_alphabetic_def is_ascii_digit_def)

lemma parse_command_print:
  assumes "name_ok n" "r = [] \<or> hd r = CHR '' ''"
  shows "parse_command ua (n @ r) = Inr (r, n)"
proof -
  have asc: "list_all (\<lambda>c. byte_of c < 128) n" using name_ascii [OF assms(1)] by (simp add: list_all_iff)
  have stop: "r = [] \<or> \<not> is_cont (hd r)" using assms(2) by (auto simp: space_class)
  have all: "\<forall>g \<in> set (map (\<lambda>c. [c]) n). is_alphanumeric ua g"
    using name_ascii [OF assms(1)] by (auto simp: list_all_iff is_alphanumeric_def)
  have "takeWhile (is_alphanumeric ua) (rust_chars r) = []"
    "dropWhile (is_alphanumeric ua) (rust_chars r) = rust_chars r"
    using assms(2) by (cases r; simp add: space_class)+
  then have "takeWhile (is_alphanumeric ua) (rust_chars (n @ r)) = map (\<lambda>c. [c]) n"
    "dropWhile (is_alphanumeric ua) (rust_chars (n @ r)) = rust_chars r"
    unfolding rust_chars_ascii_append [OF asc stop]
    using all takeWhile_append2 [of "map (\<lambda>c. [c]) n" "is_alphanumeric ua" "rust_chars r"]
      dropWhile_append2 [of "map (\<lambda>c. [c]) n" "is_alphanumeric ua" "rust_chars r"] by auto
  then have "concat (takeWhile (is_alphanumeric ua) (rust_chars (n @ r))) = n"
    "concat (dropWhile (is_alphanumeric ua) (rust_chars (n @ r))) = r"
    by simp_all
  then show ?thesis
    using assms(1) by (simp add: parse_command_def name_ok_def Let_def del: concat_eq_Nil_conv)
qed

lemma no_space_takeWhile:
  assumes "CHR '' '' \<notin> set a"
  shows "takeWhile (\<lambda>d. d \<noteq> CHR '' '') (a @ CHR '' '' # r) = a"
    and "dropWhile (\<lambda>d. d \<noteq> CHR '' '') (a @ CHR '' '' # r) = CHR '' '' # r"
  using assms by (induction a) auto

lemma opt_tags_print:
  "CHR '' '' \<notin> set t \<Longrightarrow> nom_opt parse_tags (CHR ''@'' # t @ CHR '' '' # r) = (CHR '' '' # r, Some t)"
  by (simp add: nom_opt_def parse_tags_def no_space_takeWhile)

lemma opt_prefix_print:
  "CHR '' '' \<notin> set p \<Longrightarrow> p \<noteq> [] \<Longrightarrow>
    nom_opt parse_prefix (CHR '':'' # p @ CHR '' '' # r) = (CHR '' '' # r, Some p)"
  by (cases p) (auto simp: nom_opt_def parse_prefix_def no_space_takeWhile)

lemma opt_absent:
  "s \<noteq> [] \<Longrightarrow> hd s \<noteq> CHR ''@'' \<Longrightarrow> nom_opt parse_tags s = (s, None)"
  "s \<noteq> [] \<Longrightarrow> hd s \<noteq> CHR '':'' \<Longrightarrow> nom_opt parse_prefix s = (s, None)"
  by (cases s; simp add: nom_opt_def parse_tags_def parse_prefix_def)+

lemma space0_start:
  "space0 (CHR '' '' # s) = space0 s"
  "s \<noteq> [] \<Longrightarrow> hd s \<noteq> CHR '' '' \<Longrightarrow> hd s \<noteq> CHR 0x09 \<Longrightarrow> space0 s = s"
  by (cases s; simp add: space0_def)+

lemma name_start:
  assumes "name_ok n"
  shows "n \<noteq> []" "hd n \<noteq> CHR '' ''" "hd n \<noteq> CHR 0x09" "hd n \<noteq> CHR ''@''" "hd n \<noteq> CHR '':''"
proof -
  have "is_ascii_alnum (hd n)" "n \<noteq> []"
    using name_ascii [OF assms] assms by (cases n; simp add: name_ok_def)+
  moreover have "\<not> is_ascii_alnum CHR '' ''" "\<not> is_ascii_alnum CHR 0x09"
    "\<not> is_ascii_alnum CHR ''@''" "\<not> is_ascii_alnum CHR '':''"
    by (simp_all add: is_ascii_alnum_def is_ascii_alphabetic_def is_ascii_digit_def byte_of_def)
  ultimately show "n \<noteq> []" "hd n \<noteq> CHR '' ''" "hd n \<noteq> CHR 0x09" "hd n \<noteq> CHR ''@''" "hd n \<noteq> CHR '':''"
    by metis+
qed

text \<open>The parser after the tag section, and after the prefix.\<close>

lemma parse_message_front:
  assumes n: "name_ok n" and args: "args = [] \<or> hd args = CHR '' ''"
    and t: "\<forall>t. tags = Some t \<longrightarrow> CHR '' '' \<notin> set t"
    and p: "\<forall>q. pfx = Some q \<longrightarrow> q \<noteq> [] \<and> CHR '' '' \<notin> set q"
  shows "parse_message ua
    ((case tags of None \<Rightarrow> [] | Some t \<Rightarrow> CHR ''@'' # t @ '' '')
     @ (case pfx of None \<Rightarrow> [] | Some q \<Rightarrow> CHR '':'' # q @ '' '') @ n @ args)
    = Inr (fst (parse_params args),
        \<lparr>pm_tags = tags, pm_prefix = pfx, pm_command = n, pm_params = snd (parse_params args)\<rparr>)"
proof -
  let ?body = "n @ args"
  let ?rest = "(case pfx of None \<Rightarrow> [] | Some q \<Rightarrow> CHR '':'' # q @ '' '') @ ?body"
  have b: "?body \<noteq> []" "hd ?body \<noteq> CHR '' ''" "hd ?body \<noteq> CHR 0x09" "hd ?body \<noteq> CHR ''@''" "hd ?body \<noteq> CHR '':''"
    using name_start [OF n] by auto
  have r: "?rest \<noteq> []" "hd ?rest \<noteq> CHR '' ''" "hd ?rest \<noteq> CHR 0x09" "hd ?rest \<noteq> CHR ''@''"
    using b by (auto split: option.split)
  have tags: "\<exists>s. nom_opt parse_tags ((case tags of None \<Rightarrow> [] | Some t \<Rightarrow> CHR ''@'' # t @ '' '') @ ?rest) = (s, tags)
      \<and> space0 s = ?rest"
    using t opt_tags_print [of _ ?rest] opt_absent(1) [OF r(1) r(4)] space0_start(2) [OF r(1-3)]
    by (cases tags) (auto simp: space0_start(1))
  have prefix: "\<exists>s. nom_opt parse_prefix ?rest = (s, pfx) \<and> space0 s = ?body"
    using p opt_prefix_print [of _ ?body] opt_absent(2) [OF b(1) b(5)] space0_start(2) [OF b(1-3)]
    by (cases pfx) (auto simp: space0_start(1))
  show ?thesis
    using tags prefix parse_command_print [OF n args, of ua] by (auto simp: parse_message_def split: prod.split)
qed

lemma trim_end_id: "s = [] \<or> \<not> is_eol (last s) \<Longrightarrow> trim_end_eol s = s"
  by (cases s rule: rev_cases) (auto simp: trim_end_eol_def)

lemma raw_args_last: "args_ok as \<Longrightarrow> as \<noteq> [] \<Longrightarrow> raw_args as \<noteq> [] \<and> \<not> is_eol (last (raw_args as))"
proof (induction as rule: raw_args.induct)
  case (2 a)
  then show ?case
    by (cases a rule: rev_cases) (auto simp: args_ok_def last_ok_def list_all_iff not_eol needs_colon_prefix_def)
next
  case (3 a b as)
  then have "args_ok (b # as)" by (auto simp: args_ok_def split: if_splits)
  then show ?case using 3(1) by auto
qed simp

lemma name_not_eol: "name_ok n \<Longrightarrow> \<not> is_eol (last n)"
proof -
  assume n: "name_ok n"
  then have "is_ascii_alnum (last n)"
    using name_ascii [OF n] by (simp add: list_all_iff name_ok_def)
  moreover have "\<not> is_ascii_alnum CHR 0x0D" "\<not> is_ascii_alnum CHR 0x0A"
    by (simp_all add: is_ascii_alnum_def is_ascii_alphabetic_def is_ascii_digit_def byte_of_def)
  ultimately show "\<not> is_eol (last n)" unfolding is_eol_def by metis
qed

lemma body_last:
  assumes "name_ok n" "args_ok as"
  shows "n @ raw_args as \<noteq> []" "\<not> is_eol (last (n @ raw_args as))"
  using name_not_eol [OF assms(1)] raw_args_last [OF assms(2)] name_start(1) [OF assms(1)]
  by (cases "as = []"; simp)+

lemma message_ref_parse_print:
  assumes "message_ok m"
  shows "message_ref_parse ua (to_raw_owned m) = Inr (m\<lparr>mr_raw := to_raw_owned m\<rparr>)"
proof -
  let ?n = "cr_name (mr_command m)" and ?as = "cr_args (mr_command m)"
  have n: "name_ok ?n" and as: "args_ok ?as" using assms by (auto simp: message_ok_def)
  have raw: "to_raw_owned m = (case mr_tags m of None \<Rightarrow> [] | Some t \<Rightarrow> CHR ''@'' # t @ '' '')
     @ (case map_option pr_raw (mr_prefix m) of None \<Rightarrow> [] | Some q \<Rightarrow> CHR '':'' # q @ '' '') @ ?n @ raw_args ?as"
    by (simp add: to_raw_owned_def split: option.split)
  have "parse_message ua (to_raw_owned m) = Inr ([], \<lparr>pm_tags = mr_tags m,
      pm_prefix = map_option pr_raw (mr_prefix m), pm_command = ?n, pm_params = ?as\<rparr>)"
    unfolding raw using assms parse_params_raw_args [OF as]
    by (subst parse_message_front [OF n raw_args_start]) (auto simp: message_ok_def)
  moreover have "trim_end_eol (to_raw_owned m) = to_raw_owned m" "to_raw_owned m \<noteq> []"
    using body_last [OF n as] by (auto simp: to_raw_owned_def intro!: trim_end_id)
  moreover have "map_option prefix_ref_parse (map_option pr_raw (mr_prefix m)) = mr_prefix m"
    using assms by (cases "mr_prefix m") (auto simp: message_ok_def)
  ultimately show ?thesis
    by (simp add: message_ref_parse_def parsed_message_parse_def)
qed

lemma message_ref_parse_ok:
  assumes "message_ref_parse ua s = Inr m"
  shows "message_ok m"
proof -
  obtain rest pm where pm: "parse_message ua (trim_end_eol s) = Inr (rest, pm)"
    and m: "m = \<lparr>mr_tags = pm_tags pm, mr_prefix = map_option prefix_ref_parse (pm_prefix pm),
      mr_command = \<lparr>cr_name = pm_command pm, cr_args = pm_params pm\<rparr>, mr_raw = s\<rparr>"
    using assms by (auto simp: message_ref_parse_def parsed_message_parse_def split: if_splits sum.splits prod.splits)
  show ?thesis using parse_message_ok [OF pm] by (auto simp: m message_ok_def)
qed

section \<open>The encoder that prints no colon\<close>

lemma param_loop_appends: "\<exists>qs. snd (param_loop ps rest) = ps @ qs"
proof (induction ps rest rule: param_loop.induct)
  case (1 ps rest)
  let ?r = "dropWhile (\<lambda>c. c = CHR '' '') rest"
  let ?p = "takeWhile (\<lambda>c. c \<noteq> CHR '' '' \<and> \<not> is_eol c) ?r"
  show ?case
  proof (cases "(rest = [] \<or> hd rest \<noteq> CHR '' '') \<or> 15 \<le> length ps \<or> (?r = [] \<or> is_eol (hd ?r)) \<or> hd ?r = CHR '':'' \<or> ?p = []")
    case True
    then show ?thesis by (subst param_loop.simps) (auto simp: Let_def)
  next
    case False
    then obtain qs where "snd (param_loop (ps @ [?p]) (drop (length ?p) ?r)) = (ps @ [?p]) @ qs"
      using 1 [OF _ _ refl _ _ refl] by meson
    moreover have "?r \<noteq> []" using False by blast
    ultimately show ?thesis using False by (subst param_loop.simps) (auto simp: Let_def)
  qed
qed

lemma param_loop_lost:
  assumes "needs_colon_prefix a" "last_ok a" "length ps < 15"
  shows "snd (param_loop ps (CHR '' '' # a)) \<noteq> ps @ [a]"
proof -
  let ?r = "dropWhile (\<lambda>c. c = CHR '' '') a"
  let ?p = "takeWhile (\<lambda>c. c \<noteq> CHR '' '' \<and> \<not> is_eol c) ?r"
  have short: "length (takeWhile (\<lambda>c. \<not> is_eol c) (tl ?r)) < length a" if "?r \<noteq> []"
    using that length_takeWhile_le [of "\<lambda>c. \<not> is_eol c" "tl ?r"] length_dropWhile_le [of "\<lambda>c. c = CHR '' ''" a]
    by (cases ?r) auto
  consider (empty) "?r = [] \<or> is_eol (hd ?r) \<or> hd ?r \<noteq> CHR '':'' \<and> ?p = []"
    | (colon) "?r \<noteq> []" "\<not> is_eol (hd ?r)" "hd ?r = CHR '':''"
    | (word) "?r \<noteq> []" "\<not> is_eol (hd ?r)" "hd ?r \<noteq> CHR '':''" "?p \<noteq> []"
    by blast
  then show ?thesis
  proof cases
    case empty
    then show ?thesis using assms(3) by (subst param_loop.simps) (auto simp: Let_def not_eol)
  next
    case colon
    then show ?thesis using assms(3) short by (subst param_loop.simps) (auto simp: Let_def)
  next
    case word
    obtain qs where q: "snd (param_loop (ps @ [?p]) (drop (length ?p) ?r)) = (ps @ [?p]) @ qs"
      using param_loop_appends by blast
    have "snd (param_loop ps (CHR '' '' # a)) = ps @ ?p # qs"
      using word assms(3) q by (subst param_loop.simps) (auto simp: Let_def)
    moreover have "CHR '' '' \<notin> set ?p" by (auto dest: set_takeWhileD)
    moreover have "CHR '' '' \<in> set a \<or> a = ?r"
      by (cases a) auto
    ultimately show ?thesis using assms(1) word(1,3) unfolding needs_colon_prefix_def by fastforce
  qed
qed

definition plain_args :: "string list \<Rightarrow> string" where
  "plain_args as = concat (map (\<lambda>a. CHR '' '' # a) as)"

lemma plain_args_middle:
  "list_all middle_ok ms \<Longrightarrow> length ps + length ms \<le> 15 \<Longrightarrow> r = [] \<or> hd r = CHR '' '' \<Longrightarrow>
    param_loop ps (plain_args ms @ r) = param_loop (ps @ ms) r"
proof (induction ms arbitrary: ps)
  case (Cons m ms)
  have "plain_args ms @ r = [] \<or> hd (plain_args ms @ r) = CHR '' ''"
    using Cons.prems(3) by (cases ms) (auto simp: plain_args_def)
  then have "param_loop ps (plain_args (m # ms) @ r) = param_loop (ps @ [m]) (plain_args ms @ r)"
    using param_loop_middle [of m "plain_args ms @ r" ps] Cons.prems by (simp add: plain_args_def)
  then show ?case using Cons by simp
qed (simp add: plain_args_def)

lemma plain_args_parse:
  assumes "args_ok as"
  shows "snd (parse_params (plain_args as)) = as \<longleftrightarrow> as = [] \<or> \<not> needs_colon_prefix (last as)"
proof (cases as rule: rev_cases)
  case Nil
  then show ?thesis by (simp add: parse_params_def plain_args_def param_loop_end)
next
  case (snoc ms a)
  have eq: "parse_params (plain_args as) = param_loop ms (CHR '' '' # a)"
    using assms plain_args_middle [of ms "[]" "CHR '' '' # a"]
    by (simp add: snoc parse_params_def plain_args_def args_ok_def)
  have l: "last_ok a" "length ms < 15" using assms by (auto simp: snoc args_ok_def)
  show ?thesis
    unfolding eq using param_loop_lost [OF _ l] param_loop_last [OF l] by (auto simp: snoc)
qed

lemma trim_end_CRLF: "s \<noteq> [] \<Longrightarrow> \<not> is_eol (last s) \<Longrightarrow> trim_end_eol (s @ CRLF) = s"
  using trim_end_id [of s] by (simp add: trim_end_eol_def CRLF_def is_eol_def)

lemma plain_args_last:
  assumes "name_ok n" "args_ok as"
  shows "n @ plain_args as \<noteq> []" "\<not> is_eol (last (n @ plain_args as))"
proof -
  show "n @ plain_args as \<noteq> []" using name_start(1) [OF assms(1)] by simp
  show "\<not> is_eol (last (n @ plain_args as))"
  proof (cases as rule: rev_cases)
    case Nil
    then show ?thesis using name_not_eol [OF assms(1)] by (simp add: plain_args_def)
  next
    case (snoc ms a)
    then show ?thesis using assms(2)
      by (cases a rule: rev_cases) (auto simp: plain_args_def args_ok_def last_ok_def not_eol)
  qed
qed

section \<open>Properties\<close>

text \<open>C10. Whatever \<open>MessageRef::parse\<close> returns is well formed: the tag section and the prefix hold no
  space, the prefix is not empty and is the one \<open>PrefixRef::parse\<close> reads from its raw text, the
  command is a word of ASCII letters or three digits, there are at most fifteen arguments, no
  argument holds a carriage return or a line feed, and every argument but the last is non-empty,
  holds no space and does not start with a colon; the raw line is kept as it came.\<close>

theorem parsed_message_well_formed:
  assumes "message_ref_parse ua s = Inr m"
  shows "message_ok m \<and> mr_raw m = s"
  using message_ref_parse_ok [OF assms] assms
  by (auto simp: message_ref_parse_def split: if_splits sum.splits)

definition sample_line :: string where
  "sample_line = ''@time=1;x :a!b@c PRIVMSG #d :hello you'' @ CRLF"

definition sample_message :: message_ref where
  "sample_message = \<lparr>mr_tags = Some ''time=1;x'', mr_prefix = Some (prefix_ref_parse ''a!b@c''),
    mr_command = \<lparr>cr_name = ''PRIVMSG'', cr_args = [''#d'', ''hello you'']\<rparr>, mr_raw = sample_line\<rparr>"

lemma sample_parses: "message_ref_parse (\<lambda>_. False) sample_line = Inr sample_message"
  by code_simp

theorem parsed_message_well_formed_witness:
  "message_ok sample_message \<and> mr_raw sample_message = sample_line"
  using parsed_message_well_formed [OF sample_parses] .

text \<open>C11. Printing and parsing again: a message \<open>MessageRef::parse\<close> returned is printed by
  \<open>to_raw_owned\<close> as a line that parses to the same tags, prefix, command and arguments; only the
  kept raw line is the printed one.  The second parser may classify the characters beyond ASCII
  differently.\<close>

theorem parsed_message_reparses:
  assumes "message_ref_parse ua s = Inr m"
  shows "message_ref_parse ua' (to_raw_owned m) = Inr (m\<lparr>mr_raw := to_raw_owned m\<rparr>)"
  by (rule message_ref_parse_print [OF message_ref_parse_ok [OF assms]])

theorem parsed_message_reparses_witness:
  "message_ref_parse (\<lambda>_. True) (to_raw_owned sample_message)
    = Inr (sample_message\<lparr>mr_raw := to_raw_owned sample_message\<rparr>)"
  using parsed_message_reparses [OF sample_parses, of "\<lambda>_. True"] .

text \<open>C12. The line \<open>IrcEncode for MessageRef\<close> writes for a parsed message is read back as the same
  message exactly when its last argument needs no colon: an empty last argument, one with a space
  and one that starts with a colon are lost or split.\<close>

theorem message_ref_encode_reparses_iff:
  assumes "message_ref_parse ua s = Inr m"
  shows "message_ref_parse ua' (message_ref_encode m) = Inr (m\<lparr>mr_raw := message_ref_encode m\<rparr>) \<longleftrightarrow>
    cr_args (mr_command m) = [] \<or> \<not> needs_colon_prefix (last (cr_args (mr_command m)))"
proof -
  let ?n = "cr_name (mr_command m)" and ?as = "cr_args (mr_command m)"
  have ok: "message_ok m" by (rule message_ref_parse_ok [OF assms])
  have n: "name_ok ?n" and as: "args_ok ?as" using ok by (auto simp: message_ok_def)
  let ?line = "(case mr_tags m of None \<Rightarrow> [] | Some t \<Rightarrow> CHR ''@'' # t @ '' '')
     @ (case map_option pr_raw (mr_prefix m) of None \<Rightarrow> [] | Some q \<Rightarrow> CHR '':'' # q @ '' '') @ ?n @ plain_args ?as"
  have start: "plain_args ?as = [] \<or> hd (plain_args ?as) = CHR '' ''"
    by (cases ?as) (auto simp: plain_args_def)
  have enc: "message_ref_encode m = ?line @ CRLF"
    by (simp add: message_ref_encode_def plain_args_def split: option.split)
  have "?line \<noteq> []" "\<not> is_eol (last ?line)" using plain_args_last [OF n as] by auto
  then have trim: "trim_end_eol (message_ref_encode m) = ?line" unfolding enc by (rule trim_end_CRLF)
  have parse: "parse_message ua' ?line = Inr (fst (parse_params (plain_args ?as)), \<lparr>pm_tags = mr_tags m,
      pm_prefix = map_option pr_raw (mr_prefix m), pm_command = ?n, pm_params = snd (parse_params (plain_args ?as))\<rparr>)"
    using ok by (intro parse_message_front [OF n start]) (auto simp: message_ok_def)
  have pfx: "map_option prefix_ref_parse (map_option pr_raw (mr_prefix m)) = mr_prefix m"
    using ok by (cases "mr_prefix m") (auto simp: message_ok_def)
  have "message_ref_encode m \<noteq> []" by (simp add: enc CRLF_def)
  then have "message_ref_parse ua' (message_ref_encode m) = Inr (m\<lparr>mr_raw := message_ref_encode m,
      mr_command := \<lparr>cr_name = ?n, cr_args = snd (parse_params (plain_args ?as))\<rparr>\<rparr>)"
    unfolding message_ref_parse_def trim parsed_message_parse_def parse by (simp add: pfx)
  then show ?thesis using plain_args_parse [OF as] by (cases m; cases "mr_command m") auto
qed

theorem message_ref_encode_reparses_iff_witness:
  "message_ref_parse (\<lambda>_. False) (message_ref_encode sample_message)
    \<noteq> Inr (sample_message\<lparr>mr_raw := message_ref_encode sample_message\<rparr>)"
  using message_ref_encode_reparses_iff [OF sample_parses, of "\<lambda>_. False"]
  by (simp add: sample_message_def needs_colon_prefix_def)

end
