(* ===== verification/Command_Types.thy ===== *)
theory Command_Types
  imports Wire Mode_Types "HOL-Library.Word"
begin

text \<open>
  The commands of \<open>crates/slirc-proto/src/command\<close>: the enum \<open>Command\<close> of \<open>types.rs\<close> with its
  subcommand enums, and the two serializers that print it, \<open>Display\<close> (\<open>serialize.rs\<close>) and
  \<open>IrcEncode\<close> (\<open>encode/command.rs\<close>), over the shared helpers of \<open>util.rs\<close>.

  The enum has more than a hundred variants; they are grouped here by the section comments of
  \<open>types.rs\<close> into one datatype per section, and \<open>irc_command\<close> is the sum of the sections.  A serializer
  is the list of calls it makes on the \<open>IrcSink\<close>, in order; \<open>run_sink\<close> carries the calls out until
  one returns an error.  The sink is a buffer, so a write never fails; the count is the one of
  \<open>IoWriteSink\<close> (a \<open>Formatter\<close> always counts zero and \<open>Display\<close> drops it).  \<open>Response\<close> is its
  \<open>u16\<close> discriminant.
\<close>

section \<open>Subcommands\<close>

datatype cap_subcommand = CapLS | CapLIST | CapREQ | CapACK | CapNAK | CapEND | CapNEW | CapDEL

fun cap_as_str :: "cap_subcommand \<Rightarrow> string" where
  "cap_as_str CapLS = ''LS''"
| "cap_as_str CapLIST = ''LIST''"
| "cap_as_str CapREQ = ''REQ''"
| "cap_as_str CapACK = ''ACK''"
| "cap_as_str CapNAK = ''NAK''"
| "cap_as_str CapEND = ''END''"
| "cap_as_str CapNEW = ''NEW''"
| "cap_as_str CapDEL = ''DEL''"

definition cap_from_str :: "string \<Rightarrow> cap_subcommand option" where
  "cap_from_str s =
    (let u = to_ascii_uppercase s in
     if u = ''LS'' then Some CapLS
     else if u = ''LIST'' then Some CapLIST
     else if u = ''REQ'' then Some CapREQ
     else if u = ''ACK'' then Some CapACK
     else if u = ''NAK'' then Some CapNAK
     else if u = ''END'' then Some CapEND
     else if u = ''NEW'' then Some CapNEW
     else if u = ''DEL'' then Some CapDEL
     else None)"

datatype batch_subcommand = BatchNETSPLIT | BatchNETJOIN | BatchCUSTOM string

fun batch_as_str :: "batch_subcommand \<Rightarrow> string" where
  "batch_as_str BatchNETSPLIT = ''NETSPLIT''"
| "batch_as_str BatchNETJOIN = ''NETJOIN''"
| "batch_as_str (BatchCUSTOM s) = s"

definition batch_from_str :: "string \<Rightarrow> batch_subcommand" where
  "batch_from_str s =
    (let u = to_ascii_uppercase s in
     if u = ''NETSPLIT'' then BatchNETSPLIT
     else if u = ''NETJOIN'' then BatchNETJOIN
     else BatchCUSTOM u)"

datatype metadata_subcommand = MetaGET | MetaSET | MetaLIST

fun metadata_as_str :: "metadata_subcommand \<Rightarrow> string" where
  "metadata_as_str MetaGET = ''GET''"
| "metadata_as_str MetaSET = ''SET''"
| "metadata_as_str MetaLIST = ''LIST''"

definition metadata_from_str :: "string \<Rightarrow> metadata_subcommand option" where
  "metadata_from_str s =
    (let u = to_ascii_uppercase s in
     if u = ''GET'' then Some MetaGET
     else if u = ''SET'' then Some MetaSET
     else if u = ''LIST'' then Some MetaLIST
     else None)"

datatype chathistory_subcommand =
  HistLATEST | HistBEFORE | HistAFTER | HistAROUND | HistBETWEEN | HistTARGETS

fun chathistory_as_str :: "chathistory_subcommand \<Rightarrow> string" where
  "chathistory_as_str HistLATEST = ''LATEST''"
| "chathistory_as_str HistBEFORE = ''BEFORE''"
| "chathistory_as_str HistAFTER = ''AFTER''"
| "chathistory_as_str HistAROUND = ''AROUND''"
| "chathistory_as_str HistBETWEEN = ''BETWEEN''"
| "chathistory_as_str HistTARGETS = ''TARGETS''"

definition chathistory_from_str :: "string \<Rightarrow> chathistory_subcommand option" where
  "chathistory_from_str s =
    (let u = to_ascii_uppercase s in
     if u = ''LATEST'' then Some HistLATEST
     else if u = ''BEFORE'' then Some HistBEFORE
     else if u = ''AFTER'' then Some HistAFTER
     else if u = ''AROUND'' then Some HistAROUND
     else if u = ''BETWEEN'' then Some HistBETWEEN
     else if u = ''TARGETS'' then Some HistTARGETS
     else None)"

datatype message_reference = RefTimestamp string | RefMsgId string | RefWildcard

definition reference_parse :: "string \<Rightarrow> message_reference option" where
  "reference_parse s =
    (if s = ''*'' then Some RefWildcard
     else if take 10 s = ''timestamp='' then Some (RefTimestamp (drop 10 s))
     else if take 6 s = ''msgid='' then Some (RefMsgId (drop 6 s))
     else None)"

fun reference_display :: "message_reference \<Rightarrow> string" where
  "reference_display (RefTimestamp ts) = ''timestamp='' @ ts"
| "reference_display (RefMsgId i) = ''msgid='' @ i"
| "reference_display RefWildcard = ''*''"

section \<open>The commands\<close>

datatype registration_command =
    PASS string
  | PassTs6 string string
  | NICK string
  | USER string string string
  | OPER string string
  | UserMODE string "user_mode mode list"
  | SERVICE string string string string string string
  | QUIT "string option"
  | SQUIT string string

datatype channel_command =
    JOIN string "string option" "string option"
  | PART string "string option"
  | ChannelMODE string "proto_mode mode list"
  | TOPIC string "string option"
  | NAMES "string option" "string option"
  | LIST "string option" "string option"
  | INVITE string string
  | KICK string string "string option"

datatype messaging_command =
    PRIVMSG string string
  | NOTICE string string
  | ACCEPT string

datatype query_command =
    MOTD "string option"
  | LUSERS "string option" "string option"
  | VERSION "string option"
  | STATS "string option" "string option"
  | LINKS "string option" "string option"
  | TIME "string option"
  | CONNECT string string "string option"
  | TRACE "string option"
  | ADMIN "string option"
  | INFO "string option"
  | MAP
  | RULES
  | USERIP "string list"
  | HELP "string option"
  | METADATA metadata_subcommand string "string list"

datatype network_command =
    SID string string string string
  | UID string string string string string string string string
  | SJOIN "64 word" string string "string list" "(string \<times> string) list"
  | TMODE "64 word" string string "string list"
  | ENCAP string string "string list"
  | EOB
  | TB string "64 word" "string option" string

datatype link_command =
    SERVER string "32 word" string string
  | CAPAB "string list"
  | SVINFO "32 word" "32 word" "32 word" "64 word"

datatype user_command =
    SERVLIST "string option" "string option"
  | SQUERY string string
  | WHO "string option" "string option"
  | WHOIS "string option" string
  | WHOWAS string "string option" "string option"
  | KILL string string
  | PING string "string option"
  | PONG string "string option"
  | ERROR string

datatype optional_command =
    AWAY "string option"
  | REHASH
  | DIE
  | RESTART
  | SUMMON string "string option" "string option"
  | USERS "string option"
  | WALLOPS string
  | GLOBOPS string
  | USERHOST "string list"
  | ISON "string list"

datatype ban_command =
    KLINE "string option" string string
  | DLINE "string option" string string
  | UNKLINE string
  | UNDLINE string
  | GLINE string "string option"
  | UNGLINE string
  | ZLINE string "string option"
  | UNZLINE string
  | RLINE string "string option"
  | UNRLINE string
  | SHUN string "string option"
  | UNSHUN string
  | KNOCK string "string option"

datatype services_command =
    SAJOIN string string
  | SAMODE string string "string option"
  | SANICK string string
  | SAPART string string
  | SAQUIT string string
  | NICKSERV "string list"
  | CHANSERV "string list"
  | OPERSERV "string list"
  | BOTSERV "string list"
  | HOSTSERV "string list"
  | MEMOSERV "string list"
  | NS "string list"
  | CS "string list"
  | OS "string list"
  | BS "string list"
  | HS "string list"
  | MS "string list"

datatype ircv3_command =
    CAP "string option" cap_subcommand "string option" "string option"
  | AUTHENTICATE string
  | ACCOUNT string
  | MONITOR string "string option"
  | BATCH string "batch_subcommand option" "string list option"
  | CHGHOST string string
  | CHGIDENT string string
  | SETNAME string
  | TAGMSG string
  | ACK
  | WEBIRC string string string string "string option"
  | CHATHISTORY chathistory_subcommand string message_reference "message_reference option" "32 word"
  | ChatHistoryTargets string string
  | NPC string string string
  | RELAYMSG string string string

datatype reply_command =
    FAIL string string "string list"
  | WARN string string "string list"
  | NOTE string string "string list"
  | REGISTER string "string option"
  | Response "16 word" "string list"
  | Raw string "string list"

datatype irc_command =
    Registration registration_command
  | Channel channel_command
  | Messaging messaging_command
  | Query query_command
  | S2s network_command
  | Link link_command
  | UserQuery user_command
  | Optional optional_command
  | Ban ban_command
  | Services services_command
  | Ircv3 ircv3_command
  | Reply reply_command

text \<open>\<open>Command::name\<close>, one function per section.\<close>

fun name_registration :: "registration_command \<Rightarrow> string" where
  "name_registration (PASS _) = ''PASS''"
| "name_registration (PassTs6 _ _) = ''PASS''"
| "name_registration (NICK _) = ''NICK''"
| "name_registration (USER _ _ _) = ''USER''"
| "name_registration (OPER _ _) = ''OPER''"
| "name_registration (UserMODE _ _) = ''MODE''"
| "name_registration (SERVICE _ _ _ _ _ _) = ''SERVICE''"
| "name_registration (QUIT _) = ''QUIT''"
| "name_registration (SQUIT _ _) = ''SQUIT''"

fun name_channel :: "channel_command \<Rightarrow> string" where
  "name_channel (JOIN _ _ _) = ''JOIN''"
| "name_channel (PART _ _) = ''PART''"
| "name_channel (ChannelMODE _ _) = ''MODE''"
| "name_channel (TOPIC _ _) = ''TOPIC''"
| "name_channel (NAMES _ _) = ''NAMES''"
| "name_channel (LIST _ _) = ''LIST''"
| "name_channel (INVITE _ _) = ''INVITE''"
| "name_channel (KICK _ _ _) = ''KICK''"

fun name_messaging :: "messaging_command \<Rightarrow> string" where
  "name_messaging (PRIVMSG _ _) = ''PRIVMSG''"
| "name_messaging (NOTICE _ _) = ''NOTICE''"
| "name_messaging (ACCEPT _) = ''ACCEPT''"

fun name_query :: "query_command \<Rightarrow> string" where
  "name_query (MOTD _) = ''MOTD''"
| "name_query (LUSERS _ _) = ''LUSERS''"
| "name_query (VERSION _) = ''VERSION''"
| "name_query (STATS _ _) = ''STATS''"
| "name_query (LINKS _ _) = ''LINKS''"
| "name_query (TIME _) = ''TIME''"
| "name_query (CONNECT _ _ _) = ''CONNECT''"
| "name_query (TRACE _) = ''TRACE''"
| "name_query (ADMIN _) = ''ADMIN''"
| "name_query (INFO _) = ''INFO''"
| "name_query MAP = ''MAP''"
| "name_query RULES = ''RULES''"
| "name_query (USERIP _) = ''USERIP''"
| "name_query (HELP _) = ''HELP''"
| "name_query (METADATA _ _ _) = ''METADATA''"

fun name_s2s :: "network_command \<Rightarrow> string" where
  "name_s2s (SID _ _ _ _) = ''SID''"
| "name_s2s (UID _ _ _ _ _ _ _ _) = ''UID''"
| "name_s2s (SJOIN _ _ _ _ _) = ''SJOIN''"
| "name_s2s (TMODE _ _ _ _) = ''TMODE''"
| "name_s2s (ENCAP _ _ _) = ''ENCAP''"
| "name_s2s EOB = ''EOB''"
| "name_s2s (TB _ _ _ _) = ''TB''"

fun name_link :: "link_command \<Rightarrow> string" where
  "name_link (SERVER _ _ _ _) = ''SERVER''"
| "name_link (CAPAB _) = ''CAPAB''"
| "name_link (SVINFO _ _ _ _) = ''SVINFO''"

fun name_user :: "user_command \<Rightarrow> string" where
  "name_user (SERVLIST _ _) = ''SERVLIST''"
| "name_user (SQUERY _ _) = ''SQUERY''"
| "name_user (WHO _ _) = ''WHO''"
| "name_user (WHOIS _ _) = ''WHOIS''"
| "name_user (WHOWAS _ _ _) = ''WHOWAS''"
| "name_user (KILL _ _) = ''KILL''"
| "name_user (PING _ _) = ''PING''"
| "name_user (PONG _ _) = ''PONG''"
| "name_user (ERROR _) = ''ERROR''"

fun name_optional :: "optional_command \<Rightarrow> string" where
  "name_optional (AWAY _) = ''AWAY''"
| "name_optional REHASH = ''REHASH''"
| "name_optional DIE = ''DIE''"
| "name_optional RESTART = ''RESTART''"
| "name_optional (SUMMON _ _ _) = ''SUMMON''"
| "name_optional (USERS _) = ''USERS''"
| "name_optional (WALLOPS _) = ''WALLOPS''"
| "name_optional (GLOBOPS _) = ''GLOBOPS''"
| "name_optional (USERHOST _) = ''USERHOST''"
| "name_optional (ISON _) = ''ISON''"

fun name_ban :: "ban_command \<Rightarrow> string" where
  "name_ban (KLINE _ _ _) = ''KLINE''"
| "name_ban (DLINE _ _ _) = ''DLINE''"
| "name_ban (UNKLINE _) = ''UNKLINE''"
| "name_ban (UNDLINE _) = ''UNDLINE''"
| "name_ban (GLINE _ _) = ''GLINE''"
| "name_ban (UNGLINE _) = ''UNGLINE''"
| "name_ban (ZLINE _ _) = ''ZLINE''"
| "name_ban (UNZLINE _) = ''UNZLINE''"
| "name_ban (RLINE _ _) = ''RLINE''"
| "name_ban (UNRLINE _) = ''UNRLINE''"
| "name_ban (SHUN _ _) = ''SHUN''"
| "name_ban (UNSHUN _) = ''UNSHUN''"
| "name_ban (KNOCK _ _) = ''KNOCK''"

fun name_services :: "services_command \<Rightarrow> string" where
  "name_services (SAJOIN _ _) = ''SAJOIN''"
| "name_services (SAMODE _ _ _) = ''SAMODE''"
| "name_services (SANICK _ _) = ''SANICK''"
| "name_services (SAPART _ _) = ''SAPART''"
| "name_services (SAQUIT _ _) = ''SAQUIT''"
| "name_services (NICKSERV _) = ''NICKSERV''"
| "name_services (CHANSERV _) = ''CHANSERV''"
| "name_services (OPERSERV _) = ''OPERSERV''"
| "name_services (BOTSERV _) = ''BOTSERV''"
| "name_services (HOSTSERV _) = ''HOSTSERV''"
| "name_services (MEMOSERV _) = ''MEMOSERV''"
| "name_services (NS _) = ''NS''"
| "name_services (CS _) = ''CS''"
| "name_services (OS _) = ''OS''"
| "name_services (BS _) = ''BS''"
| "name_services (HS _) = ''HS''"
| "name_services (MS _) = ''MS''"

fun name_ircv3 :: "ircv3_command \<Rightarrow> string" where
  "name_ircv3 (CAP _ _ _ _) = ''CAP''"
| "name_ircv3 (AUTHENTICATE _) = ''AUTHENTICATE''"
| "name_ircv3 (ACCOUNT _) = ''ACCOUNT''"
| "name_ircv3 (MONITOR _ _) = ''MONITOR''"
| "name_ircv3 (BATCH _ _ _) = ''BATCH''"
| "name_ircv3 (CHGHOST _ _) = ''CHGHOST''"
| "name_ircv3 (CHGIDENT _ _) = ''CHGIDENT''"
| "name_ircv3 (SETNAME _) = ''SETNAME''"
| "name_ircv3 (TAGMSG _) = ''TAGMSG''"
| "name_ircv3 ACK = ''ACK''"
| "name_ircv3 (WEBIRC _ _ _ _ _) = ''WEBIRC''"
| "name_ircv3 (CHATHISTORY _ _ _ _ _) = ''CHATHISTORY''"
| "name_ircv3 (ChatHistoryTargets _ _) = ''CHATHISTORY''"
| "name_ircv3 (NPC _ _ _) = ''NPC''"
| "name_ircv3 (RELAYMSG _ _ _) = ''RELAYMSG''"

fun name_reply :: "reply_command \<Rightarrow> string" where
  "name_reply (FAIL _ _ _) = ''FAIL''"
| "name_reply (WARN _ _ _) = ''WARN''"
| "name_reply (NOTE _ _ _) = ''NOTE''"
| "name_reply (REGISTER _ _) = ''REGISTER''"
| "name_reply (Response _ _) = ''RESPONSE''"
| "name_reply (Raw _ _) = ''RAW''"

fun command_name :: "irc_command \<Rightarrow> string" where
  "command_name (Registration c) = name_registration c"
| "command_name (Channel c) = name_channel c"
| "command_name (Messaging c) = name_messaging c"
| "command_name (Query c) = name_query c"
| "command_name (S2s c) = name_s2s c"
| "command_name (Link c) = name_link c"
| "command_name (UserQuery c) = name_user c"
| "command_name (Optional c) = name_optional c"
| "command_name (Ban c) = name_ban c"
| "command_name (Services c) = name_services c"
| "command_name (Ircv3 c) = name_ircv3 c"
| "command_name (Reply c) = name_reply c"

section \<open>Sinks\<close>

datatype sink_op = WriteStr string | ValidateParam string

datatype sink_error = InvalidInput

definition param_clean :: "string \<Rightarrow> bool" where
  "param_clean p \<longleftrightarrow> \<not> list_ex is_eol p"

text \<open>The calls on a buffer: the result of the last one and the bytes in the buffer.\<close>

fun run_sink :: "sink_op list \<Rightarrow> string \<times> nat \<Rightarrow> (sink_error + nat) \<times> string" where
  "run_sink [] (buf, count) = (Inr count, buf)"
| "run_sink (WriteStr s # ops) (buf, count) = run_sink ops (buf @ s, count + length s)"
| "run_sink (ValidateParam p # ops) (buf, count) =
    (if param_clean p then run_sink ops (buf, count) else (Inl InvalidInput, buf))"

text \<open>\<open>to_string\<close> of a \<open>Display\<close> value; an error in it is a panic.\<close>

definition run_display :: "sink_op list \<Rightarrow> string option" where
  "run_display ops =
    (case run_sink ops ([], 0) of (Inr _, buf) \<Rightarrow> Some buf | (Inl _, _) \<Rightarrow> None)"

text \<open>\<open>IrcEncode::to_bytes\<close> drops the result of \<open>encode\<close>.\<close>

definition to_bytes :: "sink_op list \<Rightarrow> string" where
  "to_bytes ops = snd (run_sink ops ([], 0))"

definition colon_if_needed :: "string \<Rightarrow> sink_op list" where
  "colon_if_needed s = (if needs_colon_prefix s then [WriteStr '':''] else [])"

definition write_cmd :: "string \<Rightarrow> string list \<Rightarrow> sink_op list" where
  "write_cmd cmd args =
    (if args = [] then [WriteStr cmd]
     else
       let middle_params = butlast args; trailing = last args in
       WriteStr cmd
       # concat (map (\<lambda>param. [ValidateParam param, WriteStr '' '', WriteStr param]) middle_params)
       @ [ValidateParam trailing, WriteStr '' ''] @ colon_if_needed trailing @ [WriteStr trailing])"

definition write_cmd_freeform :: "string \<Rightarrow> string list \<Rightarrow> sink_op list" where
  "write_cmd_freeform cmd args =
    (if args = [] then [WriteStr cmd]
     else
       let suffix = last args; middle = butlast args in
       WriteStr cmd
       # concat (map (\<lambda>a. [ValidateParam a, WriteStr '' '', WriteStr a]) middle)
       @ [ValidateParam suffix, WriteStr '' :'', WriteStr suffix])"

text \<open>The enumerating loops: only the last argument may get a colon.\<close>

fun write_args_with_trailing :: "string list \<Rightarrow> sink_op list" where
  "write_args_with_trailing [] = []"
| "write_args_with_trailing [a] =
    [ValidateParam a, WriteStr '' ''] @ colon_if_needed a @ [WriteStr a]"
| "write_args_with_trailing (a # b # as) =
    [ValidateParam a, WriteStr '' '', WriteStr a] @ write_args_with_trailing (b # as)"

definition write_service_args :: "string list \<Rightarrow> sink_op list" where
  "write_service_args args = write_args_with_trailing args"

text \<open>The loops written out in the arms of the serializers that do not check their arguments.\<close>

fun write_trailing_unchecked :: "string list \<Rightarrow> sink_op list" where
  "write_trailing_unchecked [] = []"
| "write_trailing_unchecked [a] = WriteStr '' '' # colon_if_needed a @ [WriteStr a]"
| "write_trailing_unchecked (a # b # as) =
    [WriteStr '' '', WriteStr a] @ write_trailing_unchecked (b # as)"

fun write_users :: "(string \<times> string) list \<Rightarrow> sink_op list" where
  "write_users [] = []"
| "write_users [(prefixes, uid)] = [WriteStr prefixes, WriteStr uid]"
| "write_users ((prefixes, uid) # u # us) =
    [WriteStr prefixes, WriteStr uid, WriteStr '' ''] @ write_users (u # us)"

fun write_reply_context :: "string list \<Rightarrow> sink_op list" where
  "write_reply_context [] = []"
| "write_reply_context [a] = [ValidateParam a, WriteStr '' '', WriteStr '':'', WriteStr a]"
| "write_reply_context (a # b # as) =
    [ValidateParam a, WriteStr '' '', WriteStr a] @ write_reply_context (b # as)"

definition write_standard_reply ::
  "string \<Rightarrow> string \<Rightarrow> string \<Rightarrow> string list \<Rightarrow> sink_op list" where
  "write_standard_reply reply_type command code context =
    [WriteStr reply_type, WriteStr '' '', WriteStr command, WriteStr '' '', WriteStr code]
    @ write_reply_context context"

fun collapsed_loop :: "'m mode_type \<Rightarrow> plus_minus \<Rightarrow> 'm mode list \<Rightarrow> sink_op list" where
  "collapsed_loop T current_sign [] = []"
| "collapsed_loop T current_sign (m # ms) =
    (let new_sign = (case m of Plus _ _ \<Rightarrow> PmPlus | Minus _ _ \<Rightarrow> PmMinus | NoPrefix _ \<Rightarrow> PmNoPrefix)
     in (if new_sign \<noteq> current_sign then
           (case new_sign of PmPlus \<Rightarrow> [WriteStr ''+''] | PmMinus \<Rightarrow> [WriteStr ''-''] | PmNoPrefix \<Rightarrow> [])
         else [])
        @ WriteStr (letter T (mode_mode m)) # collapsed_loop T new_sign ms)"

definition write_collapsed_mode_flags :: "'m mode_type \<Rightarrow> 'm mode list \<Rightarrow> sink_op list" where
  "write_collapsed_mode_flags T modes = collapsed_loop T PmNoPrefix modes"

definition write_service_command :: "string \<Rightarrow> string list \<Rightarrow> sink_op list" where
  "write_service_command cmd args = WriteStr cmd # write_service_args args"

text \<open>The format \<open>{:03}\<close>.\<close>

definition show_code :: "nat \<Rightarrow> string" where
  "show_code n = replicate (3 - length (show_nat n)) CHR ''0'' @ show_nat n"

section \<open>The serializers\<close>

text \<open>\<open>Display for Command\<close>.\<close>

fun display_registration :: "registration_command \<Rightarrow> sink_op list" where
  "display_registration (PASS p) = write_cmd ''PASS'' [p]"
| "display_registration (PassTs6 password sid) =
      write_cmd_freeform ''PASS'' [password, ''TS'', ''6'', sid]"
| "display_registration (NICK n) = write_cmd ''NICK'' [n]"
| "display_registration (USER u m r) = write_cmd_freeform ''USER'' [u, m, ''*'', r]"
| "display_registration (OPER u p) = write_cmd ''OPER'' [u, p]"
| "display_registration (UserMODE u modes) =
      WriteStr ''MODE '' # WriteStr u #
      (if modes \<noteq> [] then WriteStr '' '' # write_collapsed_mode_flags user_mode_type modes else [])"
| "display_registration (SERVICE nick r0 dist typ r1 info) =
      write_cmd_freeform ''SERVICE'' [nick, r0, dist, typ, r1, info]"
| "display_registration (QUIT (Some m)) = write_cmd ''QUIT'' [m]"
| "display_registration (QUIT None) = write_cmd ''QUIT'' []"
| "display_registration (SQUIT s c) = write_cmd_freeform ''SQUIT'' [s, c]"

fun display_channel :: "channel_command \<Rightarrow> sink_op list" where
  "display_channel (JOIN c (Some k) (Some n)) = write_cmd ''JOIN'' [c, k, n]"
| "display_channel (JOIN c (Some k) None) = write_cmd ''JOIN'' [c, k]"
| "display_channel (JOIN c None (Some n)) = write_cmd ''JOIN'' [c, n]"
| "display_channel (JOIN c None None) = write_cmd ''JOIN'' [c]"
| "display_channel (PART c (Some m)) = write_cmd_freeform ''PART'' [c, m]"
| "display_channel (PART c None) = write_cmd ''PART'' [c]"
| "display_channel (ChannelMODE c modes) =
      WriteStr ''MODE '' # WriteStr c #
      (if modes \<noteq> []
       then WriteStr '' '' # write_collapsed_mode_flags proto_mode_type modes
         @ write_args_with_trailing (List.map_filter mode_arg modes)
       else [])"
| "display_channel (TOPIC c (Some t)) = write_cmd_freeform ''TOPIC'' [c, t]"
| "display_channel (TOPIC c None) = write_cmd ''TOPIC'' [c]"
| "display_channel (NAMES (Some c) (Some t)) = write_cmd ''NAMES'' [c, t]"
| "display_channel (NAMES (Some c) None) = write_cmd ''NAMES'' [c]"
| "display_channel (NAMES None _) = write_cmd ''NAMES'' []"
| "display_channel (LIST (Some c) (Some t)) = write_cmd ''LIST'' [c, t]"
| "display_channel (LIST (Some c) None) = write_cmd ''LIST'' [c]"
| "display_channel (LIST None _) = write_cmd ''LIST'' []"
| "display_channel (INVITE n c) = write_cmd_freeform ''INVITE'' [n, c]"
| "display_channel (KICK c n (Some r)) = write_cmd_freeform ''KICK'' [c, n, r]"
| "display_channel (KICK c n None) = write_cmd ''KICK'' [c, n]"

fun display_messaging :: "messaging_command \<Rightarrow> sink_op list" where
  "display_messaging (PRIVMSG t m) = write_cmd_freeform ''PRIVMSG'' [t, m]"
| "display_messaging (NOTICE t m) = write_cmd_freeform ''NOTICE'' [t, m]"
| "display_messaging (ACCEPT n) = write_cmd ''ACCEPT'' [n]"

fun display_query :: "query_command \<Rightarrow> sink_op list" where
  "display_query (MOTD (Some t)) = write_cmd ''MOTD'' [t]"
| "display_query (MOTD None) = write_cmd ''MOTD'' []"
| "display_query (LUSERS (Some m) (Some t)) = write_cmd ''LUSERS'' [m, t]"
| "display_query (LUSERS (Some m) None) = write_cmd ''LUSERS'' [m]"
| "display_query (LUSERS None _) = write_cmd ''LUSERS'' []"
| "display_query (VERSION (Some t)) = write_cmd ''VERSION'' [t]"
| "display_query (VERSION None) = write_cmd ''VERSION'' []"
| "display_query (STATS (Some q) (Some t)) = write_cmd ''STATS'' [q, t]"
| "display_query (STATS (Some q) None) = write_cmd ''STATS'' [q]"
| "display_query (STATS None _) = write_cmd ''STATS'' []"
| "display_query (LINKS (Some r) (Some s)) = write_cmd ''LINKS'' [r, s]"
| "display_query (LINKS None (Some s)) = write_cmd ''LINKS'' [s]"
| "display_query (LINKS _ None) = write_cmd ''LINKS'' []"
| "display_query (TIME (Some t)) = write_cmd ''TIME'' [t]"
| "display_query (TIME None) = write_cmd ''TIME'' []"
| "display_query (CONNECT t p (Some r)) = write_cmd ''CONNECT'' [t, p, r]"
| "display_query (CONNECT t p None) = write_cmd ''CONNECT'' [t, p]"
| "display_query (TRACE (Some t)) = write_cmd ''TRACE'' [t]"
| "display_query (TRACE None) = write_cmd ''TRACE'' []"
| "display_query (ADMIN (Some t)) = write_cmd ''ADMIN'' [t]"
| "display_query (ADMIN None) = write_cmd ''ADMIN'' []"
| "display_query (INFO (Some t)) = write_cmd ''INFO'' [t]"
| "display_query (INFO None) = write_cmd ''INFO'' []"
| "display_query MAP = write_cmd ''MAP'' []"
| "display_query RULES = write_cmd ''RULES'' []"
| "display_query (USERIP u) =
      WriteStr ''USERIP'' # concat (map (\<lambda>nick. [WriteStr '' '', WriteStr nick]) u)"
| "display_query (HELP (Some t)) = write_cmd ''HELP'' [t]"
| "display_query (HELP None) = write_cmd ''HELP'' []"
| "display_query (METADATA subcommand target params) =
      [WriteStr ''METADATA '', WriteStr (metadata_as_str subcommand), WriteStr '' '', WriteStr target]
      @ concat (map (\<lambda>p. [WriteStr '' '', WriteStr p]) params)"

fun display_s2s :: "network_command \<Rightarrow> sink_op list" where
  "display_s2s (SID name hop sid desc) = write_cmd_freeform ''SID'' [name, hop, sid, desc]"
| "display_s2s (UID nick hop ts user host uid modes real) =
      write_cmd_freeform ''UID'' [nick, hop, ts, user, host, uid, modes, real]"
| "display_s2s (SJOIN ts channel modes args users) =
      [WriteStr ''SJOIN '', WriteStr (show_nat (unat ts) @ '' '' @ channel @ '' '' @ modes)]
      @ concat (map (\<lambda>a. [WriteStr ('' '' @ a)]) args) @ WriteStr '' :'' # write_users users"
| "display_s2s (TMODE ts channel modes args) =
      [WriteStr ''TMODE '', WriteStr (show_nat (unat ts) @ '' '' @ channel @ '' '' @ modes)]
      @ concat (map (\<lambda>a. [WriteStr ('' '' @ a)]) args)"
| "display_s2s (ENCAP target subcommand params) =
      [WriteStr ''ENCAP '', WriteStr target, WriteStr '' '', WriteStr subcommand] @ write_trailing_unchecked params"
| "display_s2s EOB = write_cmd ''EOB'' []"
| "display_s2s (TB channel ts (Some nick) topic) =
      write_cmd_freeform ''TB'' [channel, show_nat (unat ts), nick, topic]"
| "display_s2s (TB channel ts None topic) =
      write_cmd_freeform ''TB'' [channel, show_nat (unat ts), topic]"

fun display_link :: "link_command \<Rightarrow> sink_op list" where
  "display_link (SERVER n h t i) = write_cmd_freeform ''SERVER'' [n, show_nat (unat h), t, i]"
| "display_link (CAPAB caps) = write_cmd ''CAPAB'' caps"
| "display_link (SVINFO v m z t) =
      write_cmd_freeform ''SVINFO'' [show_nat (unat v), show_nat (unat m), show_nat (unat z), show_nat (unat t)]"

fun display_user :: "user_command \<Rightarrow> sink_op list" where
  "display_user (SERVLIST (Some m) (Some t)) = write_cmd ''SERVLIST'' [m, t]"
| "display_user (SERVLIST (Some m) None) = write_cmd ''SERVLIST'' [m]"
| "display_user (SERVLIST None _) = write_cmd ''SERVLIST'' []"
| "display_user (SQUERY s t) = write_cmd_freeform ''SQUERY'' [s, t]"
| "display_user (WHO (Some s) (Some flags)) = write_cmd ''WHO'' [s, flags]"
| "display_user (WHO (Some s) None) = write_cmd ''WHO'' [s]"
| "display_user (WHO None _) = write_cmd ''WHO'' []"
| "display_user (WHOIS (Some t) m) = write_cmd ''WHOIS'' [t, m]"
| "display_user (WHOIS None m) = write_cmd ''WHOIS'' [m]"
| "display_user (WHOWAS n (Some c) (Some t)) = write_cmd ''WHOWAS'' [n, c, t]"
| "display_user (WHOWAS n (Some c) None) = write_cmd ''WHOWAS'' [n, c]"
| "display_user (WHOWAS n None (Some c)) = write_cmd ''WHOWAS'' [n, c]"
| "display_user (WHOWAS n None None) = write_cmd ''WHOWAS'' [n]"
| "display_user (KILL n c) = write_cmd_freeform ''KILL'' [n, c]"
| "display_user (PING s (Some t)) = write_cmd ''PING'' [s, t]"
| "display_user (PING s None) = write_cmd ''PING'' [s]"
| "display_user (PONG s (Some t)) = write_cmd ''PONG'' [s, t]"
| "display_user (PONG s None) = write_cmd ''PONG'' [s]"
| "display_user (ERROR m) = write_cmd_freeform ''ERROR'' [m]"

fun display_optional :: "optional_command \<Rightarrow> sink_op list" where
  "display_optional (AWAY (Some m)) = write_cmd_freeform ''AWAY'' [m]"
| "display_optional (AWAY None) = write_cmd ''AWAY'' []"
| "display_optional REHASH = write_cmd ''REHASH'' []"
| "display_optional DIE = write_cmd ''DIE'' []"
| "display_optional RESTART = write_cmd ''RESTART'' []"
| "display_optional (SUMMON u (Some t) (Some c)) = write_cmd ''SUMMON'' [u, t, c]"
| "display_optional (SUMMON u (Some t) None) = write_cmd ''SUMMON'' [u, t]"
| "display_optional (SUMMON u None _) = write_cmd ''SUMMON'' [u]"
| "display_optional (USERS (Some t)) = write_cmd ''USERS'' [t]"
| "display_optional (USERS None) = write_cmd ''USERS'' []"
| "display_optional (WALLOPS t) = write_cmd_freeform ''WALLOPS'' [t]"
| "display_optional (GLOBOPS t) = write_cmd_freeform ''GLOBOPS'' [t]"
| "display_optional (USERHOST u) = WriteStr ''USERHOST'' # write_args_with_trailing u"
| "display_optional (ISON u) = WriteStr ''ISON'' # write_args_with_trailing u"

fun display_ban :: "ban_command \<Rightarrow> sink_op list" where
  "display_ban (KLINE (Some t) m r) = write_cmd_freeform ''KLINE'' [t, m, r]"
| "display_ban (KLINE None m r) = write_cmd_freeform ''KLINE'' [m, r]"
| "display_ban (DLINE (Some t) h r) = write_cmd_freeform ''DLINE'' [t, h, r]"
| "display_ban (DLINE None h r) = write_cmd_freeform ''DLINE'' [h, r]"
| "display_ban (UNKLINE m) = write_cmd ''UNKLINE'' [m]"
| "display_ban (UNDLINE h) = write_cmd ''UNDLINE'' [h]"
| "display_ban (GLINE m (Some r)) = write_cmd_freeform ''GLINE'' [m, r]"
| "display_ban (GLINE m None) = write_cmd ''GLINE'' [m]"
| "display_ban (UNGLINE m) = write_cmd ''UNGLINE'' [m]"
| "display_ban (ZLINE ip (Some r)) = write_cmd_freeform ''ZLINE'' [ip, r]"
| "display_ban (ZLINE ip None) = write_cmd ''ZLINE'' [ip]"
| "display_ban (UNZLINE ip) = write_cmd ''UNZLINE'' [ip]"
| "display_ban (RLINE p (Some r)) = write_cmd_freeform ''RLINE'' [p, r]"
| "display_ban (RLINE p None) = write_cmd ''RLINE'' [p]"
| "display_ban (UNRLINE p) = write_cmd ''UNRLINE'' [p]"
| "display_ban (SHUN m (Some r)) = write_cmd_freeform ''SHUN'' [m, r]"
| "display_ban (SHUN m None) = write_cmd ''SHUN'' [m]"
| "display_ban (UNSHUN m) = write_cmd ''UNSHUN'' [m]"
| "display_ban (KNOCK c (Some m)) = write_cmd_freeform ''KNOCK'' [c, m]"
| "display_ban (KNOCK c None) = write_cmd ''KNOCK'' [c]"

fun display_services :: "services_command \<Rightarrow> sink_op list" where
  "display_services (SAJOIN n c) = write_cmd ''SAJOIN'' [n, c]"
| "display_services (SAMODE t m (Some p)) = write_cmd ''SAMODE'' [t, m, p]"
| "display_services (SAMODE t m None) = write_cmd ''SAMODE'' [t, m]"
| "display_services (SANICK old n) = write_cmd ''SANICK'' [old, n]"
| "display_services (SAPART c r) = write_cmd ''SAPART'' [c, r]"
| "display_services (SAQUIT c r) = write_cmd ''SAQUIT'' [c, r]"
| "display_services (NICKSERV p) = write_service_command ''NICKSERV'' p"
| "display_services (CHANSERV p) = write_service_command ''CHANSERV'' p"
| "display_services (OPERSERV p) = write_service_command ''OPERSERV'' p"
| "display_services (BOTSERV p) = write_service_command ''BOTSERV'' p"
| "display_services (HOSTSERV p) = write_service_command ''HOSTSERV'' p"
| "display_services (MEMOSERV p) = write_service_command ''MEMOSERV'' p"
| "display_services (NS p) = write_service_command ''NS'' p"
| "display_services (CS p) = write_service_command ''CS'' p"
| "display_services (OS p) = write_service_command ''OS'' p"
| "display_services (BS p) = write_service_command ''BS'' p"
| "display_services (HS p) = write_service_command ''HS'' p"
| "display_services (MS p) = write_service_command ''MS'' p"

fun display_ircv3 :: "ircv3_command \<Rightarrow> sink_op list" where
  "display_ircv3 (CAP None s None (Some p)) = write_cmd ''CAP'' [cap_as_str s, p]"
| "display_ircv3 (CAP None s None None) = write_cmd ''CAP'' [cap_as_str s]"
| "display_ircv3 (CAP (Some k) s None (Some p)) = write_cmd ''CAP'' [k, cap_as_str s, p]"
| "display_ircv3 (CAP (Some k) s None None) = write_cmd ''CAP'' [k, cap_as_str s]"
| "display_ircv3 (CAP None s (Some c) (Some p)) = write_cmd ''CAP'' [cap_as_str s, c, p]"
| "display_ircv3 (CAP None s (Some c) None) = write_cmd ''CAP'' [cap_as_str s, c]"
| "display_ircv3 (CAP (Some k) s (Some c) (Some p)) = write_cmd ''CAP'' [k, cap_as_str s, c, p]"
| "display_ircv3 (CAP (Some k) s (Some c) None) = write_cmd ''CAP'' [k, cap_as_str s, c]"
| "display_ircv3 (AUTHENTICATE d) = write_cmd ''AUTHENTICATE'' [d]"
| "display_ircv3 (ACCOUNT a) = write_cmd ''ACCOUNT'' [a]"
| "display_ircv3 (MONITOR c (Some t)) = write_cmd ''MONITOR'' [c, t]"
| "display_ircv3 (MONITOR c None) = write_cmd ''MONITOR'' [c]"
| "display_ircv3 (BATCH t (Some c) (Some a)) =
      [WriteStr ''BATCH '', WriteStr t, WriteStr '' '', WriteStr (batch_as_str c)] @ write_args_with_trailing a"
| "display_ircv3 (BATCH t (Some c) None) = write_cmd ''BATCH'' [t, batch_as_str c]"
| "display_ircv3 (BATCH t None (Some a)) =
      [WriteStr ''BATCH '', WriteStr t] @ write_args_with_trailing a"
| "display_ircv3 (BATCH t None None) = write_cmd ''BATCH'' [t]"
| "display_ircv3 (CHGHOST u h) = write_cmd ''CHGHOST'' [u, h]"
| "display_ircv3 (CHGIDENT u i) = write_cmd ''CHGIDENT'' [u, i]"
| "display_ircv3 (SETNAME r) = write_cmd_freeform ''SETNAME'' [r]"
| "display_ircv3 (TAGMSG t) = write_cmd ''TAGMSG'' [t]"
| "display_ircv3 ACK = [WriteStr ''ACK'']"
| "display_ircv3 (WEBIRC pass gateway host ip (Some opts)) =
      write_cmd ''WEBIRC'' [pass, gateway, host, ip, opts]"
| "display_ircv3 (WEBIRC pass gateway host ip None) = write_cmd ''WEBIRC'' [pass, gateway, host, ip]"
| "display_ircv3 (CHATHISTORY subcommand target msg_ref1 msg_ref2 limit) =
      [WriteStr ''CHATHISTORY '', WriteStr (chathistory_as_str subcommand)] @
      (case subcommand of
         HistTARGETS \<Rightarrow>
           [WriteStr ('' '' @ reference_display msg_ref1 @ '' '')]
           @ (case msg_ref2 of None \<Rightarrow> [] | Some ref2 \<Rightarrow> [WriteStr (reference_display ref2 @ '' '')])
           @ [WriteStr (show_nat (unat limit))]
       | HistBETWEEN \<Rightarrow>
           [WriteStr ('' '' @ target @ '' '' @ reference_display msg_ref1 @ '' '')]
           @ (case msg_ref2 of None \<Rightarrow> [] | Some ref2 \<Rightarrow> [WriteStr (reference_display ref2 @ '' '')])
           @ [WriteStr (show_nat (unat limit))]
       | _ \<Rightarrow>
           [WriteStr ('' '' @ target @ '' '' @ reference_display msg_ref1 @ '' '' @ show_nat (unat limit))])"
| "display_ircv3 (ChatHistoryTargets target timestamp) =
      [WriteStr ''CHATHISTORY TARGETS '', WriteStr (target @ '' '' @ timestamp)]"
| "display_ircv3 (NPC channel nick text) = write_cmd_freeform ''NPC'' [channel, nick, text]"
| "display_ircv3 (RELAYMSG relay_from target text) =
      write_cmd_freeform ''RELAYMSG'' [target, relay_from, text]"

fun display_reply :: "reply_command \<Rightarrow> sink_op list" where
  "display_reply (FAIL command code context) = write_standard_reply ''FAIL'' command code context"
| "display_reply (WARN command code context) = write_standard_reply ''WARN'' command code context"
| "display_reply (NOTE command code context) = write_standard_reply ''NOTE'' command code context"
| "display_reply (REGISTER account message) =
      [WriteStr ''REGISTER SUCCESS '', WriteStr account]
      @ (case message of None \<Rightarrow> [] | Some msg \<Rightarrow> [WriteStr '' :'', WriteStr msg])"
| "display_reply (Response resp a) =
      WriteStr (show_code (unat resp)) #
      concat (map (\<lambda>p. [WriteStr '' '', WriteStr p]) (butlast a))
      @ (if a = [] then []
         else WriteStr '' '' # (if needs_colon_prefix (last a) then [WriteStr '':''] else []) @ [WriteStr (last a)])"
| "display_reply (Raw c a) = WriteStr c # write_args_with_trailing a"

fun display_ops :: "irc_command \<Rightarrow> sink_op list" where
  "display_ops (Registration c) = display_registration c"
| "display_ops (Channel c) = display_channel c"
| "display_ops (Messaging c) = display_messaging c"
| "display_ops (Query c) = display_query c"
| "display_ops (S2s c) = display_s2s c"
| "display_ops (Link c) = display_link c"
| "display_ops (UserQuery c) = display_user c"
| "display_ops (Optional c) = display_optional c"
| "display_ops (Ban c) = display_ban c"
| "display_ops (Services c) = display_services c"
| "display_ops (Ircv3 c) = display_ircv3 c"
| "display_ops (Reply c) = display_reply c"

text \<open>\<open>IrcEncode for Command\<close>.\<close>

fun encode_registration :: "registration_command \<Rightarrow> sink_op list" where
  "encode_registration (PASS p) = write_cmd ''PASS'' [p]"
| "encode_registration (PassTs6 password sid) =
      write_cmd_freeform ''PASS'' [password, ''TS'', ''6'', sid]"
| "encode_registration (NICK n) = write_cmd ''NICK'' [n]"
| "encode_registration (USER u m r) = write_cmd_freeform ''USER'' [u, m, ''*'', r]"
| "encode_registration (OPER u p) = write_cmd ''OPER'' [u, p]"
| "encode_registration (UserMODE u modes) =
      WriteStr ''MODE '' # WriteStr u #
      (if modes \<noteq> [] then WriteStr '' '' # write_collapsed_mode_flags user_mode_type modes else [])"
| "encode_registration (SERVICE nick r0 dist typ r1 info) =
      write_cmd_freeform ''SERVICE'' [nick, r0, dist, typ, r1, info]"
| "encode_registration (QUIT (Some m)) = write_cmd ''QUIT'' [m]"
| "encode_registration (QUIT None) = [WriteStr ''QUIT'']"
| "encode_registration (SQUIT s c) = write_cmd_freeform ''SQUIT'' [s, c]"

fun encode_channel :: "channel_command \<Rightarrow> sink_op list" where
  "encode_channel (JOIN c (Some k) (Some n)) = write_cmd ''JOIN'' [c, k, n]"
| "encode_channel (JOIN c (Some k) None) = write_cmd ''JOIN'' [c, k]"
| "encode_channel (JOIN c None (Some n)) = write_cmd ''JOIN'' [c, n]"
| "encode_channel (JOIN c None None) = write_cmd ''JOIN'' [c]"
| "encode_channel (PART c (Some m)) = write_cmd_freeform ''PART'' [c, m]"
| "encode_channel (PART c None) = write_cmd ''PART'' [c]"
| "encode_channel (ChannelMODE c modes) =
      WriteStr ''MODE '' # WriteStr c #
      (if modes \<noteq> []
       then WriteStr '' '' # write_collapsed_mode_flags proto_mode_type modes
         @ write_trailing_unchecked (List.map_filter mode_arg modes)
       else [])"
| "encode_channel (TOPIC c (Some t)) = write_cmd_freeform ''TOPIC'' [c, t]"
| "encode_channel (TOPIC c None) = write_cmd ''TOPIC'' [c]"
| "encode_channel (NAMES (Some c) (Some t)) = write_cmd ''NAMES'' [c, t]"
| "encode_channel (NAMES (Some c) None) = write_cmd ''NAMES'' [c]"
| "encode_channel (NAMES None _) = [WriteStr ''NAMES'']"
| "encode_channel (LIST (Some c) (Some t)) = write_cmd ''LIST'' [c, t]"
| "encode_channel (LIST (Some c) None) = write_cmd ''LIST'' [c]"
| "encode_channel (LIST None _) = [WriteStr ''LIST'']"
| "encode_channel (INVITE n c) = write_cmd_freeform ''INVITE'' [n, c]"
| "encode_channel (KICK c n (Some r)) = write_cmd_freeform ''KICK'' [c, n, r]"
| "encode_channel (KICK c n None) = write_cmd ''KICK'' [c, n]"

fun encode_messaging :: "messaging_command \<Rightarrow> sink_op list" where
  "encode_messaging (PRIVMSG t m) = write_cmd_freeform ''PRIVMSG'' [t, m]"
| "encode_messaging (NOTICE t m) = write_cmd_freeform ''NOTICE'' [t, m]"
| "encode_messaging (ACCEPT n) = write_cmd ''ACCEPT'' [n]"

fun encode_query :: "query_command \<Rightarrow> sink_op list" where
  "encode_query (MOTD (Some t)) = write_cmd ''MOTD'' [t]"
| "encode_query (MOTD None) = [WriteStr ''MOTD'']"
| "encode_query (LUSERS (Some m) (Some t)) = write_cmd ''LUSERS'' [m, t]"
| "encode_query (LUSERS (Some m) None) = write_cmd ''LUSERS'' [m]"
| "encode_query (LUSERS None _) = [WriteStr ''LUSERS'']"
| "encode_query (VERSION (Some t)) = write_cmd ''VERSION'' [t]"
| "encode_query (VERSION None) = [WriteStr ''VERSION'']"
| "encode_query (STATS (Some q) (Some t)) = write_cmd ''STATS'' [q, t]"
| "encode_query (STATS (Some q) None) = write_cmd ''STATS'' [q]"
| "encode_query (STATS None _) = [WriteStr ''STATS'']"
| "encode_query (LINKS (Some r) (Some s)) = write_cmd ''LINKS'' [r, s]"
| "encode_query (LINKS None (Some s)) = write_cmd ''LINKS'' [s]"
| "encode_query (LINKS _ None) = [WriteStr ''LINKS'']"
| "encode_query (TIME (Some t)) = write_cmd ''TIME'' [t]"
| "encode_query (TIME None) = [WriteStr ''TIME'']"
| "encode_query (CONNECT t p (Some r)) = write_cmd ''CONNECT'' [t, p, r]"
| "encode_query (CONNECT t p None) = write_cmd ''CONNECT'' [t, p]"
| "encode_query (TRACE (Some t)) = write_cmd ''TRACE'' [t]"
| "encode_query (TRACE None) = [WriteStr ''TRACE'']"
| "encode_query (ADMIN (Some t)) = write_cmd ''ADMIN'' [t]"
| "encode_query (ADMIN None) = [WriteStr ''ADMIN'']"
| "encode_query (INFO (Some t)) = write_cmd ''INFO'' [t]"
| "encode_query (INFO None) = [WriteStr ''INFO'']"
| "encode_query MAP = [WriteStr ''MAP'']"
| "encode_query RULES = [WriteStr ''RULES'']"
| "encode_query (USERIP u) = WriteStr ''USERIP'' # write_service_args u"
| "encode_query (HELP (Some t)) = write_cmd ''HELP'' [t]"
| "encode_query (HELP None) = [WriteStr ''HELP'']"
| "encode_query (METADATA subcommand target params) =
      [WriteStr ''METADATA '', WriteStr (metadata_as_str subcommand), WriteStr '' '', WriteStr target]
      @ concat (map (\<lambda>p. [WriteStr '' '', WriteStr p]) params)"

fun encode_s2s :: "network_command \<Rightarrow> sink_op list" where
  "encode_s2s (SID name hop sid desc) = write_cmd_freeform ''SID'' [name, hop, sid, desc]"
| "encode_s2s (UID nick hop ts user host uid modes real) =
      write_cmd_freeform ''UID'' [nick, hop, ts, user, host, uid, modes, real]"
| "encode_s2s (SJOIN ts channel modes args users) =
      [WriteStr ''SJOIN '', WriteStr (show_nat (unat ts)), WriteStr '' '', WriteStr channel, WriteStr '' '', WriteStr modes]
      @ concat (map (\<lambda>a. [WriteStr '' '', WriteStr a]) args) @ WriteStr '' :'' # write_users users"
| "encode_s2s (TMODE ts channel modes args) =
      [WriteStr ''TMODE '', WriteStr (show_nat (unat ts)), WriteStr '' '', WriteStr channel, WriteStr '' '', WriteStr modes]
      @ concat (map (\<lambda>a. [WriteStr '' '', WriteStr a]) args)"
| "encode_s2s (ENCAP target subcommand params) =
      [WriteStr ''ENCAP '', WriteStr target, WriteStr '' '', WriteStr subcommand] @ write_trailing_unchecked params"
| "encode_s2s EOB = [WriteStr ''EOB'']"
| "encode_s2s (TB channel ts (Some nick) topic) =
      write_cmd_freeform ''TB'' [channel, show_nat (unat ts), nick, topic]"
| "encode_s2s (TB channel ts None topic) =
      write_cmd_freeform ''TB'' [channel, show_nat (unat ts), topic]"

fun encode_link :: "link_command \<Rightarrow> sink_op list" where
  "encode_link (SERVER n h t i) = write_cmd_freeform ''SERVER'' [n, show_nat (unat h), t, i]"
| "encode_link (CAPAB caps) = write_cmd ''CAPAB'' caps"
| "encode_link (SVINFO v m z t) =
      write_cmd_freeform ''SVINFO'' [show_nat (unat v), show_nat (unat m), show_nat (unat z), show_nat (unat t)]"

fun encode_user :: "user_command \<Rightarrow> sink_op list" where
  "encode_user (SERVLIST (Some m) (Some t)) = write_cmd ''SERVLIST'' [m, t]"
| "encode_user (SERVLIST (Some m) None) = write_cmd ''SERVLIST'' [m]"
| "encode_user (SERVLIST None _) = [WriteStr ''SERVLIST'']"
| "encode_user (SQUERY s t) = write_cmd_freeform ''SQUERY'' [s, t]"
| "encode_user (WHO (Some s) (Some flags)) = write_cmd ''WHO'' [s, flags]"
| "encode_user (WHO (Some s) None) = write_cmd ''WHO'' [s]"
| "encode_user (WHO None _) = [WriteStr ''WHO'']"
| "encode_user (WHOIS (Some t) m) = write_cmd ''WHOIS'' [t, m]"
| "encode_user (WHOIS None m) = write_cmd ''WHOIS'' [m]"
| "encode_user (WHOWAS n (Some c) (Some t)) = write_cmd ''WHOWAS'' [n, c, t]"
| "encode_user (WHOWAS n (Some c) None) = write_cmd ''WHOWAS'' [n, c]"
| "encode_user (WHOWAS n None _) = write_cmd ''WHOWAS'' [n]"
| "encode_user (KILL n c) = write_cmd_freeform ''KILL'' [n, c]"
| "encode_user (PING s (Some t)) = write_cmd ''PING'' [s, t]"
| "encode_user (PING s None) = write_cmd ''PING'' [s]"
| "encode_user (PONG s (Some t)) = write_cmd ''PONG'' [s, t]"
| "encode_user (PONG s None) = write_cmd ''PONG'' [s]"
| "encode_user (ERROR m) = write_cmd_freeform ''ERROR'' [m]"

fun encode_optional :: "optional_command \<Rightarrow> sink_op list" where
  "encode_optional (AWAY (Some m)) = write_cmd_freeform ''AWAY'' [m]"
| "encode_optional (AWAY None) = [WriteStr ''AWAY'']"
| "encode_optional REHASH = [WriteStr ''REHASH'']"
| "encode_optional DIE = [WriteStr ''DIE'']"
| "encode_optional RESTART = [WriteStr ''RESTART'']"
| "encode_optional (SUMMON u (Some t) (Some c)) = write_cmd ''SUMMON'' [u, t, c]"
| "encode_optional (SUMMON u (Some t) None) = write_cmd ''SUMMON'' [u, t]"
| "encode_optional (SUMMON u None _) = write_cmd ''SUMMON'' [u]"
| "encode_optional (USERS (Some t)) = write_cmd ''USERS'' [t]"
| "encode_optional (USERS None) = [WriteStr ''USERS'']"
| "encode_optional (WALLOPS t) = write_cmd_freeform ''WALLOPS'' [t]"
| "encode_optional (GLOBOPS t) = write_cmd_freeform ''GLOBOPS'' [t]"
| "encode_optional (USERHOST u) = WriteStr ''USERHOST'' # write_service_args u"
| "encode_optional (ISON u) = WriteStr ''ISON'' # write_service_args u"

fun encode_ban :: "ban_command \<Rightarrow> sink_op list" where
  "encode_ban (KLINE (Some t) m r) = write_cmd_freeform ''KLINE'' [t, m, r]"
| "encode_ban (KLINE None m r) = write_cmd_freeform ''KLINE'' [m, r]"
| "encode_ban (DLINE (Some t) h r) = write_cmd_freeform ''DLINE'' [t, h, r]"
| "encode_ban (DLINE None h r) = write_cmd_freeform ''DLINE'' [h, r]"
| "encode_ban (UNKLINE m) = write_cmd ''UNKLINE'' [m]"
| "encode_ban (UNDLINE h) = write_cmd ''UNDLINE'' [h]"
| "encode_ban (GLINE m (Some r)) = write_cmd_freeform ''GLINE'' [m, r]"
| "encode_ban (GLINE m None) = write_cmd ''GLINE'' [m]"
| "encode_ban (UNGLINE m) = write_cmd ''UNGLINE'' [m]"
| "encode_ban (ZLINE ip (Some r)) = write_cmd_freeform ''ZLINE'' [ip, r]"
| "encode_ban (ZLINE ip None) = write_cmd ''ZLINE'' [ip]"
| "encode_ban (UNZLINE ip) = write_cmd ''UNZLINE'' [ip]"
| "encode_ban (RLINE p (Some r)) = write_cmd_freeform ''RLINE'' [p, r]"
| "encode_ban (RLINE p None) = write_cmd ''RLINE'' [p]"
| "encode_ban (UNRLINE p) = write_cmd ''UNRLINE'' [p]"
| "encode_ban (SHUN m (Some r)) = write_cmd_freeform ''SHUN'' [m, r]"
| "encode_ban (SHUN m None) = write_cmd ''SHUN'' [m]"
| "encode_ban (UNSHUN m) = write_cmd ''UNSHUN'' [m]"
| "encode_ban (KNOCK c (Some m)) = write_cmd_freeform ''KNOCK'' [c, m]"
| "encode_ban (KNOCK c None) = write_cmd ''KNOCK'' [c]"

fun encode_services :: "services_command \<Rightarrow> sink_op list" where
  "encode_services (SAJOIN n c) = write_cmd ''SAJOIN'' [n, c]"
| "encode_services (SAMODE t m (Some p)) = write_cmd ''SAMODE'' [t, m, p]"
| "encode_services (SAMODE t m None) = write_cmd ''SAMODE'' [t, m]"
| "encode_services (SANICK old n) = write_cmd ''SANICK'' [old, n]"
| "encode_services (SAPART c r) = write_cmd ''SAPART'' [c, r]"
| "encode_services (SAQUIT c r) = write_cmd ''SAQUIT'' [c, r]"
| "encode_services (NICKSERV p) = WriteStr ''NICKSERV'' # write_service_args p"
| "encode_services (CHANSERV p) = WriteStr ''CHANSERV'' # write_service_args p"
| "encode_services (OPERSERV p) = WriteStr ''OPERSERV'' # write_service_args p"
| "encode_services (BOTSERV p) = WriteStr ''BOTSERV'' # write_service_args p"
| "encode_services (HOSTSERV p) = WriteStr ''HOSTSERV'' # write_service_args p"
| "encode_services (MEMOSERV p) = WriteStr ''MEMOSERV'' # write_service_args p"
| "encode_services (NS p) = WriteStr ''NS'' # write_service_args p"
| "encode_services (CS p) = WriteStr ''CS'' # write_service_args p"
| "encode_services (OS p) = WriteStr ''OS'' # write_service_args p"
| "encode_services (BS p) = WriteStr ''BS'' # write_service_args p"
| "encode_services (HS p) = WriteStr ''HS'' # write_service_args p"
| "encode_services (MS p) = WriteStr ''MS'' # write_service_args p"

fun encode_ircv3 :: "ircv3_command \<Rightarrow> sink_op list" where
  "encode_ircv3 (CAP target subcmd code params) =
      WriteStr ''CAP'' #
      (case target of None \<Rightarrow> [] | Some t \<Rightarrow> [WriteStr '' '', WriteStr t])
      @ [WriteStr '' '', WriteStr (cap_as_str subcmd)]
      @ (case code of None \<Rightarrow> [] | Some c \<Rightarrow> [WriteStr '' '', WriteStr c])
      @ (case params of None \<Rightarrow> [] | Some p \<Rightarrow> [WriteStr '' '', WriteStr p])"
| "encode_ircv3 (AUTHENTICATE d) = write_cmd ''AUTHENTICATE'' [d]"
| "encode_ircv3 (ACCOUNT a) = write_cmd ''ACCOUNT'' [a]"
| "encode_ircv3 (MONITOR c (Some t)) = write_cmd ''MONITOR'' [c, t]"
| "encode_ircv3 (MONITOR c None) = write_cmd ''MONITOR'' [c]"
| "encode_ircv3 (BATCH t (Some c) (Some a)) =
      [WriteStr ''BATCH '', WriteStr t, WriteStr '' '', WriteStr (batch_as_str c)] @ write_service_args a"
| "encode_ircv3 (BATCH t (Some c) None) = write_cmd ''BATCH'' [t, batch_as_str c]"
| "encode_ircv3 (BATCH t None (Some a)) = [WriteStr ''BATCH '', WriteStr t] @ write_service_args a"
| "encode_ircv3 (BATCH t None None) = write_cmd ''BATCH'' [t]"
| "encode_ircv3 (CHGHOST u h) = write_cmd ''CHGHOST'' [u, h]"
| "encode_ircv3 (CHGIDENT u i) = write_cmd ''CHGIDENT'' [u, i]"
| "encode_ircv3 (SETNAME r) = write_cmd_freeform ''SETNAME'' [r]"
| "encode_ircv3 (TAGMSG t) = write_cmd ''TAGMSG'' [t]"
| "encode_ircv3 ACK = [WriteStr ''ACK'']"
| "encode_ircv3 (WEBIRC pass gateway host ip (Some opts)) =
      write_cmd ''WEBIRC'' [pass, gateway, host, ip, opts]"
| "encode_ircv3 (WEBIRC pass gateway host ip None) = write_cmd ''WEBIRC'' [pass, gateway, host, ip]"
| "encode_ircv3 (CHATHISTORY subcommand target msg_ref1 msg_ref2 limit) =
      [WriteStr ''CHATHISTORY '', WriteStr (chathistory_as_str subcommand)] @
      (case subcommand of
         HistTARGETS \<Rightarrow>
           [WriteStr '' '', WriteStr (reference_display msg_ref1)]
           @ (case msg_ref2 of None \<Rightarrow> [] | Some ref2 \<Rightarrow> [WriteStr '' '', WriteStr (reference_display ref2)])
           @ [WriteStr '' '', WriteStr (show_nat (unat limit))]
       | HistBETWEEN \<Rightarrow>
           [WriteStr '' '', WriteStr target, WriteStr '' '', WriteStr (reference_display msg_ref1)]
           @ (case msg_ref2 of None \<Rightarrow> [] | Some ref2 \<Rightarrow> [WriteStr '' '', WriteStr (reference_display ref2)])
           @ [WriteStr '' '', WriteStr (show_nat (unat limit))]
       | _ \<Rightarrow>
           [WriteStr '' '', WriteStr target, WriteStr '' '', WriteStr (reference_display msg_ref1),
            WriteStr '' '', WriteStr (show_nat (unat limit))])"
| "encode_ircv3 (ChatHistoryTargets target timestamp) =
      write_cmd ''CHATHISTORY'' [''TARGETS'', target, timestamp]"
| "encode_ircv3 (NPC channel nick text) = write_cmd_freeform ''NPC'' [channel, nick, text]"
| "encode_ircv3 (RELAYMSG relay_from target text) =
      write_cmd_freeform ''RELAYMSG'' [target, relay_from, text]"

fun encode_reply :: "reply_command \<Rightarrow> sink_op list" where
  "encode_reply (FAIL command code context) = write_standard_reply ''FAIL'' command code context"
| "encode_reply (WARN command code context) = write_standard_reply ''WARN'' command code context"
| "encode_reply (NOTE command code context) = write_standard_reply ''NOTE'' command code context"
| "encode_reply (REGISTER account message) =
      [WriteStr ''REGISTER SUCCESS '', WriteStr account]
      @ (case message of None \<Rightarrow> [] | Some msg \<Rightarrow> [WriteStr '' :'', WriteStr msg])"
| "encode_reply (Response resp args) =
      WriteStr (show_code (unat resp)) # write_trailing_unchecked args"
| "encode_reply (Raw cmd args) = WriteStr cmd # write_args_with_trailing args"

fun encode_ops :: "irc_command \<Rightarrow> sink_op list" where
  "encode_ops (Registration c) = encode_registration c"
| "encode_ops (Channel c) = encode_channel c"
| "encode_ops (Messaging c) = encode_messaging c"
| "encode_ops (Query c) = encode_query c"
| "encode_ops (S2s c) = encode_s2s c"
| "encode_ops (Link c) = encode_link c"
| "encode_ops (UserQuery c) = encode_user c"
| "encode_ops (Optional c) = encode_optional c"
| "encode_ops (Ban c) = encode_ban c"
| "encode_ops (Services c) = encode_services c"
| "encode_ops (Ircv3 c) = encode_ircv3 c"
| "encode_ops (Reply c) = encode_reply c"

end
