(* ===== verification/Command_Print.thy ===== *)
theory Command_Print
  imports Command_Types
begin

text \<open>
  What the two serializers of a command print: the calls on a sink reduced to the bytes they write
  and the parameters they check, where \<open>Display\<close> and \<open>IrcEncode\<close> agree, and which fields of a
  command can carry a line break into the printed line.
\<close>

section \<open>Running a sink\<close>

fun puts :: "sink_op list \<Rightarrow> string" where
  "puts [] = []"
| "puts (WriteStr s # ops) = s @ puts ops"
| "puts (ValidateParam p # ops) = puts ops"

fun checks :: "sink_op list \<Rightarrow> string list" where
  "checks [] = []"
| "checks (WriteStr s # ops) = checks ops"
| "checks (ValidateParam p # ops) = p # checks ops"

lemma puts_append [simp]: "puts (a @ b) = puts a @ puts b"
  by (induction a rule: puts.induct) auto

lemma checks_append [simp]: "checks (a @ b) = checks a @ checks b"
  by (induction a rule: checks.induct) auto

lemma run_sink_ok:
  "list_all param_clean (checks ops) \<Longrightarrow> run_sink ops (buf, n) = (Inr (n + length (puts ops)), buf @ puts ops)"
  by (induction ops "(buf, n)" arbitrary: buf n rule: run_sink.induct) auto

lemma run_sink_error:
  "\<not> list_all param_clean (checks ops) \<Longrightarrow> fst (run_sink ops (buf, n)) = Inl InvalidInput"
  by (induction ops "(buf, n)" arbitrary: buf n rule: run_sink.induct) auto

lemma run_display_eq:
  "run_display ops = (if list_all param_clean (checks ops) then Some (puts ops) else None)"
  using run_sink_error [of ops "[]" 0] run_sink_ok [of ops "[]" 0]
  by (cases "run_sink ops ([], 0)") (auto simp: run_display_def)

lemma puts_plain [simp]: "puts (concat (map (\<lambda>p. [WriteStr '' '', WriteStr p]) ps)) = plain_args ps"
  "puts (map (\<lambda>p. WriteStr (CHR '' '' # p)) ps) = plain_args ps"
  "puts (concat (map (\<lambda>p. [ValidateParam p, WriteStr '' '', WriteStr p]) ps)) = plain_args ps"
  by (induction ps) (auto simp: plain_args_def)

lemma checks_plain [simp]: "checks (concat (map (\<lambda>p. [WriteStr '' '', WriteStr p]) ps)) = []"
  "checks (map (\<lambda>p. WriteStr (CHR '' '' # p)) ps) = []"
  "checks (concat (map (\<lambda>p. [ValidateParam p, WriteStr '' '', WriteStr p]) ps)) = ps"
  by (induction ps) auto

lemma colon_sink [simp]:
  "puts (colon_if_needed a) = (if needs_colon_prefix a then '':'' else [])" "checks (colon_if_needed a) = []"
  by (simp_all add: colon_if_needed_def)

lemma raw_args_snoc:
  "raw_args (ms @ [a]) = plain_args ms @ CHR '' '' # (if needs_colon_prefix a then CHR '':'' # a else a)"
proof (induction ms)
  case (Cons m ms)
  then show ?case by (cases ms) (auto simp: plain_args_def)
qed (simp add: plain_args_def)

lemma write_cmd_sink [simp]: "puts (write_cmd n as) = n @ raw_args as" "checks (write_cmd n as) = as"
  using raw_args_snoc [of "butlast as" "last as"] by (auto simp: write_cmd_def Let_def)

definition freeform_args :: "string list \<Rightarrow> string" where
  "freeform_args as = (if as = [] then [] else plain_args (butlast as) @ '' :'' @ last as)"

lemma write_cmd_freeform_sink [simp]:
  "puts (write_cmd_freeform n as) = n @ freeform_args as" "checks (write_cmd_freeform n as) = as"
  by (auto simp: write_cmd_freeform_def freeform_args_def Let_def)

lemma write_args_sink [simp]:
  "puts (write_args_with_trailing as) = raw_args as" "checks (write_args_with_trailing as) = as"
  by (induction as rule: write_args_with_trailing.induct) auto

lemma write_service_sink [simp]:
  "puts (write_service_args as) = raw_args as" "checks (write_service_args as) = as"
  "puts (write_service_command n as) = n @ raw_args as" "checks (write_service_command n as) = as"
  by (simp_all add: write_service_args_def write_service_command_def)

lemma write_unchecked_sink [simp]:
  "puts (write_trailing_unchecked as) = raw_args as" "checks (write_trailing_unchecked as) = []"
  by (induction as rule: write_trailing_unchecked.induct) auto

lemma write_users_sink [simp]:
  "puts (write_users us) = join_with '' '' (map (\<lambda>(p, u). p @ u) us)" "checks (write_users us) = []"
  by (induction us rule: write_users.induct) auto

lemma reply_context_sink [simp]:
  "puts (write_reply_context as) = freeform_args as" "checks (write_reply_context as) = as"
  by (induction as rule: write_reply_context.induct) (auto simp: freeform_args_def plain_args_def)

lemma standard_reply_sink [simp]:
  "puts (write_standard_reply t cmd code as) = t @ '' '' @ cmd @ '' '' @ code @ freeform_args as"
  "checks (write_standard_reply t cmd code as) = as"
  by (simp_all add: write_standard_reply_def)

lemma collapsed_checks [simp]: "checks (write_collapsed_mode_flags T ms) = []"
proof -
  have "checks (collapsed_loop T s ms) = []" for s
    by (induction T s ms rule: collapsed_loop.induct) (auto simp: Let_def split: plus_minus.split)
  then show ?thesis by (simp add: write_collapsed_mode_flags_def)
qed

lemma response_args_sink:
  "a \<noteq> [] \<Longrightarrow> plain_args (butlast a) @ CHR '' '' # (if needs_colon_prefix (last a) then CHR '':'' # last a else last a) = raw_args a"
  using raw_args_snoc [of "butlast a" "last a"] by simp

lemma response_sink:
  "puts (display_reply (Response r a)) = show_code (unat r) @ raw_args a" "checks (display_reply (Response r a)) = []"
  by (auto simp: response_args_sink [symmetric] plain_args_def)

section \<open>Where the serializers agree\<close>

definition plain_last :: "string list \<Rightarrow> bool" where
  "plain_last as \<longleftrightarrow> as = [] \<or> \<not> needs_colon_prefix (last as)"

text \<open>The fields of \<open>CAP\<close> in the order they are printed.\<close>

definition cap_args ::
  "string option \<Rightarrow> cap_subcommand \<Rightarrow> string option \<Rightarrow> string option \<Rightarrow> string list" where
  "cap_args k s c p =
    (case k of None \<Rightarrow> [] | Some x \<Rightarrow> [x]) @ [cap_as_str s]
    @ (case c of None \<Rightarrow> [] | Some x \<Rightarrow> [x]) @ (case p of None \<Rightarrow> [] | Some x \<Rightarrow> [x])"

fun serializers_agree :: "irc_command \<Rightarrow> bool" where
  "serializers_agree (Channel (ChannelMODE c modes)) =
    list_all param_clean (List.map_filter mode_arg modes)"
| "serializers_agree (Query (USERIP u)) = (list_all param_clean u \<and> plain_last u)"
| "serializers_agree (UserQuery (WHOWAS n None (Some c))) = (\<not> param_clean n)"
| "serializers_agree (Ircv3 (CAP k s c p)) =
    (list_all param_clean (cap_args k s c p) \<and> plain_last (cap_args k s c p))"
| "serializers_agree (Ircv3 (ChatHistoryTargets target timestamp)) =
    (list_all param_clean [target, timestamp] \<and> plain_last [target, timestamp])"
| "serializers_agree _ = True"

lemma raw_args_plain: "raw_args as = plain_args as \<longleftrightarrow> plain_last as"
proof (cases as rule: rev_cases)
  case (snoc ms a)
  have "CHR '':'' # a \<noteq> a" by (metis not_Cons_self2)
  then show ?thesis by (auto simp: snoc raw_args_snoc plain_last_def plain_args_def)
qed (simp add: plain_last_def plain_args_def)

lemma cap_sinks:
  "display_ircv3 (CAP k s c p) = write_cmd ''CAP'' (cap_args k s c p)"
  "puts (encode_ircv3 (CAP k s c p)) = ''CAP'' @ plain_args (cap_args k s c p)"
  "checks (encode_ircv3 (CAP k s c p)) = []"
  by (cases k; cases c; cases p; simp add: cap_args_def plain_args_def)+

definition same_sink :: "sink_op list \<Rightarrow> sink_op list \<Rightarrow> bool" where
  "same_sink a b \<longleftrightarrow> puts a = puts b \<and> checks a = checks b"

lemma same_sink_display: "same_sink a b \<Longrightarrow> run_display a = run_display b"
  by (simp add: same_sink_def run_display_eq)

lemma agree_registration: "same_sink (encode_registration c) (display_registration c)"
  by (cases c rule: display_registration.cases) (simp_all add: same_sink_def)

lemma agree_channel:
  "(\<forall>ch ms. c \<noteq> ChannelMODE ch ms) \<Longrightarrow> same_sink (encode_channel c) (display_channel c)"
  by (cases c rule: display_channel.cases) (simp_all add: same_sink_def)

lemma agree_messaging: "same_sink (encode_messaging c) (display_messaging c)"
  by (cases c rule: display_messaging.cases) (simp_all add: same_sink_def)

lemma agree_query: "(\<forall>u. c \<noteq> USERIP u) \<Longrightarrow> same_sink (encode_query c) (display_query c)"
  by (cases c rule: display_query.cases) (simp_all add: same_sink_def)

lemma agree_s2s: "same_sink (encode_s2s c) (display_s2s c)"
  by (cases c rule: display_s2s.cases) (simp_all add: same_sink_def)

lemma agree_link: "same_sink (encode_link c) (display_link c)"
  by (cases c rule: display_link.cases) (simp_all add: same_sink_def)

lemma agree_user: "(\<forall>n k. c \<noteq> WHOWAS n None (Some k)) \<Longrightarrow> same_sink (encode_user c) (display_user c)"
  by (cases c rule: display_user.cases) (simp_all add: same_sink_def)

lemma agree_optional: "same_sink (encode_optional c) (display_optional c)"
  by (cases c rule: display_optional.cases) (simp_all add: same_sink_def)

lemma agree_ban: "same_sink (encode_ban c) (display_ban c)"
  by (cases c rule: display_ban.cases) (simp_all add: same_sink_def)

lemma agree_services: "same_sink (encode_services c) (display_services c)"
  by (cases c rule: display_services.cases) (simp_all add: same_sink_def)

lemma agree_ircv3:
  "(\<forall>k s m p. c \<noteq> CAP k s m p) \<Longrightarrow> (\<forall>t ts. c \<noteq> ChatHistoryTargets t ts) \<Longrightarrow>
    same_sink (encode_ircv3 c) (display_ircv3 c)"
  by (cases c rule: display_ircv3.cases)
    (simp_all add: same_sink_def split: chathistory_subcommand.split option.split)

lemma agree_reply: "same_sink (encode_reply c) (display_reply c)"
  by (cases c rule: display_reply.cases)
    (auto simp: same_sink_def response_args_sink [symmetric] plain_args_def)

lemmas agree_sections = agree_registration agree_channel agree_messaging agree_query agree_s2s agree_link
  agree_user agree_optional agree_ban agree_services agree_ircv3 agree_reply

lemmas serializer_simps =
  display_registration.simps encode_registration.simps
  display_channel.simps encode_channel.simps
  display_messaging.simps encode_messaging.simps
  display_query.simps encode_query.simps
  display_s2s.simps encode_s2s.simps
  display_link.simps encode_link.simps
  display_user.simps encode_user.simps
  display_optional.simps encode_optional.simps
  display_ban.simps encode_ban.simps
  display_services.simps encode_services.simps
  display_ircv3.simps encode_ircv3.simps
  display_reply.simps encode_reply.simps

section \<open>The variants on which they differ\<close>

lemma plain_line: "n @ raw_args as = n @ plain_args as \<longleftrightarrow> plain_last as"
  using raw_args_plain [of as] by simp

lemma differ_channel_mode:
  "run_display (encode_channel (ChannelMODE c ms)) = run_display (display_channel (ChannelMODE c ms)) \<longleftrightarrow>
    list_all param_clean (List.map_filter mode_arg ms)"
  by (auto simp: run_display_eq)

lemma differ_userip:
  "run_display (encode_query (USERIP u)) = run_display (display_query (USERIP u)) \<longleftrightarrow>
    list_all param_clean u \<and> plain_last u"
  using raw_args_plain [of u] by (auto simp: run_display_eq)

lemma differ_whowas:
  "run_display (encode_user (WHOWAS n None (Some k))) = run_display (display_user (WHOWAS n None (Some k))) \<longleftrightarrow>
    \<not> param_clean n"
proof -
  have "length (raw_args [n]) < length (raw_args [n, k])"
    by (auto simp: needs_colon_prefix_def)
  then have "raw_args [n] \<noteq> raw_args [n, k]" by (metis less_irrefl)
  then show ?thesis by (auto simp: run_display_eq simp del: raw_args.simps)
qed

lemma differ_cap:
  "run_display (encode_ircv3 (CAP k s m p)) = run_display (display_ircv3 (CAP k s m p)) \<longleftrightarrow>
    list_all param_clean (cap_args k s m p) \<and> plain_last (cap_args k s m p)"
  unfolding run_display_eq cap_sinks using raw_args_plain [of "cap_args k s m p"] by auto

lemma differ_targets:
  "run_display (encode_ircv3 (ChatHistoryTargets t ts)) = run_display (display_ircv3 (ChatHistoryTargets t ts)) \<longleftrightarrow>
    list_all param_clean [t, ts] \<and> plain_last [t, ts]"
  using raw_args_plain [of "[''TARGETS'', t, ts]"]
  by (auto simp: run_display_eq plain_args_def plain_last_def param_clean_def is_eol_def)


text \<open>C13. \<open>IrcEncode\<close> writes the bytes \<open>Display\<close> writes and fails where it fails, for every command
  except: a \<open>WHOWAS\<close> with only its last optional field (\<open>IrcEncode\<close> drops it; both fail when the
  nickname holds a line break), a \<open>CAP\<close> whose last
  printed field needs a colon or one of whose fields holds a line break (\<open>IrcEncode\<close> prints neither
  the colon nor the error), a \<open>ChannelMODE\<close> with a line break in a mode argument (unchecked by
  \<open>IrcEncode\<close>), and a \<open>USERIP\<close> or \<open>ChatHistoryTargets\<close> with such a field (unchecked by \<open>Display\<close>).
  On exactly those commands the two differ.\<close>

theorem encode_agrees_iff:
  "run_display (encode_ops c) = run_display (display_ops c) \<longleftrightarrow> serializers_agree c"
proof (cases c rule: serializers_agree.cases)
  case (1 ch ms)
  then show ?thesis using differ_channel_mode [of ch ms] by (simp del: serializer_simps)
next
  case (2 u)
  then show ?thesis using differ_userip [of u] by (simp del: serializer_simps)
next
  case (3 n k)
  then show ?thesis using differ_whowas [of n k] by (simp del: serializer_simps)
next
  case (4 k s m p)
  then show ?thesis using differ_cap [of k s m p] by (simp del: serializer_simps)
next
  case (5 t ts)
  then show ?thesis using differ_targets [of t ts] by (simp del: serializer_simps)
qed (auto intro!: same_sink_display agree_sections simp del: serializer_simps)

section \<open>Line breaks in a printed line\<close>

text \<open>The fields \<open>Display\<close> writes without \<open>validate_param\<close>.\<close>

fun unchecked_fields :: "irc_command \<Rightarrow> string list" where
  "unchecked_fields (Registration (UserMODE u modes)) = u # map (\<lambda>m. letter user_mode_type (mode_mode m)) modes"
| "unchecked_fields (Channel (ChannelMODE c modes)) = c # map (\<lambda>m. letter proto_mode_type (mode_mode m)) modes"
| "unchecked_fields (Query (USERIP u)) = u"
| "unchecked_fields (Query (METADATA subcommand target params)) = target # params"
| "unchecked_fields (S2s (SJOIN ts channel modes args users)) =
    channel # modes # args @ map fst users @ map snd users"
| "unchecked_fields (S2s (TMODE ts channel modes args)) = channel # modes # args"
| "unchecked_fields (S2s (ENCAP target subcommand params)) = target # subcommand # params"
| "unchecked_fields (Ircv3 (BATCH t (Some c) (Some a))) = [t, batch_as_str c]"
| "unchecked_fields (Ircv3 (BATCH t None (Some a))) = [t]"
| "unchecked_fields (Ircv3 (CHATHISTORY subcommand target ref1 ref2 limit)) =
    (if subcommand = HistTARGETS then [] else [target]) @ [reference_display ref1]
    @ (if subcommand = HistTARGETS \<or> subcommand = HistBETWEEN
       then (case ref2 of None \<Rightarrow> [] | Some r \<Rightarrow> [reference_display r]) else [])"
| "unchecked_fields (Ircv3 (ChatHistoryTargets target timestamp)) = [target, timestamp]"
| "unchecked_fields (Reply (FAIL command code context)) = [command, code]"
| "unchecked_fields (Reply (WARN command code context)) = [command, code]"
| "unchecked_fields (Reply (NOTE command code context)) = [command, code]"
| "unchecked_fields (Reply (REGISTER account message)) =
    account # (case message of None \<Rightarrow> [] | Some msg \<Rightarrow> [msg])"
| "unchecked_fields (Reply (Response resp a)) = a"
| "unchecked_fields (Reply (Raw c a)) = [c]"
| "unchecked_fields _ = []"

lemma clean_parts [simp]:
  "param_clean []" "param_clean (a @ b) \<longleftrightarrow> param_clean a \<and> param_clean b"
  "param_clean (c # a) \<longleftrightarrow> \<not> is_eol c \<and> param_clean a"
  by (simp_all add: param_clean_def)

lemma clean_args:
  "param_clean (plain_args as) \<longleftrightarrow> list_all param_clean as"
  "param_clean (raw_args as) \<longleftrightarrow> list_all param_clean as"
  by (induction as rule: raw_args.induct) (auto simp: plain_args_def not_eol)

lemma clean_freeform: "param_clean (freeform_args as) \<longleftrightarrow> list_all param_clean as"
  by (cases as rule: rev_cases) (auto simp: freeform_args_def clean_args not_eol)

lemma clean_digits: "list_all is_ascii_digit s \<Longrightarrow> param_clean s"
  by (auto simp: param_clean_def list_all_iff list_ex_iff is_eol_def is_ascii_digit_def byte_of_def)

lemma clean_show [simp]: "param_clean (show_nat n)" "param_clean (show_code n)"
proof -
  show n: "param_clean (show_nat n)" by (rule clean_digits [OF show_nat_digits])
  have "param_clean (replicate k CHR ''0'')" for k by (induction k) (auto simp: is_eol_def)
  then show "param_clean (show_code n)" using n by (simp add: show_code_def)
qed

lemma clean_cap [simp]: "param_clean (cap_as_str s)"
  by (cases s) (simp_all add: is_eol_def)

lemma clean_metadata [simp]: "param_clean (metadata_as_str s)"
  by (cases s) (simp_all add: is_eol_def)

lemma clean_chathistory [simp]: "param_clean (chathistory_as_str s)"
  by (cases s) (simp_all add: is_eol_def)

lemma clean_join: "param_clean (join_with '' '' ws) \<longleftrightarrow> list_all param_clean ws"
  by (induction "'' ''" ws rule: join_with.induct) (auto simp: not_eol)

lemma clean_flags:
  "param_clean (puts (write_collapsed_mode_flags T ms)) \<longleftrightarrow> list_all (\<lambda>m. param_clean (letter T (mode_mode m))) ms"
proof -
  have "param_clean (puts (collapsed_loop T s ms)) \<longleftrightarrow> list_all (\<lambda>m. param_clean (letter T (mode_mode m))) ms" for s
    by (induction T s ms rule: collapsed_loop.induct) (auto simp: Let_def is_eol_def split: plus_minus.split)
  then show ?thesis by (simp add: write_collapsed_mode_flags_def)
qed

lemma clean_users:
  "list_all (\<lambda>x. param_clean (case x of (p, u) \<Rightarrow> p @ u)) us \<longleftrightarrow>
    list_all (\<lambda>x. param_clean (fst x)) us \<and> list_all (\<lambda>x. param_clean (snd x)) us"
  by (induction us) auto

lemma is_eol_literals: "is_eol (Char b0 b1 b2 b3 b4 b5 b6 b7) \<longleftrightarrow>
    Char b0 b1 b2 b3 b4 b5 b6 b7 = CHR 0x0D \<or> Char b0 b1 b2 b3 b4 b5 b6 b7 = CHR 0x0A"
  by (simp only: is_eol_def)

lemmas clean_simps = clean_args clean_freeform clean_join clean_flags clean_users is_eol_literals list.pred_map comp_def

definition breaks_by :: "sink_op list \<Rightarrow> string list \<Rightarrow> bool" where
  "breaks_by ops unchecked \<longleftrightarrow>
    (list_all param_clean (checks ops) \<longrightarrow> (param_clean (puts ops) \<longleftrightarrow> list_all param_clean unchecked))"

lemma lines_registration: "breaks_by (display_registration c) (unchecked_fields (Registration c))"
  by (cases c rule: display_registration.cases) (auto simp: breaks_by_def clean_simps)

lemma lines_channel: "breaks_by (display_channel c) (unchecked_fields (Channel c))"
  by (cases c rule: display_channel.cases) (auto simp: breaks_by_def clean_simps)

lemma lines_messaging: "breaks_by (display_messaging c) (unchecked_fields (Messaging c))"
  by (cases c rule: display_messaging.cases) (auto simp: breaks_by_def clean_simps)

lemma lines_query: "breaks_by (display_query c) (unchecked_fields (Query c))"
  by (cases c rule: display_query.cases) (auto simp: breaks_by_def clean_simps)

lemma lines_s2s: "breaks_by (display_s2s c) (unchecked_fields (S2s c))"
  by (cases c rule: display_s2s.cases) (auto simp: breaks_by_def clean_simps)

lemma lines_link: "breaks_by (display_link c) (unchecked_fields (Link c))"
  by (cases c rule: display_link.cases) (auto simp: breaks_by_def clean_simps)

lemma lines_user: "breaks_by (display_user c) (unchecked_fields (UserQuery c))"
  by (cases c rule: display_user.cases) (auto simp: breaks_by_def clean_simps)

lemma lines_optional: "breaks_by (display_optional c) (unchecked_fields (Optional c))"
  by (cases c rule: display_optional.cases) (auto simp: breaks_by_def clean_simps)

lemma lines_ban: "breaks_by (display_ban c) (unchecked_fields (Ban c))"
  by (cases c rule: display_ban.cases) (auto simp: breaks_by_def clean_simps)

lemma lines_services: "breaks_by (display_services c) (unchecked_fields (Services c))"
  by (cases c rule: display_services.cases) (auto simp: breaks_by_def clean_simps)

lemma lines_ircv3: "breaks_by (display_ircv3 c) (unchecked_fields (Ircv3 c))"
  by (cases c rule: display_ircv3.cases) (auto simp: breaks_by_def clean_simps split: chathistory_subcommand.split option.split)

lemma lines_reply: "breaks_by (display_reply c) (unchecked_fields (Reply c))"
proof (cases c rule: display_reply.cases)
  case (5 r a)
  then show ?thesis using response_sink [of r a] by (simp add: breaks_by_def clean_simps del: display_reply.simps)
qed (auto simp: breaks_by_def clean_simps split: option.split)

lemma lines_section: "breaks_by (display_ops c) (unchecked_fields c)"
  using lines_registration lines_channel lines_messaging lines_query lines_s2s lines_link lines_user
    lines_optional lines_ban lines_services lines_ircv3 lines_reply
  by (cases c) (simp_all only: display_ops.simps)

text \<open>C14. A line break gets into the line \<open>Display\<close> prints for a command exactly through the fields it
  does not check: when printing succeeds, the line holds no carriage return or line feed if and only
  if none of those fields does.  They are the fields of \<open>USERIP\<close>, \<open>METADATA\<close>, \<open>SJOIN\<close>, \<open>TMODE\<close>,
  \<open>ENCAP\<close>, \<open>CHATHISTORY\<close>, \<open>REGISTER\<close> and the numeric replies, the target and the letters of a mode
  change, the reference of a \<open>BATCH\<close> with arguments, the command and the code of a standard reply,
  and the name of a raw command; every other field of every command is checked.\<close>

theorem printed_line_breaks_iff:
  assumes "run_display (display_ops c) = Some line"
  shows "param_clean line \<longleftrightarrow> list_all param_clean (unchecked_fields c)"
  using assms lines_section [of c] by (auto simp: run_display_eq breaks_by_def split: if_splits)

theorem printed_line_breaks_iff_witness:
  "param_clean ''PRIVMSG #a :hi there'' \<longleftrightarrow> list_all param_clean (unchecked_fields (Messaging (PRIVMSG ''#a'' ''hi there'')))"
  by (rule printed_line_breaks_iff) code_simp

end
