(* ===== verification/Command_Parse.thy ===== *)
theory Command_Parse
  imports Command_Print
begin

text \<open>
  \<open>Command::new\<close> (\<open>crates/slirc-proto/src/command/parse\<close>): from the name and the arguments of a
  parsed line to a command, one definition per module (\<open>connection.rs\<close>, \<open>channel.rs\<close>, \<open>server.rs\<close>,
  \<open>user.rs\<close>, \<open>messaging.rs\<close>, \<open>ircv3.rs\<close>), and the numeric replies (\<open>response/numerics.rs\<close>,
  \<open>response/errors.rs\<close>, \<open>response/helpers.rs\<close>).

  The match on the number of arguments that most arms share is written once per shape
  (\<open>args1\<close>, \<open>opt1\<close>, ...); every other number of arguments gives the raw command.  The
  \<open>unreachable!\<close> arms are the value \<open>Unreachable\<close>.  The white space beyond ASCII at which
  \<open>str::split_whitespace\<close> cuts the user list of \<open>SJOIN\<close> (Unicode's table) is the argument \<open>uw\<close>.
\<close>

section \<open>Numeric replies\<close>

definition success_codes :: "nat list" where
  "success_codes =
    [1, 2, 3, 4, 5, 10, 42, 200, 201, 202, 203, 204, 205, 206, 207, 208, 209, 210, 211, 212, 216, 219,
     220, 221, 226, 234, 235, 242, 243, 249, 251, 252, 253, 254, 255, 256, 257, 258, 259, 261, 262, 263,
     265, 266, 271, 272, 276, 281, 282, 300, 301, 302, 303, 305, 306, 311, 312, 313, 314, 315, 317, 318,
     319, 321, 322, 323, 324, 325, 329, 330, 331, 332, 333, 335, 338, 340, 341, 342, 346, 347, 348, 349,
     351, 352, 353, 354, 364, 365, 366, 367, 368, 369, 371, 372, 374, 375, 376, 378, 379, 381, 382, 383,
     391, 392, 393, 394, 395, 396, 606, 607, 632, 633, 634, 646, 670, 671, 691, 704, 705, 706, 710, 711,
     728, 729, 730, 731, 732, 733, 760, 761, 900, 901, 903, 908]"

definition error_codes :: "nat list" where
  "error_codes =
    [400, 401, 402, 403, 404, 405, 406, 407, 408, 409, 411, 412, 413, 414, 415, 417, 421, 422, 423, 424,
     431, 432, 433, 436, 437, 441, 442, 443, 444, 445, 446, 447, 451, 456, 457, 458, 461, 462, 463, 464,
     465, 466, 467, 470, 471, 472, 473, 474, 475, 476, 477, 478, 479, 481, 482, 483, 484, 485, 489, 491,
     520, 501, 502, 511, 524, 573, 635, 712, 713, 714, 723, 734, 765, 766, 767, 768, 769, 902, 904, 905,
     906, 907]"

text \<open>The discriminants of the enum \<open>Response\<close>.\<close>

definition response_variants :: "nat list" where
  "response_variants =
    [1, 2, 3, 4, 5, 10, 42, 200, 201, 202, 203, 204, 205, 206, 207, 208, 209, 210, 211, 212, 216, 219,
     220, 221, 226, 234, 235, 242, 243, 249, 281, 282, 251, 252, 253, 254, 255, 256, 257, 258, 259, 261,
     262, 263, 265, 266, 271, 272, 276, 300, 301, 302, 303, 305, 306, 311, 312, 313, 314, 315, 317, 318,
     319, 321, 322, 323, 324, 325, 329, 330, 331, 332, 333, 335, 338, 340, 341, 342, 346, 347, 348, 349,
     351, 352, 353, 354, 364, 365, 366, 367, 368, 369, 371, 372, 374, 375, 376, 378, 379, 381, 382, 383,
     391, 392, 393, 394, 395, 396, 400, 401, 402, 403, 404, 405, 406, 407, 408, 409, 410, 411, 412, 413,
     414, 415, 417, 421, 422, 423, 424, 431, 432, 433, 436, 437, 441, 442, 443, 444, 445, 446, 447, 451,
     456, 457, 458, 461, 462, 463, 464, 465, 466, 467, 470, 471, 472, 473, 474, 475, 476, 477, 478, 479,
     481, 482, 483, 484, 485, 489, 491, 520, 501, 502, 511, 524, 525, 573, 606, 607, 632, 633, 634, 635,
     646, 671, 670, 691, 696, 704, 705, 706, 710, 711, 712, 713, 714, 723, 728, 729, 730, 731, 732, 733,
     734, 760, 761, 762, 764, 765, 766, 767, 768, 769, 900, 901, 902, 903, 904, 905, 906, 907, 908]"

definition from_success_code :: "nat \<Rightarrow> nat option" where
  "from_success_code code = (if code \<in> set success_codes then Some code else None)"

definition from_error_code :: "nat \<Rightarrow> nat option" where
  "from_error_code code = (if code \<in> set error_codes then Some code else None)"

definition from_code :: "nat \<Rightarrow> nat option" where
  "from_code code =
    (case from_success_code code of
       Some resp \<Rightarrow> Some resp
     | None \<Rightarrow> (case from_error_code code of Some resp \<Rightarrow> Some resp | None \<Rightarrow> None))"

definition response_from_str :: "string \<Rightarrow> nat option" where
  "response_from_str s = (case parse_uint 65535 s of None \<Rightarrow> None | Some code \<Rightarrow> from_code code)"

definition response_is_error :: "nat \<Rightarrow> bool" where
  "response_is_error code \<longleftrightarrow>
    400 \<le> code \<and> code < 600 \<or> code = 723 \<or> code = 734 \<or> 765 \<le> code \<and> code \<le> 769
    \<or> code = 902 \<or> 904 \<le> code \<and> code \<le> 907"

section \<open>Argument shapes\<close>

datatype command_error = ModeError mode_error | Unreachable

definition raw :: "string \<Rightarrow> string list \<Rightarrow> irc_command" where
  "raw cmd args = Reply (Raw cmd args)"

fun args0 :: "irc_command \<Rightarrow> string \<Rightarrow> string list \<Rightarrow> irc_command" where
  "args0 k cmd [] = k"
| "args0 k cmd args = raw cmd args"

fun args1 :: "(string \<Rightarrow> irc_command) \<Rightarrow> string \<Rightarrow> string list \<Rightarrow> irc_command" where
  "args1 k cmd [a] = k a"
| "args1 k cmd args = raw cmd args"

fun args2 :: "(string \<Rightarrow> string \<Rightarrow> irc_command) \<Rightarrow> string \<Rightarrow> string list \<Rightarrow> irc_command" where
  "args2 k cmd [a, b] = k a b"
| "args2 k cmd args = raw cmd args"

fun args3 :: "(string \<Rightarrow> string \<Rightarrow> string \<Rightarrow> irc_command) \<Rightarrow> string \<Rightarrow> string list \<Rightarrow> irc_command" where
  "args3 k cmd [a, b, c] = k a b c"
| "args3 k cmd args = raw cmd args"

fun opt1 :: "(string option \<Rightarrow> irc_command) \<Rightarrow> string \<Rightarrow> string list \<Rightarrow> irc_command" where
  "opt1 k cmd [] = k None"
| "opt1 k cmd [a] = k (Some a)"
| "opt1 k cmd args = raw cmd args"

fun opt2 :: "(string option \<Rightarrow> string option \<Rightarrow> irc_command) \<Rightarrow> string \<Rightarrow> string list \<Rightarrow> irc_command" where
  "opt2 k cmd [] = k None None"
| "opt2 k cmd [a] = k (Some a) None"
| "opt2 k cmd [a, b] = k (Some a) (Some b)"
| "opt2 k cmd args = raw cmd args"

fun args1_opt1 :: "(string \<Rightarrow> string option \<Rightarrow> irc_command) \<Rightarrow> string \<Rightarrow> string list \<Rightarrow> irc_command" where
  "args1_opt1 k cmd [a] = k a None"
| "args1_opt1 k cmd [a, b] = k a (Some b)"
| "args1_opt1 k cmd args = raw cmd args"

fun args1_opt2 ::
  "(string \<Rightarrow> string option \<Rightarrow> string option \<Rightarrow> irc_command) \<Rightarrow> string \<Rightarrow> string list \<Rightarrow> irc_command" where
  "args1_opt2 k cmd [a] = k a None None"
| "args1_opt2 k cmd [a, b] = k a (Some b) None"
| "args1_opt2 k cmd [a, b, c] = k a (Some b) (Some c)"
| "args1_opt2 k cmd args = raw cmd args"

fun args2_opt1 :: "(string \<Rightarrow> string \<Rightarrow> string option \<Rightarrow> irc_command) \<Rightarrow> string \<Rightarrow> string list \<Rightarrow> irc_command" where
  "args2_opt1 k cmd [a, b] = k a b None"
| "args2_opt1 k cmd [a, b, c] = k a b (Some c)"
| "args2_opt1 k cmd args = raw cmd args"

fun opt1_args1 :: "(string option \<Rightarrow> string \<Rightarrow> irc_command) \<Rightarrow> string \<Rightarrow> string list \<Rightarrow> irc_command" where
  "opt1_args1 k cmd [a] = k None a"
| "opt1_args1 k cmd [t, a] = k (Some t) a"
| "opt1_args1 k cmd args = raw cmd args"

fun opt1_args2 :: "(string option \<Rightarrow> string \<Rightarrow> string \<Rightarrow> irc_command) \<Rightarrow> string \<Rightarrow> string list \<Rightarrow> irc_command" where
  "opt1_args2 k cmd [a, b] = k None a b"
| "opt1_args2 k cmd [t, a, b] = k (Some t) a b"
| "opt1_args2 k cmd args = raw cmd args"

section \<open>The modules\<close>

definition connection_parse :: "string \<Rightarrow> string list \<Rightarrow> command_error + irc_command" where
  "connection_parse cmd args =
    (if cmd = ''PASS'' then
       Inr (case args of
              [p] \<Rightarrow> Registration (PASS p)
            | [password, ts_marker, version, sid] \<Rightarrow>
                if to_ascii_uppercase ts_marker \<noteq> ''TS'' \<or> version \<noteq> ''6'' then raw cmd args
                else Registration (PassTs6 password sid)
            | _ \<Rightarrow> raw cmd args)
     else if cmd = ''NICK'' then Inr (args1 (\<lambda>n. Registration (NICK n)) cmd args)
     else if cmd = ''USER'' then
       Inr (case args of [u, m, _, r] \<Rightarrow> Registration (USER u m r) | _ \<Rightarrow> raw cmd args)
     else if cmd = ''OPER'' then Inr (args2 (\<lambda>u p. Registration (OPER u p)) cmd args)
     else if cmd = ''SERVICE'' then
       Inr (case args of
              [a, b, c, d, e, f] \<Rightarrow> Registration (SERVICE a b c d e f)
            | _ \<Rightarrow> raw cmd args)
     else if cmd = ''QUIT'' then Inr (opt1 (\<lambda>m. Registration (QUIT m)) cmd args)
     else if cmd = ''SQUIT'' then Inr (args2 (\<lambda>s c. Registration (SQUIT s c)) cmd args)
     else Inl Unreachable)"

definition channel_parse :: "string \<Rightarrow> string list \<Rightarrow> command_error + irc_command" where
  "channel_parse cmd args =
    (if cmd = ''JOIN'' then Inr (args1_opt2 (\<lambda>c k n. Channel (JOIN c k n)) cmd args)
     else if cmd = ''PART'' then Inr (args1_opt1 (\<lambda>c m. Channel (PART c m)) cmd args)
     else if cmd = ''TOPIC'' then Inr (args1_opt1 (\<lambda>c t. Channel (TOPIC c t)) cmd args)
     else if cmd = ''NAMES'' then Inr (opt2 (\<lambda>c t. Channel (NAMES c t)) cmd args)
     else if cmd = ''LIST'' then Inr (opt2 (\<lambda>c t. Channel (LIST c t)) cmd args)
     else if cmd = ''INVITE'' then Inr (args2 (\<lambda>n c. Channel (INVITE n c)) cmd args)
     else if cmd = ''KICK'' then Inr (args2_opt1 (\<lambda>c n r. Channel (KICK c n r)) cmd args)
     else Inl Unreachable)"

text \<open>\<open>str::split_whitespace\<close> over the characters, and one entry of the user list of \<open>SJOIN\<close>.\<close>

definition is_whitespace :: "(string \<Rightarrow> bool) \<Rightarrow> string \<Rightarrow> bool" where
  "is_whitespace uw g =
    (if byte_of (hd g) < 128 then 9 \<le> byte_of (hd g) \<and> byte_of (hd g) \<le> 13 \<or> byte_of (hd g) = 32
     else uw g)"

function ws_words :: "(string \<Rightarrow> bool) \<Rightarrow> string list \<Rightarrow> string list" where
  "ws_words P [] = []"
| "ws_words P (g # gs) =
    (if P g then ws_words P gs
     else concat (g # takeWhile (\<lambda>h. \<not> P h) gs) # ws_words P (dropWhile (\<lambda>h. \<not> P h) gs))"
  by pat_completeness auto
termination
  by (relation "measure (\<lambda>(P, gs). length gs)") (auto simp: less_Suc_eq_le length_dropWhile_le)

definition split_whitespace :: "(string \<Rightarrow> bool) \<Rightarrow> string \<Rightarrow> string list" where
  "split_whitespace uw s = ws_words (is_whitespace uw) (rust_chars s)"

definition SJOIN_PREFIXES :: string where
  "SJOIN_PREFIXES = ''!~&@%+''"

definition sjoin_user :: "string \<Rightarrow> string \<times> string" where
  "sjoin_user u =
    (let prefixes = takeWhile (\<lambda>c. c \<in> set SJOIN_PREFIXES) u;
         uid_start = (if length prefixes = length u then 0 else length prefixes)
     in (prefixes, drop uid_start u))"

definition parse_or_zero :: "nat \<Rightarrow> string \<Rightarrow> nat" where
  "parse_or_zero mx s = (case parse_uint mx s of None \<Rightarrow> 0 | Some n \<Rightarrow> n)"

definition U64_MAX :: nat where
  "U64_MAX = 2 ^ 64 - 1"

definition U32_LIMIT :: nat where
  "U32_LIMIT = 2 ^ 32 - 1"

definition server_parse :: "(string \<Rightarrow> bool) \<Rightarrow> string \<Rightarrow> string list \<Rightarrow> command_error + irc_command" where
  "server_parse uw cmd args =
    (if cmd = ''MOTD'' then Inr (opt1 (\<lambda>t. Query (MOTD t)) cmd args)
     else if cmd = ''LUSERS'' then Inr (opt2 (\<lambda>a b. Query (LUSERS a b)) cmd args)
     else if cmd = ''VERSION'' then Inr (opt1 (\<lambda>t. Query (VERSION t)) cmd args)
     else if cmd = ''STATS'' then Inr (opt2 (\<lambda>a b. Query (STATS a b)) cmd args)
     else if cmd = ''LINKS'' then Inr (opt2 (\<lambda>a b. Query (LINKS a b)) cmd args)
     else if cmd = ''TIME'' then Inr (opt1 (\<lambda>t. Query (TIME t)) cmd args)
     else if cmd = ''CONNECT'' then Inr (args2 (\<lambda>t p. Query (CONNECT t p None)) cmd args)
     else if cmd = ''TRACE'' then Inr (opt1 (\<lambda>t. Query (TRACE t)) cmd args)
     else if cmd = ''ADMIN'' then Inr (opt1 (\<lambda>t. Query (ADMIN t)) cmd args)
     else if cmd = ''INFO'' then Inr (opt1 (\<lambda>t. Query (INFO t)) cmd args)
     else if cmd = ''SID'' then 
       Inr (case args of [name, hop, sid, desc] \<Rightarrow> S2s (SID name hop sid desc) | _ \<Rightarrow> raw cmd args)
     else if cmd = ''UID'' then 
       Inr (case args of
              [nick, hop, ts, user, host, uid, modes, real] \<Rightarrow> S2s (UID nick hop ts user host uid modes real)
            | _ \<Rightarrow> raw cmd args)
     else if cmd = ''MAP'' then Inr (args0 (Query MAP) cmd args)
     else if cmd = ''RULES'' then Inr (args0 (Query RULES) cmd args)
     else if cmd = ''USERIP'' then Inr (Query (USERIP args))
     else if cmd = ''HELP'' then 
       Inr (case args of [] \<Rightarrow> Query (HELP None) | a # _ \<Rightarrow> Query (HELP (Some a)))
     else if cmd = ''METADATA'' then 
       Inr (case args of
              a # target # params \<Rightarrow>
                (case metadata_from_str a of
                   Some sub \<Rightarrow> Query (METADATA sub target params)
                 | None \<Rightarrow> raw cmd args)
            | _ \<Rightarrow> raw cmd args)
     else if cmd = ''SERVLIST'' then Inr (opt2 (\<lambda>a b. UserQuery (SERVLIST a b)) cmd args)
     else if cmd = ''SQUERY'' then Inr (args2 (\<lambda>s t. UserQuery (SQUERY s t)) cmd args)
     else if cmd = ''SJOIN'' then 
       Inr (case args of
              ts # channel # modes # r # rest \<Rightarrow>
                S2s (SJOIN (of_nat (parse_or_zero U64_MAX ts)) channel modes (butlast (r # rest))
                  (map sjoin_user (split_whitespace uw (last (r # rest)))))
            | _ \<Rightarrow> raw cmd args)
     else if cmd = ''TMODE'' then 
       Inr (case args of
              ts # channel # modes # mode_args \<Rightarrow>
                S2s (TMODE (of_nat (parse_or_zero U64_MAX ts)) channel modes mode_args)
            | _ \<Rightarrow> raw cmd args)
     else if cmd = ''ENCAP'' then 
       Inr (case args of
              target # subcommand # params \<Rightarrow> S2s (ENCAP target subcommand params)
            | _ \<Rightarrow> raw cmd args)
     else if cmd = ''SERVER'' then 
       Inr (case args of
              [n, h, t, i] \<Rightarrow> Link (SERVER n (of_nat (parse_or_zero U32_LIMIT h)) t i)
            | _ \<Rightarrow> raw cmd args)
     else if cmd = ''CAPAB'' then Inr (Link (CAPAB args))
     else if cmd = ''SVINFO'' then 
       Inr (case args of
              v # m # z # t # _ \<Rightarrow>
                Link (SVINFO (of_nat (parse_or_zero U32_LIMIT v)) (of_nat (parse_or_zero U32_LIMIT m))
                  (of_nat (parse_or_zero U32_LIMIT z)) (of_nat (parse_or_zero U64_MAX t)))
            | _ \<Rightarrow> raw cmd args)
     else if cmd = ''EOB'' then Inr (S2s EOB)
     else if cmd = ''TB'' then 
       Inr (case args of
              [channel, ts, topic] \<Rightarrow> S2s (TB channel (of_nat (parse_or_zero U64_MAX ts)) None topic)
            | channel # ts # nick # topic # _ \<Rightarrow>
                S2s (TB channel (of_nat (parse_or_zero U64_MAX ts)) (Some nick) topic)
            | _ \<Rightarrow> raw cmd args)
     else Inl Unreachable)"

definition user_parse :: "string \<Rightarrow> string list \<Rightarrow> command_error + irc_command" where
  "user_parse cmd args =
    (if cmd = ''WHO'' then Inr (opt2 (\<lambda>a b. UserQuery (WHO a b)) cmd args)
     else if cmd = ''WHOIS'' then Inr (opt1_args1 (\<lambda>t m. UserQuery (WHOIS t m)) cmd args)
     else if cmd = ''WHOWAS'' then 
       Inr (case args of
              [n] \<Rightarrow> UserQuery (WHOWAS n None None)
            | [n, t] \<Rightarrow> UserQuery (WHOWAS n None (Some t))
            | [n, c, t] \<Rightarrow> UserQuery (WHOWAS n (Some c) (Some t))
            | _ \<Rightarrow> raw cmd args)
     else Inl Unreachable)"

definition messaging_parse :: "string \<Rightarrow> string list \<Rightarrow> command_error + irc_command" where
  "messaging_parse cmd args =
    (if cmd = ''PRIVMSG'' then Inr (args2 (\<lambda>t m. Messaging (PRIVMSG t m)) cmd args)
     else if cmd = ''NOTICE'' then Inr (args2 (\<lambda>t m. Messaging (NOTICE t m)) cmd args)
     else if cmd = ''ACCEPT'' then Inr (args1 (\<lambda>n. Messaging (ACCEPT n)) cmd args)
     else if cmd = ''KILL'' then Inr (args2 (\<lambda>n c. UserQuery (KILL n c)) cmd args)
     else if cmd = ''PING'' then Inr (args1_opt1 (\<lambda>s t. UserQuery (PING s t)) cmd args)
     else if cmd = ''PONG'' then Inr (args1_opt1 (\<lambda>s t. UserQuery (PONG s t)) cmd args)
     else if cmd = ''ERROR'' then Inr (args1 (\<lambda>m. UserQuery (ERROR m)) cmd args)
     else if cmd = ''AWAY'' then Inr (opt1 (\<lambda>m. Optional (AWAY m)) cmd args)
     else if cmd = ''REHASH'' then Inr (args0 (Optional REHASH) cmd args)
     else if cmd = ''DIE'' then Inr (args0 (Optional DIE) cmd args)
     else if cmd = ''RESTART'' then Inr (args0 (Optional RESTART) cmd args)
     else if cmd = ''SUMMON'' then Inr (args1_opt2 (\<lambda>u t c. Optional (SUMMON u t c)) cmd args)
     else if cmd = ''USERS'' then Inr (args1 (\<lambda>t. Optional (USERS (Some t))) cmd args)
     else if cmd = ''WALLOPS'' then Inr (args1 (\<lambda>t. Optional (WALLOPS t)) cmd args)
     else if cmd = ''GLOBOPS'' then Inr (args1 (\<lambda>t. Optional (GLOBOPS t)) cmd args)
     else if cmd = ''USERHOST'' then Inr (Optional (USERHOST args))
     else if cmd = ''ISON'' then Inr (Optional (ISON args))
     else if cmd = ''SAJOIN'' then Inr (args2 (\<lambda>n c. Services (SAJOIN n c)) cmd args)
     else if cmd = ''SAMODE'' then Inr (args2_opt1 (\<lambda>t m p. Services (SAMODE t m p)) cmd args)
     else if cmd = ''SANICK'' then Inr (args2 (\<lambda>a b. Services (SANICK a b)) cmd args)
     else if cmd = ''SAPART'' then Inr (args2 (\<lambda>a b. Services (SAPART a b)) cmd args)
     else if cmd = ''SAQUIT'' then Inr (args2 (\<lambda>a b. Services (SAQUIT a b)) cmd args)
     else if cmd = ''KLINE'' then Inr (opt1_args2 (\<lambda>t m r. Ban (KLINE t m r)) cmd args)
     else if cmd = ''DLINE'' then Inr (opt1_args2 (\<lambda>t m r. Ban (DLINE t m r)) cmd args)
     else if cmd = ''UNKLINE'' then Inr (args1 (\<lambda>m. Ban (UNKLINE m)) cmd args)
     else if cmd = ''UNDLINE'' then Inr (args1 (\<lambda>m. Ban (UNDLINE m)) cmd args)
     else if cmd = ''KNOCK'' then Inr (args1_opt1 (\<lambda>c m. Ban (KNOCK c m)) cmd args)
     else if cmd = ''GLINE'' then Inr (args1_opt1 (\<lambda>m r. Ban (GLINE m r)) cmd args)
     else if cmd = ''UNGLINE'' then Inr (args1 (\<lambda>m. Ban (UNGLINE m)) cmd args)
     else if cmd = ''ZLINE'' then Inr (args1_opt1 (\<lambda>m r. Ban (ZLINE m r)) cmd args)
     else if cmd = ''UNZLINE'' then Inr (args1 (\<lambda>m. Ban (UNZLINE m)) cmd args)
     else if cmd = ''RLINE'' then Inr (args1_opt1 (\<lambda>m r. Ban (RLINE m r)) cmd args)
     else if cmd = ''UNRLINE'' then Inr (args1 (\<lambda>m. Ban (UNRLINE m)) cmd args)
     else if cmd = ''SHUN'' then Inr (args1_opt1 (\<lambda>m r. Ban (SHUN m r)) cmd args)
     else if cmd = ''UNSHUN'' then Inr (args1 (\<lambda>m. Ban (UNSHUN m)) cmd args)
     else if cmd = ''NICKSERV'' then Inr (Services (NICKSERV args))
     else if cmd = ''CHANSERV'' then Inr (Services (CHANSERV args))
     else if cmd = ''OPERSERV'' then Inr (Services (OPERSERV args))
     else if cmd = ''BOTSERV'' then Inr (Services (BOTSERV args))
     else if cmd = ''HOSTSERV'' then Inr (Services (HOSTSERV args))
     else if cmd = ''MEMOSERV'' then Inr (Services (MEMOSERV args))
     else if cmd = ''NS'' then Inr (Services (NS args))
     else if cmd = ''CS'' then Inr (Services (CS args))
     else if cmd = ''OS'' then Inr (Services (OS args))
     else if cmd = ''BS'' then Inr (Services (BS args))
     else if cmd = ''HS'' then Inr (Services (HS args))
     else if cmd = ''MS'' then Inr (Services (MS args))
     else if cmd = ''NPC'' then Inr (args3 (\<lambda>c n t. Ircv3 (NPC c n t)) cmd args)
     else if cmd = ''RELAYMSG'' then Inr (args3 (\<lambda>target relay_from t. Ircv3 (RELAYMSG relay_from target t)) cmd args)
     else Inl Unreachable)"

text \<open>The branches of \<open>CHATHISTORY\<close> after its subcommand.\<close>

definition chathistory_limit :: "string \<Rightarrow> 32 word" where
  "chathistory_limit s = (case parse_uint U32_LIMIT s of None \<Rightarrow> 50 | Some n \<Rightarrow> of_nat n)"

definition chathistory_parse :: "string \<Rightarrow> chathistory_subcommand \<Rightarrow> string list \<Rightarrow> irc_command" where
  "chathistory_parse cmd subcommand args =
    (case subcommand of
       HistTARGETS \<Rightarrow>
         (case args of
            _ # r1 # r2 # l # _ \<Rightarrow>
              Ircv3 (CHATHISTORY subcommand []
                (case reference_parse r1 of Some r \<Rightarrow> r | None \<Rightarrow> RefTimestamp r1)
                (reference_parse r2) (chathistory_limit l))
          | _ \<Rightarrow> raw cmd args)
     | HistBETWEEN \<Rightarrow>
         (case args of
            _ # target # r1 # r2 # l # _ \<Rightarrow>
              (case reference_parse r1 of
                 Some r \<Rightarrow> Ircv3 (CHATHISTORY subcommand target r (reference_parse r2) (chathistory_limit l))
               | None \<Rightarrow> raw cmd args)
          | _ \<Rightarrow> raw cmd args)
     | _ \<Rightarrow>
         (case args of
            _ # target # r1 # l # _ \<Rightarrow>
              (case reference_parse r1 of
                 Some r \<Rightarrow> Ircv3 (CHATHISTORY subcommand target r None (chathistory_limit l))
               | None \<Rightarrow> raw cmd args)
          | _ \<Rightarrow> raw cmd args))"

definition ircv3_parse :: "string \<Rightarrow> string list \<Rightarrow> command_error + irc_command" where
  "ircv3_parse cmd args =
    (if cmd = ''CAP'' then 
       Inr (case args of
              [s] \<Rightarrow> (case cap_from_str s of Some c \<Rightarrow> Ircv3 (CAP None c None None) | None \<Rightarrow> raw cmd args)
            | [s, x] \<Rightarrow>
                (case cap_from_str s of Some c \<Rightarrow> Ircv3 (CAP None c (Some x) None) | None \<Rightarrow> raw cmd args)
            | [k, s, x] \<Rightarrow>
                (case cap_from_str s of Some c \<Rightarrow> Ircv3 (CAP (Some k) c (Some x) None) | None \<Rightarrow> raw cmd args)
            | [k, s, x, p] \<Rightarrow>
                (case cap_from_str s of Some c \<Rightarrow> Ircv3 (CAP (Some k) c (Some x) (Some p)) | None \<Rightarrow> raw cmd args)
            | _ \<Rightarrow> raw cmd args)
     else if cmd = ''AUTHENTICATE'' then Inr (args1 (\<lambda>d. Ircv3 (AUTHENTICATE d)) cmd args)
     else if cmd = ''ACCOUNT'' then Inr (args1 (\<lambda>a. Ircv3 (ACCOUNT a)) cmd args)
     else if cmd = ''MONITOR'' then Inr (args1_opt1 (\<lambda>c t. Ircv3 (MONITOR c t)) cmd args)
     else if cmd = ''BATCH'' then 
       Inr (case args of
              [t] \<Rightarrow> Ircv3 (BATCH t None None)
            | [t, s] \<Rightarrow> Ircv3 (BATCH t (Some (batch_from_str s)) None)
            | t # s # a # as \<Rightarrow> Ircv3 (BATCH t (Some (batch_from_str s)) (Some (a # as)))
            | _ \<Rightarrow> raw cmd args)
     else if cmd = ''CHGHOST'' then Inr (args2 (\<lambda>u h. Ircv3 (CHGHOST u h)) cmd args)
     else if cmd = ''CHGIDENT'' then Inr (args2 (\<lambda>u h. Ircv3 (CHGIDENT u h)) cmd args)
     else if cmd = ''SETNAME'' then Inr (args1 (\<lambda>r. Ircv3 (SETNAME r)) cmd args)
     else if cmd = ''TAGMSG'' then Inr (args1 (\<lambda>r. Ircv3 (TAGMSG r)) cmd args)
     else if cmd = ''ACK'' then Inr (Ircv3 ACK)
     else if cmd = ''WEBIRC'' then 
       Inr (case args of
              [pass, gateway, host, ip] \<Rightarrow> Ircv3 (WEBIRC pass gateway host ip None)
            | pass # gateway # host # ip # opts # _ \<Rightarrow> Ircv3 (WEBIRC pass gateway host ip (Some opts))
            | _ \<Rightarrow> raw cmd args)
     else if cmd = ''CHATHISTORY'' then 
       Inr (if length args < 3 then raw cmd args
            else case chathistory_from_str (args ! 0) of
                   Some subcommand \<Rightarrow> chathistory_parse cmd subcommand args
                 | None \<Rightarrow> raw cmd args)
     else Inr (raw cmd args))"

definition parse_mode_command :: "string \<Rightarrow> string list \<Rightarrow> command_error + irc_command" where
  "parse_mode_command original_cmd args =
    (case args of
       [] \<Rightarrow> Inr (raw original_cmd args)
     | target # mode_args \<Rightarrow>
         if is_channel_name target then
           (case as_channel_modes mode_args of
              Inl e \<Rightarrow> Inl (ModeError e)
            | Inr modes \<Rightarrow> Inr (Channel (ChannelMODE target modes)))
         else
           (case as_user_modes mode_args of
              Inl e \<Rightarrow> Inl (ModeError e)
            | Inr modes \<Rightarrow> Inr (Registration (UserMODE target modes))))"

text \<open>The names each arm of \<open>Command::new\<close> lists.\<close>

definition connection_names :: "string list" where
  "connection_names =
    [''PASS'', ''NICK'', ''USER'', ''OPER'', ''SERVICE'', ''QUIT'', ''SQUIT'']"

definition channel_names :: "string list" where
  "channel_names =
    [''JOIN'', ''PART'', ''TOPIC'', ''NAMES'', ''LIST'', ''INVITE'', ''KICK'']"

definition server_names :: "string list" where
  "server_names =
    [''MOTD'', ''LUSERS'', ''VERSION'', ''STATS'', ''LINKS'', ''TIME'', ''CONNECT'',
     ''TRACE'', ''ADMIN'', ''INFO'', ''MAP'', ''RULES'', ''USERIP'', ''HELP'', ''METADATA'',
     ''SERVLIST'', ''SQUERY'', ''SERVER'', ''SID'', ''UID'', ''SJOIN'', ''TMODE'', ''ENCAP'',
     ''CAPAB'', ''SVINFO'', ''EOB'', ''TB'']"

definition user_names :: "string list" where
  "user_names =
    [''WHO'', ''WHOIS'', ''WHOWAS'']"

definition messaging_names :: "string list" where
  "messaging_names =
    [''PRIVMSG'', ''NOTICE'', ''PING'', ''PONG'', ''ERROR'', ''AWAY'', ''REHASH'', ''DIE'',
     ''RESTART'', ''SUMMON'', ''USERS'', ''WALLOPS'', ''GLOBOPS'', ''USERHOST'', ''ISON'',
     ''KILL'', ''SAJOIN'', ''SAMODE'', ''SANICK'', ''SAPART'', ''SAQUIT'', ''NICKSERV'',
     ''CHANSERV'', ''OPERSERV'', ''BOTSERV'', ''HOSTSERV'', ''MEMOSERV'', ''NS'', ''CS'',
     ''OS'', ''BS'', ''HS'', ''MS'', ''KLINE'', ''DLINE'', ''UNKLINE'', ''UNDLINE'', ''GLINE'',
     ''UNGLINE'', ''ZLINE'', ''UNZLINE'', ''RLINE'', ''UNRLINE'', ''SHUN'', ''UNSHUN'',
     ''KNOCK'', ''ACCEPT'', ''NPC'', ''RELAYMSG'']"

definition ircv3_names :: "string list" where
  "ircv3_names =
    [''CAP'', ''AUTHENTICATE'', ''ACCOUNT'', ''BATCH'', ''CHGHOST'', ''CHGIDENT'',
     ''SETNAME'', ''MONITOR'', ''TAGMSG'', ''WEBIRC'', ''CHATHISTORY'', ''ACK'']"

definition command_new ::
  "(string \<Rightarrow> bool) \<Rightarrow> string \<Rightarrow> string list \<Rightarrow> command_error + irc_command" where
  "command_new uw cmd args =
    (let cmd_str = to_ascii_uppercase cmd in
     if cmd_str \<in> set connection_names then connection_parse cmd_str args
     else if cmd_str \<in> set channel_names then channel_parse cmd_str args
     else if cmd_str \<in> set server_names then server_parse uw cmd_str args
     else if cmd_str \<in> set user_names then user_parse cmd_str args
     else if cmd_str \<in> set messaging_names then messaging_parse cmd_str args
     else if cmd_str \<in> set ircv3_names then ircv3_parse cmd_str args
     else if cmd_str = ''MODE'' then parse_mode_command cmd args
     else case response_from_str cmd of
            Some resp \<Rightarrow> Inr (Reply (Response (of_nat resp) args))
          | None \<Rightarrow> Inr (raw cmd args))"

section \<open>The numerics that do not read back\<close>

text \<open>Five variants of \<open>Response\<close> have no entry in the tables of \<open>from_code\<close>.\<close>

lemma response_codes_unknown:
  "list_all (\<lambda>r. r \<in> set response_variants \<and> from_code r = None) [410, 525, 696, 762, 764]"
  by (simp add: response_variants_def from_code_def from_success_code_def from_error_code_def
      success_codes_def error_codes_def)

end
