(* ===== verification/Mode_Roundtrip.thy ===== *)
theory Mode_Roundtrip
  imports Command_Parse
begin

text \<open>
  Mode changes read from arguments, printed with collapsed signs and read again.  \<open>Command_Roundtrip\<close>
  uses these facts for the two \<open>MODE\<close> commands.
\<close>

section \<open>The printed flags\<close>

fun mode_sign :: "'m mode \<Rightarrow> plus_minus" where
  "mode_sign (Plus _ _) = PmPlus"
| "mode_sign (Minus _ _) = PmMinus"
| "mode_sign (NoPrefix _) = PmNoPrefix"

fun sign_text :: "plus_minus \<Rightarrow> string list" where
  "sign_text PmPlus = [''+'']"
| "sign_text PmMinus = [''-'']"
| "sign_text PmNoPrefix = []"

text \<open>The characters \<open>write_collapsed_mode_flags\<close> writes after the sign \<open>p\<close>.\<close>

fun flag_groups :: "'m mode_type \<Rightarrow> plus_minus \<Rightarrow> 'm mode list \<Rightarrow> string list" where
  "flag_groups T p [] = []"
| "flag_groups T p (m # ms) =
    (if mode_sign m \<noteq> p then sign_text (mode_sign m) else [])
    @ letter T (mode_mode m) # flag_groups T (mode_sign m) ms"

definition flags_text :: "'m mode_type \<Rightarrow> 'm mode list \<Rightarrow> string" where
  "flags_text T ms = concat (flag_groups T PmNoPrefix ms)"

lemma puts_collapsed [simp]:
  "puts (write_collapsed_mode_flags T ms) = flags_text T ms" "checks (write_collapsed_mode_flags T ms) = []"
proof -
  have "puts (collapsed_loop T p ms) = concat (flag_groups T p ms) \<and> checks (collapsed_loop T p ms) = []" for p
  proof (induction ms arbitrary: p)
    case (Cons m ms)
    then show ?case by (cases m; cases p) (simp_all add: Let_def)
  qed simp
  then show "puts (write_collapsed_mode_flags T ms) = flags_text T ms" "checks (write_collapsed_mode_flags T ms) = []"
    by (simp_all add: write_collapsed_mode_flags_def flags_text_def)
qed

lemma flag_groups_bytes:
  "list_all (\<lambda>m. letter T (mode_mode m) \<in> G) ms \<Longrightarrow> set (flag_groups T p ms) \<subseteq> G \<union> {''+'', ''-''}"
proof (induction ms arbitrary: p)
  case (Cons m ms)
  have "set (sign_text (mode_sign m)) \<subseteq> {''+'', ''-''}" by (cases "mode_sign m") simp_all
  then show ?case using Cons by auto
qed simp

section \<open>Reading them again\<close>

text \<open>An unsigned change whose mode takes an argument loses it; every other list of changes the parser
  returns carries all its arguments, and its printed flags parse to the same list.\<close>

definition keeps_args :: "'m mode_type \<Rightarrow> 'm mode list \<Rightarrow> bool" where
  "keeps_args T ms \<longleftrightarrow> list_all (\<lambda>m. mode_sign m = PmNoPrefix \<longrightarrow> \<not> takes_arg T (mode_mode m)) ms"

lemma resolve_args:
  "resolve_mode_arg T m c args = Inr (arg, rest) \<Longrightarrow>
    args = (case arg of None \<Rightarrow> rest | Some x \<Rightarrow> x # rest) \<and> (takes_arg T m \<or> arg = None)"
  by (auto simp: resolve_mode_arg_def split: if_splits list.splits)

lemma parse_again_step:
  assumes "c \<noteq> ''+''" "c \<noteq> ''-''" "resolve_mode_arg T (from_char T c) c args = Inr (arg, rest)"
    and "letter T (from_char T c) = c" "cur = PmNoPrefix \<longrightarrow> p = PmNoPrefix"
    and s: "s = (case cur of PmPlus \<Rightarrow> Plus (from_char T c) arg | PmMinus \<Rightarrow> Minus (from_char T c) arg
      | PmNoPrefix \<Rightarrow> NoPrefix (from_char T c))"
  shows "parse_modes_loop T (flag_groups T p (s # ms)) p args res =
    parse_modes_loop T (flag_groups T cur ms) cur rest (res @ [s])"
proof -
  have m: "mode_sign s = cur" "mode_mode s = from_char T c" unfolding s by (cases cur; simp)+
  have "parse_modes_loop T (c # cs) cur args res = parse_modes_loop T cs cur rest (res @ [s])" for cs
    using assms(1-3) by (simp add: s)
  moreover have "parse_modes_loop T (sign_text cur @ cs) p args res = parse_modes_loop T cs cur args res"
    if "cur \<noteq> p" for cs
    using that assms(5) by (cases cur) simp_all
  ultimately show ?thesis using assms(4) m by (cases "cur = p") (simp_all del: parse_modes_loop.simps)
qed

lemma parse_again:
  assumes "\<And>c. letter T (from_char T c) = c"
  shows "parse_modes_loop T cs cur args res = Inr out \<Longrightarrow> (cur = PmNoPrefix \<longrightarrow> p = PmNoPrefix) \<Longrightarrow>
    \<exists>ms. out = res @ ms \<and> list_all (\<lambda>m. letter T (mode_mode m) \<in> set cs) ms \<and>
      list_all (\<lambda>m. mode_arg m = None \<or> takes_arg T (mode_mode m)) ms \<and>
      (keeps_args T ms \<longrightarrow> List.map_filter mode_arg ms = args \<and>
        (\<forall>res'. parse_modes_loop T (flag_groups T p ms) p args res' = Inr (res' @ ms)))"
proof (induction cs arbitrary: cur args res p)
  case Nil
  then show ?case by (simp add: keeps_args_def List.map_filter_simps split: if_splits)
next
  case (Cons c cs)
  consider (plus) "c = ''+''" | (minus) "c = ''-''" | (mode) arg rest where "c \<noteq> ''+''" "c \<noteq> ''-''"
    "resolve_mode_arg T (from_char T c) c args = Inr (arg, rest)"
    using Cons.prems(1) by (cases "resolve_mode_arg T (from_char T c) c args") (auto split: if_splits)
  then show ?case
  proof cases
    case mode
    let ?s = "case cur of PmPlus \<Rightarrow> Plus (from_char T c) arg | PmMinus \<Rightarrow> Minus (from_char T c) arg
      | PmNoPrefix \<Rightarrow> NoPrefix (from_char T c)"
    have "parse_modes_loop T cs cur rest (res @ [?s]) = Inr out" using Cons.prems(1) mode by simp
    from Cons.IH [OF this, of cur] obtain ms where ms: "out = res @ ?s # ms"
      "list_all (\<lambda>m. letter T (mode_mode m) \<in> set cs) ms"
      "list_all (\<lambda>m. mode_arg m = None \<or> takes_arg T (mode_mode m)) ms"
      "keeps_args T ms \<longrightarrow> List.map_filter mode_arg ms = rest \<and>
        (\<forall>res'. parse_modes_loop T (flag_groups T cur ms) cur rest res' = Inr (res' @ ms))" by auto
    have m: "mode_sign ?s = cur" "mode_mode ?s = from_char T c" by (cases cur; simp)+
    have arg: "mode_arg ?s = (if cur = PmNoPrefix then None else arg)" by (cases cur) simp_all
    note r = resolve_args [OF mode(3)]
    have "List.map_filter mode_arg (?s # ms) = args" if "keeps_args T (?s # ms)"
    proof -
      have "cur = PmNoPrefix \<Longrightarrow> arg = None" using that r m by (simp add: keeps_args_def)
      then have "mode_arg ?s = arg" using arg by simp
      then show ?thesis using ms(4) that r by (cases arg) (simp_all add: List.map_filter_simps keeps_args_def)
    qed
    moreover have "parse_modes_loop T (flag_groups T p (?s # ms)) p args res' = Inr (res' @ ?s # ms)"
      if "keeps_args T (?s # ms)" for res'
      using parse_again_step [OF mode assms Cons.prems(2) refl, of ms res'] ms(4) that by (simp add: keeps_args_def)
    moreover have "letter T (mode_mode ?s) = c" "mode_arg ?s = None \<or> takes_arg T (mode_mode ?s)"
      using assms m arg r by auto
    ultimately show ?thesis using ms(1-3)
      by (intro exI [of _ "?s # ms"]) (auto simp: list_all_iff)
  next
    case plus
    then have "parse_modes_loop T cs PmPlus args res = Inr out" using Cons.prems(1) by simp
    from Cons.IH [OF this, of p] show ?thesis by (auto simp: list_all_iff)
  next
    case minus
    then have "parse_modes_loop T cs PmMinus args res = Inr out" using Cons.prems(1) by simp
    from Cons.IH [OF this, of p] show ?thesis by (auto simp: list_all_iff)
  qed
qed

lemma parse_modes_Cons:
  "parse_modes T (first # args) =
    (if first = [] then Inr [] else parse_modes_loop T (rust_chars first) PmNoPrefix args [])"
proof (cases "rust_chars first")
  case Nil
  then have "first = []" using concat_rust_chars [of first] by simp
  then show ?thesis by (simp add: parse_modes_def)
next
  case (Cons c cs)
  then have "first \<noteq> []" by auto
  then show ?thesis using Cons by (simp add: parse_modes_def)
qed

text \<open>The flags of a list of changes print as one argument: no blank, no colon in front, and every
  letter a character.\<close>

definition flags_printable :: "'m mode_type \<Rightarrow> 'm mode list \<Rightarrow> bool" where
  "flags_printable T ms \<longleftrightarrow> \<not> needs_colon_prefix (flags_text T ms) \<and>
    list_all (\<lambda>m. is_rust_char (letter T (mode_mode m))) ms \<and> keeps_args T ms"

lemma flag_groups_chars:
  "list_all (\<lambda>m. is_rust_char (letter T (mode_mode m))) ms \<Longrightarrow> list_all is_rust_char (flag_groups T p ms)"
proof (induction ms arbitrary: p)
  case (Cons m ms)
  have "list_all is_rust_char (sign_text (mode_sign m))" by (cases "mode_sign m") (simp_all add: sign_chars)
  then show ?case using Cons by simp
qed simp

lemma parse_printed:
  assumes letters: "\<And>c. letter T (from_char T c) = c"
    and parsed: "parse_modes T (first # args) = Inr ms" "ms \<noteq> []" and ok: "flags_printable T ms"
  shows "parse_modes T (flags_text T ms # args) = Inr ms" "List.map_filter mode_arg ms = args"
    "set (flags_text T ms) \<subseteq> set first \<union> {CHR ''+'', CHR ''-''}"
    "list_all (\<lambda>m. mode_arg m = None \<or> takes_arg T (mode_mode m)) ms"
proof -
  have first: "first \<noteq> []" "parse_modes_loop T (rust_chars first) PmNoPrefix args [] = Inr ms"
    using parsed by (auto simp: parse_modes_Cons split: if_splits)
  from parse_again [OF letters first(2), of PmNoPrefix]
  have again: "list_all (\<lambda>m. letter T (mode_mode m) \<in> set (rust_chars first)) ms"
    "list_all (\<lambda>m. mode_arg m = None \<or> takes_arg T (mode_mode m)) ms"
    "List.map_filter mode_arg ms = args"
    "parse_modes_loop T (flag_groups T PmNoPrefix ms) PmNoPrefix args [] = Inr ms"
    using ok by (auto simp: flags_printable_def)
  have "rust_chars (flags_text T ms) = flag_groups T PmNoPrefix ms"
    unfolding flags_text_def using ok by (intro rust_chars_concat flag_groups_chars) (simp add: flags_printable_def)
  moreover have "flags_text T ms \<noteq> []" using ok by (auto simp: flags_printable_def needs_colon_prefix_def)
  ultimately show "parse_modes T (flags_text T ms # args) = Inr ms" using again(4) by (simp add: parse_modes_Cons)
  show "List.map_filter mode_arg ms = args" by (rule again(3))
  show "list_all (\<lambda>m. mode_arg m = None \<or> takes_arg T (mode_mode m)) ms" by (rule again(2))
  have "set (flags_text T ms) \<subseteq> \<Union> (set ` (set (rust_chars first) \<union> {''+'', ''-''}))"
    using flag_groups_bytes [OF again(1), of PmNoPrefix] unfolding flags_text_def by auto
  also have "\<dots> = set (concat (rust_chars first)) \<union> {CHR ''+'', CHR ''-''}"
    unfolding set_concat by auto
  finally show "set (flags_text T ms) \<subseteq> set first \<union> {CHR ''+'', CHR ''-''}" by simp
qed

lemma letter_from_char:
  "letter user_mode_type (from_char user_mode_type c) = c" "letter proto_mode_type (from_char proto_mode_type c) = c"
  by (simp_all add: user_mode_type_def user_mode_from_char_def proto_mode_type_def proto_mode_from_char_def)

end
