(* ===== verification/Command_Roundtrip.thy ===== *)
theory Command_Roundtrip
  imports Mode_Roundtrip
begin

text \<open>
  A command read from a line, printed by \<open>Display\<close> and read again: the line, the name, the arguments
  and the command that come back, module by module of \<open>Command::new\<close>.
\<close>

section \<open>Printed lines that read back\<close>

definition prints :: "irc_command \<Rightarrow> string \<Rightarrow> string list \<Rightarrow> bool" where
  "prints c n as \<longleftrightarrow>
    (\<exists>tail. list_all param_clean (checks (display_ops c)) \<and> puts (display_ops c) = n @ tail
      \<and> (tail = [] \<or> hd tail = CHR '' '') \<and> param_clean tail \<and> parse_params tail = ([], as))"

text \<open>The command prints its name and those arguments, the last one with or without a colon.\<close>

definition via :: "irc_command \<Rightarrow> string \<Rightarrow> string list \<Rightarrow> bool" where
  "via c n as \<longleftrightarrow>
    (puts (display_ops c) = n @ raw_args as \<or> puts (display_ops c) = n @ freeform_args as)
    \<and> set (checks (display_ops c)) \<subseteq> set as"

lemma last_ok_clean: "last_ok a \<longleftrightarrow> param_clean a"
  by (auto simp: last_ok_def param_clean_def list_all_iff list_ex_iff)

lemma args_ok_clean: "args_ok as \<Longrightarrow> list_all param_clean as"
  using middle_last
  by (cases as rule: rev_cases) (auto simp: args_ok_def last_ok_clean list_all_iff)

lemma freeform_start: "freeform_args as = [] \<or> hd (freeform_args as) = CHR '' ''"
  by (cases as rule: rev_cases; cases "butlast as") (auto simp: freeform_args_def plain_args_def)

lemma parse_freeform:
  assumes "args_ok as"
  shows "parse_params (freeform_args as) = ([], as)"
proof (cases as rule: rev_cases)
  case Nil
  then show ?thesis by (simp add: freeform_args_def parse_params_def param_loop_end)
next
  case (snoc ms a)
  have "last_ok a" "length ms < 15" "list_all middle_ok ms" using assms by (auto simp: snoc args_ok_def)
  then show ?thesis
    using plain_args_middle [of ms "[]" "CHR '' '' # CHR '':'' # a"] param_loop_trailing [of a ms]
    by (simp add: snoc freeform_args_def parse_params_def)
qed

lemma via_prints:
  assumes "via c n as" "args_ok as"
  shows "prints c n as"
proof -
  have clean: "list_all param_clean as" by (rule args_ok_clean [OF assms(2)])
  then have "list_all param_clean (checks (display_ops c))"
    using assms(1) by (auto simp: via_def list_all_iff)
  then show ?thesis
    using assms(1) clean raw_args_start [of as] freeform_start [of as]
      parse_params_raw_args [OF assms(2)] parse_freeform [OF assms(2)]
    unfolding via_def prints_def by (metis clean_args(2) clean_freeform)
qed

lemma line_parses:
  assumes "prints c n as" "name_ok n"
  shows "\<exists>line. run_display (display_ops c) = Some line \<and>
    (\<forall>ua. message_ref_parse ua line =
      Inr \<lparr>mr_tags = None, mr_prefix = None, mr_command = \<lparr>cr_name = n, cr_args = as\<rparr>, mr_raw = line\<rparr>)"
proof -
  obtain tail where t: "list_all param_clean (checks (display_ops c))" "puts (display_ops c) = n @ tail"
    "tail = [] \<or> hd tail = CHR '' ''" "param_clean tail" "parse_params tail = ([], as)"
    using assms(1) by (auto simp: prints_def)
  have "tail = [] \<or> \<not> is_eol (last tail)"
    using t(4) by (cases tail rule: rev_cases) (auto simp: param_clean_def)
  then have "trim_end_eol (n @ tail) = n @ tail" "n @ tail \<noteq> []"
    using name_not_eol [OF assms(2)] name_start(1) [OF assms(2)]
    by (cases "tail = []"; simp add: trim_end_id)+
  moreover have "parse_message ua (n @ tail) =
      Inr ([], \<lparr>pm_tags = None, pm_prefix = None, pm_command = n, pm_params = as\<rparr>)" for ua
    using parse_message_front [OF assms(2) t(3), of None None ua] t(5) by simp
  ultimately show ?thesis
    using t(1,2) by (auto simp: run_display_eq message_ref_parse_def parsed_message_parse_def)
qed

section \<open>The argument shapes\<close>

lemma via_raw: "via (raw cmd args) cmd args"
  by (simp add: via_def raw_def)

lemma via_args0:
  assumes "via k cmd []"
  shows "via (args0 k cmd args) cmd args"
  using assms by (cases "(k, cmd, args)" rule: args0.cases) (simp_all add: via_raw)

lemma via_args1:
  assumes "\<And>a. via (k a) cmd [a]"
  shows "via (args1 k cmd args) cmd args"
  using assms by (cases "(k, cmd, args)" rule: args1.cases) (simp_all add: via_raw)

lemma via_args2:
  assumes "\<And>a b. via (k a b) cmd [a, b]"
  shows "via (args2 k cmd args) cmd args"
  using assms by (cases "(k, cmd, args)" rule: args2.cases) (simp_all add: via_raw)

lemma via_args3:
  assumes "\<And>a b c. via (k a b c) cmd [a, b, c]"
  shows "via (args3 k cmd args) cmd args"
  using assms by (cases "(k, cmd, args)" rule: args3.cases) (simp_all add: via_raw)

lemma via_opt1:
  assumes "via (k None) cmd []" "\<And>a. via (k (Some a)) cmd [a]"
  shows "via (opt1 k cmd args) cmd args"
  using assms by (cases "(k, cmd, args)" rule: opt1.cases) (simp_all add: via_raw)

lemma via_opt2:
  assumes "via (k None None) cmd []" "\<And>a. via (k (Some a) None) cmd [a]" "\<And>a b. via (k (Some a) (Some b)) cmd [a, b]"
  shows "via (opt2 k cmd args) cmd args"
  using assms by (cases "(k, cmd, args)" rule: opt2.cases) (simp_all add: via_raw)

lemma via_args1_opt1:
  assumes "\<And>a. via (k a None) cmd [a]" "\<And>a b. via (k a (Some b)) cmd [a, b]"
  shows "via (args1_opt1 k cmd args) cmd args"
  using assms by (cases "(k, cmd, args)" rule: args1_opt1.cases) (simp_all add: via_raw)

lemma via_args1_opt2:
  assumes "\<And>a. via (k a None None) cmd [a]" "\<And>a b. via (k a (Some b) None) cmd [a, b]" "\<And>a b c. via (k a (Some b) (Some c)) cmd [a, b, c]"
  shows "via (args1_opt2 k cmd args) cmd args"
  using assms by (cases "(k, cmd, args)" rule: args1_opt2.cases) (simp_all add: via_raw)

lemma via_args2_opt1:
  assumes "\<And>a b. via (k a b None) cmd [a, b]" "\<And>a b c. via (k a b (Some c)) cmd [a, b, c]"
  shows "via (args2_opt1 k cmd args) cmd args"
  using assms by (cases "(k, cmd, args)" rule: args2_opt1.cases) (simp_all add: via_raw)

lemma via_opt1_args1:
  assumes "\<And>a. via (k None a) cmd [a]" "\<And>a b. via (k (Some a) b) cmd [a, b]"
  shows "via (opt1_args1 k cmd args) cmd args"
  using assms by (cases "(k, cmd, args)" rule: opt1_args1.cases) (simp_all add: via_raw)

lemma via_opt1_args2:
  assumes "\<And>a b. via (k None a b) cmd [a, b]" "\<And>a b c. via (k (Some a) b c) cmd [a, b, c]"
  shows "via (opt1_args2 k cmd args) cmd args"
  using assms by (cases "(k, cmd, args)" rule: opt1_args2.cases) (simp_all add: via_raw)

lemmas via_shapes = via_args0 via_args1 via_args2 via_args3 via_opt1 via_opt2 via_args1_opt1 via_args1_opt2 via_args2_opt1 via_opt1_args1 via_opt1_args2

section \<open>The modules that keep their arguments\<close>

definition result_via :: "command_error + irc_command \<Rightarrow> string \<Rightarrow> string list \<Rightarrow> bool" where
  "result_via r n as \<longleftrightarrow> (\<forall>c. r = Inr c \<longrightarrow> via c n as)"

lemma result_via_if:
  "(b \<Longrightarrow> result_via x n as) \<Longrightarrow> (\<not> b \<Longrightarrow> result_via y n as) \<Longrightarrow> result_via (if b then x else y) n as"
  by simp

lemma result_via_values: "via c n as \<Longrightarrow> result_via (Inr c) n as" "result_via (Inl e) n as"
  by (simp_all add: result_via_def)

lemmas result_via_intros = result_via_if result_via_values via_shapes

lemma via_channel: "result_via (channel_parse cmd args) cmd args"
  unfolding channel_parse_def by (intro result_via_intros; simp add: via_def)

lemma via_messaging: "result_via (messaging_parse cmd args) cmd args"
  unfolding messaging_parse_def by (intro result_via_intros; simp add: via_def)

lemma via_user: "result_via (user_parse cmd args) cmd args"
  unfolding user_parse_def
  by (intro result_via_intros; simp add: via_def raw_def split: list.split)

section \<open>The modules that rewrite their arguments\<close>

text \<open>The commands whose printed form is read back: no mode change that prints without an argument it
  was read with (an unsigned one, or the user mode \<open>s\<close>), no target or flags that would need a colon, not
  \<open>LINKS\<close> with only its first field, no unquoted last argument that needs a colon, no entry of \<open>SJOIN\<close>
  made of prefix characters only, and no \<open>CHATHISTORY\<close> range without its second end.\<close>

fun reprintable :: "irc_command \<Rightarrow> bool" where
  "reprintable (Registration (UserMODE u modes)) =
    (if modes = [] then \<not> needs_colon_prefix u
     else flags_printable user_mode_type modes \<and> list_all (\<lambda>m. \<not> takes_arg user_mode_type (mode_mode m)) modes)"
| "reprintable (Channel (ChannelMODE c modes)) =
    (if modes = [] then \<not> needs_colon_prefix c else flags_printable proto_mode_type modes)"
| "reprintable (Query (LINKS (Some r) None)) = False"
| "reprintable (Query (USERIP u)) = plain_last u"
| "reprintable (Query (METADATA sub target params)) = plain_last (target # params)"
| "reprintable (S2s (SJOIN ts channel modes args users)) =
    list_all (\<lambda>(p, u). u \<noteq> [] \<longrightarrow> hd u \<notin> set SJOIN_PREFIXES) users"
| "reprintable (S2s (TMODE ts channel modes args)) = plain_last (modes # args)"
| "reprintable (S2s (ENCAP target sub params)) = (params = [] \<longrightarrow> \<not> needs_colon_prefix sub)"
| "reprintable (Ircv3 (CHATHISTORY sub target r1 r2 limit)) =
    (sub = HistTARGETS \<or> sub = HistBETWEEN \<longrightarrow> r2 \<noteq> None)"
| "reprintable _ = True"

definition reads_back ::
  "(string list \<Rightarrow> command_error + irc_command) \<Rightarrow> string \<Rightarrow> string list \<Rightarrow> bool" where
  "reads_back p n args \<longleftrightarrow>
    (\<forall>c. p args = Inr c \<longrightarrow> reprintable c \<longrightarrow> (\<exists>as. via c n as \<and> args_ok as \<and> p as = Inr c))"

lemma reads_back_via: "result_via (p args) n args \<Longrightarrow> args_ok args \<Longrightarrow> reads_back p n args"
  by (auto simp: result_via_def reads_back_def)

lemma reads_back_raw: "p args = Inr (raw n args) \<Longrightarrow> args_ok args \<Longrightarrow> reads_back p n args"
  by (rule reads_back_via) (simp_all add: result_via_def via_raw)

lemma reads_backI:
  "p args = Inr c \<Longrightarrow> (reprintable c \<Longrightarrow> via c n as \<and> args_ok as \<and> p as = Inr c) \<Longrightarrow> reads_back p n args"
  by (auto simp: reads_back_def)

lemma args_ok_single [simp]: "args_ok [a] \<longleftrightarrow> last_ok a" "args_ok []"
  by (simp_all add: args_ok_def)

lemma args_ok_Cons2 [simp]:
  "args_ok (a # b # r) \<longleftrightarrow> middle_ok a \<and> args_ok (b # r) \<and> length r \<le> 13"
  by (auto simp: args_ok_def)

lemma args_ok_first: "args_ok (a # r) \<Longrightarrow> last_ok a"
  using middle_last by (cases r) auto

lemma args_ok_rest: "args_ok (a # r) \<Longrightarrow> args_ok r"
  by (cases r) auto

lemma digits_middle: "list_all is_ascii_digit s \<Longrightarrow> s \<noteq> [] \<Longrightarrow> middle_ok s"
  using clean_digits [of s] unfolding last_ok_clean [symmetric]
  by (cases s) (auto simp: middle_ok_def last_ok_def list_all_iff is_ascii_digit_def byte_of_def)

lemma show_middle [simp]: "middle_ok (show_nat n)"
  by (rule digits_middle [OF show_nat_digits show_nat_nonempty])

lemma upper_byte:
  "\<not> is_eol (if 97 \<le> byte_of c \<and> byte_of c \<le> 122 then char_of (byte_of c - 32) else c) \<longleftrightarrow> \<not> is_eol c"
  "(if 97 \<le> byte_of c \<and> byte_of c \<le> 122 then char_of (byte_of c - 32) else c) = CHR '' '' \<longleftrightarrow> c = CHR '' ''"
  "(if 97 \<le> byte_of c \<and> byte_of c \<le> 122 then char_of (byte_of c - 32) else c) = CHR '':'' \<longleftrightarrow> c = CHR '':''"
proof -
  have b: "(if 97 \<le> byte_of c \<and> byte_of c \<le> 122 then char_of (byte_of c - 32) else c) = d \<longleftrightarrow> c = d"
    if "byte_of d < 65" for d
  proof (cases "97 \<le> byte_of c \<and> byte_of c \<le> 122")
    case True
    then have "byte_of (char_of (byte_of c - 32)) = byte_of c - 32" by (intro byte_of_char_of) auto
    then show ?thesis using True that by auto
  qed auto
  show "\<not> is_eol (if 97 \<le> byte_of c \<and> byte_of c \<le> 122 then char_of (byte_of c - 32) else c) \<longleftrightarrow> \<not> is_eol c"
    using b [of "CHR 0x0D"] b [of "CHR 0x0A"] unfolding is_eol_def by (simp add: byte_of_def)
  show "(if 97 \<le> byte_of c \<and> byte_of c \<le> 122 then char_of (byte_of c - 32) else c) = CHR '' '' \<longleftrightarrow> c = CHR '' ''"
    "(if 97 \<le> byte_of c \<and> byte_of c \<le> 122 then char_of (byte_of c - 32) else c) = CHR '':'' \<longleftrightarrow> c = CHR '':''"
    using b [of "CHR '' ''"] b [of "CHR '':''"] by (simp_all add: byte_of_def)
qed

lemma upper_ok: "last_ok (to_ascii_uppercase a) \<longleftrightarrow> last_ok a" "middle_ok (to_ascii_uppercase a) \<longleftrightarrow> middle_ok a"
proof -
  show "last_ok (to_ascii_uppercase a) \<longleftrightarrow> last_ok a"
    unfolding last_ok_def to_ascii_uppercase_def list.pred_map comp_def upper_byte ..
  show "middle_ok (to_ascii_uppercase a) \<longleftrightarrow> middle_ok a"
    unfolding middle_ok_def to_ascii_uppercase_def list.pred_map comp_def upper_byte
    using upper_byte(3) [of "hd a"] by (cases a) (auto simp: upper_byte)
qed

lemma upper_idem [simp]: "to_ascii_uppercase (to_ascii_uppercase s) = to_ascii_uppercase s"
  by (auto simp: to_ascii_uppercase_def)

lemma parse_show_word:
  "parse_or_zero U64_MAX (show_nat (unat (w :: 64 word))) = unat w"
  "parse_or_zero U32_LIMIT (show_nat (unat (v :: 32 word))) = unat v"
  "chathistory_limit (show_nat (unat v)) = v"
proof -
  have "unat w < 2 ^ LENGTH(64)" "unat v < 2 ^ LENGTH(32)" by (rule unsigned_less)+
  then have "parse_uint U64_MAX (show_nat (unat w)) = Some (unat w)"
    "parse_uint U32_LIMIT (show_nat (unat v)) = Some (unat v)"
    by (intro parse_show; simp add: U64_MAX_def U32_LIMIT_def)+
  then show "parse_or_zero U64_MAX (show_nat (unat w)) = unat w"
    "parse_or_zero U32_LIMIT (show_nat (unat v)) = unat v" "chathistory_limit (show_nat (unat v)) = v"
    by (simp_all add: parse_or_zero_def chathistory_limit_def)
qed

lemma cap_middle [simp]: "middle_ok (cap_as_str s)"
  by (cases s) (simp_all add: middle_ok_def is_eol_def)

lemma cap_str_parse [simp]: "cap_from_str (cap_as_str s) = Some s"
  by (cases s; hypsubst; code_simp)

lemma metadata_middle [simp]: "middle_ok (metadata_as_str s)"
  by (cases s) (simp_all add: middle_ok_def is_eol_def)

lemma metadata_str_parse [simp]: "metadata_from_str (metadata_as_str s) = Some s"
  by (cases s; hypsubst; code_simp)

lemma chathistory_middle [simp]: "middle_ok (chathistory_as_str s)"
  by (cases s) (simp_all add: middle_ok_def is_eol_def)

lemma chathistory_str_parse [simp]: "chathistory_from_str (chathistory_as_str s) = Some s"
  by (cases s; hypsubst; code_simp)

lemma batch_parse [simp]: "batch_from_str (batch_as_str (batch_from_str s)) = batch_from_str s"
proof -
  have "to_ascii_uppercase ''NETSPLIT'' = ''NETSPLIT''" "to_ascii_uppercase ''NETJOIN'' = ''NETJOIN''"
    by code_simp+
  then show ?thesis by (simp add: batch_from_str_def Let_def)
qed

lemma batch_ok: "last_ok s \<Longrightarrow> last_ok (batch_as_str (batch_from_str s))"
  "middle_ok s \<Longrightarrow> middle_ok (batch_as_str (batch_from_str s))"
  by (simp_all add: batch_from_str_def Let_def upper_ok) (simp_all add: middle_ok_def last_ok_def is_eol_def)

lemma reference_parse_display [simp]: "reference_parse (reference_display r) = Some r"
  by (cases r) (simp_all add: reference_parse_def)

lemma reference_display_parse:
  assumes "reference_parse s = Some r"
  shows "reference_display r = s"
  using assms append_take_drop_id [of 10 s] append_take_drop_id [of 6 s]
  by (auto simp: reference_parse_def split: if_splits simp del: append_take_drop_id)

lemma via_connection:
  "cmd \<noteq> ''PASS'' \<Longrightarrow> cmd \<noteq> ''USER'' \<Longrightarrow> result_via (connection_parse cmd args) cmd args"
  unfolding connection_parse_def
  by (intro result_via_intros; simp add: via_def raw_def split: list.split)

lemma back_pass:
  assumes "args_ok args"
  shows "reads_back (connection_parse ''PASS'') ''PASS'' args"
proof (cases "\<exists>p t sid. args = [p, t, ''6'', sid] \<and> to_ascii_uppercase t = ''TS''")
  case True
  then obtain p t sid where a: "args = [p, t, ''6'', sid]" "to_ascii_uppercase t = ''TS''" by blast
  have ts: "to_ascii_uppercase ''TS'' = ''TS''" by code_simp
  show ?thesis
    using assms ts by (intro reads_backI [where c = "Registration (PassTs6 p sid)" and as = "[p, ''TS'', ''6'', sid]"])
      (auto simp: a connection_parse_def via_def middle_ok_def is_eol_def)
next
  case False
  then have "result_via (connection_parse ''PASS'' args) ''PASS'' args"
    by (auto simp: connection_parse_def result_via_def via_def raw_def split: list.splits if_splits)
  then show ?thesis by (rule reads_back_via [OF _ assms])
qed

lemma back_user:
  assumes "args_ok args"
  shows "reads_back (connection_parse ''USER'') ''USER'' args"
proof (cases "\<exists>u m x r. args = [u, m, x, r]")
  case True
  then obtain u m x r where a: "args = [u, m, x, r]" by blast
  show ?thesis
    using assms by (intro reads_backI [where c = "Registration (USER u m r)" and as = "[u, m, ''*'', r]"])
      (auto simp: a connection_parse_def via_def middle_ok_def is_eol_def)
next
  case False
  then show ?thesis
    by (intro reads_back_raw [OF _ assms]) (auto simp: connection_parse_def split: list.splits)
qed

lemma back_connection: "args_ok args \<Longrightarrow> reads_back (connection_parse cmd) cmd args"
  using back_pass back_user reads_back_via [where p = "connection_parse cmd", OF via_connection] by blast

lemma via_server:
  "cmd \<notin> {''HELP'', ''METADATA'', ''SJOIN'', ''TMODE'', ''SERVER'', ''SVINFO'', ''EOB'', ''TB'', ''LINKS'', ''USERIP'', ''ENCAP''} \<Longrightarrow>
    result_via (server_parse uw cmd args) cmd args"
  unfolding server_parse_def
  by (intro result_via_intros; simp add: via_def raw_def split: list.split)

lemma via_ircv3:
  "cmd \<notin> {''CAP'', ''BATCH'', ''ACK'', ''WEBIRC'', ''CHATHISTORY''} \<Longrightarrow> result_via (ircv3_parse cmd args) cmd args"
  unfolding ircv3_parse_def
  by (intro result_via_intros; simp add: via_def raw_def split: list.split)

lemma via_plain:
  "puts (display_ops c) = n @ plain_args as \<Longrightarrow> plain_last as \<Longrightarrow> set (checks (display_ops c)) \<subseteq> set as \<Longrightarrow> via c n as"
  using raw_args_plain [of as] by (simp add: via_def)

lemma plain_last_Cons [simp]: "plain_last (a # b # as) \<longleftrightarrow> plain_last (b # as)"
  by (simp add: plain_last_def)

lemma plain_args_Cons [simp]: "plain_args (a # as) = CHR '' '' # a @ plain_args as" "plain_args [] = []"
  by (simp_all add: plain_args_def)

lemma back_help:
  assumes "args_ok args"
  shows "reads_back (server_parse uw ''HELP'') ''HELP'' args"
proof (cases args)
  case Nil
  then show ?thesis
    by (intro reads_backI [where c = "Query (HELP None)" and as = "[]"]) (simp_all add: server_parse_def via_def)
next
  case (Cons a r)
  then show ?thesis using args_ok_first assms
    by (intro reads_backI [where c = "Query (HELP (Some a))" and as = "[a]"]) (auto simp: server_parse_def via_def)
qed

lemma back_metadata:
  assumes "args_ok args"
  shows "reads_back (server_parse uw ''METADATA'') ''METADATA'' args"
proof (cases "\<exists>a target params sub. args = a # target # params \<and> metadata_from_str a = Some sub")
  case True
  then obtain a target params sub where a: "args = a # target # params" "metadata_from_str a = Some sub" by blast
  show ?thesis using assms
    by (intro reads_backI [where c = "Query (METADATA sub target params)"
          and as = "metadata_as_str sub # target # params"])
      (auto simp: server_parse_def a intro!: via_plain)
next
  case False
  then show ?thesis
    by (intro reads_back_raw [OF _ assms]) (auto simp: server_parse_def split: list.splits option.splits)
qed

lemma back_tmode:
  assumes "args_ok args"
  shows "reads_back (server_parse uw ''TMODE'') ''TMODE'' args"
proof (cases "\<exists>ts ch modes margs. args = ts # ch # modes # margs")
  case True
  then obtain ts ch modes margs where a: "args = ts # ch # modes # margs" by blast
  let ?w = "of_nat (parse_or_zero U64_MAX ts) :: 64 word"
  show ?thesis using assms
    by (intro reads_backI [where c = "S2s (TMODE ?w ch modes margs)" and as = "show_nat (unat ?w) # ch # modes # margs"])
      (auto simp: server_parse_def a parse_show_word simp del: unat_of_nat intro!: via_plain)
next
  case False
  then show ?thesis
    by (intro reads_back_raw [OF _ assms]) (auto simp: server_parse_def split: list.splits)
qed

lemma back_encap:
  assumes "args_ok args"
  shows "reads_back (server_parse uw ''ENCAP'') ''ENCAP'' args"
proof (cases "\<exists>t sub ps. args = t # sub # ps")
  case True
  then obtain t sub ps where a: "args = t # sub # ps" by blast
  have "raw_args (t # sub # ps) = CHR '' '' # t @ CHR '' '' # sub @ raw_args ps"
    if "ps = [] \<longrightarrow> \<not> needs_colon_prefix sub" using that by (cases ps) auto
  then show ?thesis using assms
    by (intro reads_backI [where c = "S2s (ENCAP t sub ps)" and as = "t # sub # ps"])
      (auto simp: server_parse_def a via_def)
next
  case False
  then show ?thesis
    by (intro reads_back_raw [OF _ assms]) (auto simp: server_parse_def split: list.splits)
qed

lemma back_server:
  assumes "args_ok args"
  shows "reads_back (server_parse uw ''SERVER'') ''SERVER'' args"
proof (cases "\<exists>n h t i. args = [n, h, t, i]")
  case True
  then obtain n h t i where a: "args = [n, h, t, i]" by blast
  let ?w = "of_nat (parse_or_zero U32_LIMIT h) :: 32 word"
  show ?thesis using assms
    by (intro reads_backI [where c = "Link (SERVER n ?w t i)" and as = "[n, show_nat (unat ?w), t, i]"])
      (auto simp: server_parse_def a parse_show_word via_def simp del: unat_of_nat)
next
  case False
  then show ?thesis
    by (intro reads_back_raw [OF _ assms]) (auto simp: server_parse_def split: list.splits)
qed

lemma show_last [simp]: "last_ok (show_nat n)"
  by (rule middle_last) simp

lemma back_svinfo:
  assumes "args_ok args"
  shows "reads_back (server_parse uw ''SVINFO'') ''SVINFO'' args"
proof (cases "\<exists>v m z t r. args = v # m # z # t # r")
  case True
  then obtain v m z t r where a: "args = v # m # z # t # r" by blast
  let ?v = "of_nat (parse_or_zero U32_LIMIT v) :: 32 word" and ?m = "of_nat (parse_or_zero U32_LIMIT m) :: 32 word"
    and ?z = "of_nat (parse_or_zero U32_LIMIT z) :: 32 word" and ?t = "of_nat (parse_or_zero U64_MAX t) :: 64 word"
  show ?thesis
    by (intro reads_backI [where c = "Link (SVINFO ?v ?m ?z ?t)"
          and as = "[show_nat (unat ?v), show_nat (unat ?m), show_nat (unat ?z), show_nat (unat ?t)]"])
      (auto simp: server_parse_def a parse_show_word via_def simp del: unat_of_nat)
next
  case False
  then show ?thesis
    by (intro reads_back_raw [OF _ assms]) (auto simp: server_parse_def split: list.splits)
qed

lemma back_tb:
  assumes "args_ok args"
  shows "reads_back (server_parse uw ''TB'') ''TB'' args"
proof -
  consider (three) c ts t where "args = [c, ts, t]" | (four) c ts n t r where "args = c # ts # n # t # r"
    | (other) "length args < 3"
    by (cases args; cases "tl args"; cases "tl (tl args)"; cases "tl (tl (tl args))") auto
  then show ?thesis
  proof cases
    case three
    let ?w = "of_nat (parse_or_zero U64_MAX ts) :: 64 word"
    show ?thesis using assms
      by (intro reads_backI [where c = "S2s (TB c ?w None t)" and as = "[c, show_nat (unat ?w), t]"])
        (auto simp: server_parse_def three parse_show_word via_def simp del: unat_of_nat)
  next
    case four
    let ?w = "of_nat (parse_or_zero U64_MAX ts) :: 64 word"
    show ?thesis using assms args_ok_first [of t r]
      by (intro reads_backI [where c = "S2s (TB c ?w (Some n) t)" and as = "[c, show_nat (unat ?w), n, t]"])
        (auto simp: server_parse_def four parse_show_word via_def simp del: unat_of_nat)
  next
    case other
    then show ?thesis
      by (intro reads_back_raw [OF _ assms]) (auto simp: server_parse_def split: list.splits)
  qed
qed

lemma back_eob: "reads_back (server_parse uw ''EOB'') ''EOB'' args"
  by (intro reads_backI [where c = "S2s EOB" and as = "[]"]) (simp_all add: server_parse_def via_def)

lemma back_userip: "args_ok args \<Longrightarrow> reads_back (server_parse uw ''USERIP'') ''USERIP'' args"
  by (intro reads_backI [where c = "Query (USERIP args)" and as = args]) (auto simp: server_parse_def intro!: via_plain)

lemma back_links:
  assumes "args_ok args"
  shows "reads_back (server_parse uw ''LINKS'') ''LINKS'' args"
  using assms
  by (cases "(\<lambda>a b. Query (LINKS a b), ''LINKS'', args)" rule: opt2.cases)
    (auto simp: reads_back_def server_parse_def via_def raw_def intro: exI [of _ args])

section \<open>The user list of \<open>SJOIN\<close>\<close>

text \<open>Consecutive byte groups of a string.\<close>

definition groups :: "string list \<Rightarrow> bool" where
  "groups gs \<longleftrightarrow> list_all (\<lambda>g. g \<noteq> [] \<and> list_all is_cont (tl g)) gs \<and> list_all (\<lambda>g. \<not> is_cont (hd g)) (tl gs)"

lemma groups_rust_chars: "groups (rust_chars s)"
proof -
  have "list_all (\<lambda>g. g \<noteq> [] \<and> list_all is_cont (tl g)) (rust_chars s)"
    using rust_chars_tl rust_chars_nonempty by (auto simp: list_all_iff)
  moreover have "list_all (\<lambda>g. \<not> is_cont (hd g)) (tl (rust_chars s))"
  proof (induction s rule: rust_chars.induct)
    case (2 c cs)
    show ?case
    proof (cases "dropWhile is_cont cs")
      case (Cons d ds)
      then have "\<not> is_cont d" by (metis dropWhile_eq_Cons_conv)
      then show ?thesis using 2 Cons by simp
    next
      case Nil
      show ?thesis unfolding rust_chars.simps(2) Nil by simp
    qed
  qed simp
  ultimately show ?thesis by (simp add: groups_def)
qed

lemma groups_concat:
  "groups gs \<Longrightarrow> r = [] \<or> \<not> is_cont (hd r) \<Longrightarrow> rust_chars (concat gs @ r) = gs @ rust_chars r"
proof (induction gs)
  case (Cons g gs)
  obtain c cs where g: "g = c # cs" "list_all is_cont cs"
    using Cons.prems(1) by (cases g) (auto simp: groups_def)
  have "concat gs @ r = [] \<or> \<not> is_cont (hd (concat gs @ r))"
    using Cons.prems by (cases gs) (auto simp: groups_def)
  then have "takeWhile is_cont (cs @ concat gs @ r) = cs" "dropWhile is_cont (cs @ concat gs @ r) = concat gs @ r"
    using g(2) by (auto simp: takeWhile_append2 dropWhile_append2 list_all_iff takeWhile_eq_Nil_iff dropWhile_eq_self_iff)
  moreover have "groups gs" using Cons.prems(1) by (cases gs) (auto simp: groups_def)
  ultimately show ?case using Cons g by simp
qed simp

lemma groups_suffix: "groups (xs @ ys) \<Longrightarrow> groups ys" "groups (xs @ ys) \<Longrightarrow> groups xs"
  by (cases xs; cases ys; auto simp: groups_def list_all_iff)+

lemma groups_dropWhile: "groups gs \<Longrightarrow> groups (dropWhile P gs)"
  by (metis groups_suffix(1) takeWhile_dropWhile_id)

lemma words_start:
  "list_all (\<lambda>g. g \<noteq> [] \<and> \<not> is_cont (hd g)) gs \<Longrightarrow>
    join_with sep (ws_words P gs) = [] \<or> \<not> is_cont (hd (join_with sep (ws_words P gs)))"
proof (induction P gs rule: ws_words.induct)
  case (2 P g gs)
  then have g: "g \<noteq> []" "\<not> is_cont (hd g)" by auto
  show ?case
  proof (cases "P g")
    case False
    let ?ws = "ws_words P (dropWhile (\<lambda>h. \<not> P h) gs)"
    have "hd (join_with sep (concat (g # takeWhile (\<lambda>h. \<not> P h) gs) # ?ws)) = hd g"
      using g(1) by (cases ?ws) auto
    then show ?thesis using False g(2) by simp
  qed (use 2 in auto)
qed simp

lemma words_nonempty: "list_all (\<lambda>g. g \<noteq> []) gs \<Longrightarrow> w \<in> set (ws_words P gs) \<Longrightarrow> w \<noteq> []"
proof (induction P gs rule: ws_words.induct)
  case (2 P g gs)
  have "list_all (\<lambda>g. g \<noteq> []) (dropWhile (\<lambda>h. \<not> P h) gs)"
    using 2(3) by (auto simp: list_all_iff dest: set_dropWhileD)
  then show ?case using 2 by (auto split: if_splits)
qed simp

lemma takeWhile_stop:
  assumes "r = [] \<or> \<not> Q (hd r)"
  shows "takeWhile Q (takeWhile Q gs @ r) = takeWhile Q gs" "dropWhile Q (takeWhile Q gs @ r) = r"
proof -
  have "takeWhile Q r = []" "dropWhile Q r = r" using assms by (cases r; simp)+
  then show "takeWhile Q (takeWhile Q gs @ r) = takeWhile Q gs" "dropWhile Q (takeWhile Q gs @ r) = r"
    using takeWhile_append2 [of "takeWhile Q gs" Q r] dropWhile_append2 [of "takeWhile Q gs" Q r] set_takeWhileD [of _ Q gs]
    by auto
qed

lemma words_of_word:
  assumes "\<not> P g" "r = [] \<or> P (hd r)"
  shows "ws_words P (g # takeWhile (\<lambda>h. \<not> P h) gs @ r) = concat (g # takeWhile (\<lambda>h. \<not> P h) gs) # ws_words P r"
  using assms(1) takeWhile_stop [of r "\<lambda>h. \<not> P h" gs] assms(2) by (simp only: ws_words.simps if_False simp_thms)

lemma rust_chars_space:
  "j = [] \<or> \<not> is_cont (hd j) \<Longrightarrow> rust_chars (CHR '' '' # j) = '' '' # rust_chars j"
  by (cases j) auto

lemma words_join:
  "P '' '' \<Longrightarrow> groups gs \<Longrightarrow> ws_words P (rust_chars (join_with '' '' (ws_words P gs))) = ws_words P gs"
proof (induction P gs rule: ws_words.induct)
  case (2 P g gs)
  show ?case
  proof (cases "P g")
    case True
    then show ?thesis using 2(1) [OF True 2(3) groups_suffix(1) [of "[g]" gs]] 2(4) by simp
  next
    case False
    let ?t = "takeWhile (\<lambda>h. \<not> P h) gs" and ?d = "dropWhile (\<lambda>h. \<not> P h) gs"
    let ?ws = "ws_words P ?d" let ?j = "join_with '' '' ?ws"
    have here: "ws_words P (g # gs) = concat (g # ?t) # ?ws" using False by simp
    have gs: "groups ((g # ?t) @ ?d)" using 2(4) by simp
    have gt: "groups (g # ?t)" and d: "groups ?d" by (rule groups_suffix [OF gs])+
    have "list_all (\<lambda>g. g \<noteq> [] \<and> \<not> is_cont (hd g)) ?d"
      using gs by (auto simp: groups_def list_all_iff dest: set_dropWhileD)
    then have stop: "?j = [] \<or> \<not> is_cont (hd ?j)" by (rule words_start)
    have ih: "ws_words P (rust_chars ?j) = ?ws" by (rule 2(2) [OF False 2(3) d])
    show ?thesis
    proof (cases ?ws)
      case Nil
      have "rust_chars (concat (g # ?t)) = g # ?t @ []" using groups_concat [OF gt, of "[]"] by simp
      then have "ws_words P (rust_chars (concat (g # ?t))) = concat (g # ?t) # ws_words P []"
        using words_of_word [of P g "[]" gs, OF False] by (simp only: simp_thms)
      then show ?thesis unfolding here Nil join_with.simps by (simp only: ws_words.simps)
    next
      case (Cons w ws)
      have sp: "rust_chars (CHR '' '' # ?j) = '' '' # rust_chars ?j"
        by (rule rust_chars_space [OF stop])
      have "rust_chars (concat (g # ?t) @ CHR '' '' # ?j) = (g # ?t) @ '' '' # rust_chars ?j"
        unfolding sp [symmetric] by (rule groups_concat [OF gt]) (simp add: space_class)
      moreover have "join_with '' '' (concat (g # ?t) # ?ws) = concat (g # ?t) @ CHR '' '' # ?j"
        unfolding Cons by simp
      ultimately have "ws_words P (rust_chars (join_with '' '' (concat (g # ?t) # ?ws)))
          = concat (g # ?t) # ws_words P ('' '' # rust_chars ?j)"
        using words_of_word [of P g "'' '' # rust_chars ?j" gs, OF False] 2(3)
        by (simp only: append.simps list.sel simp_thms)
      then show ?thesis unfolding here using 2(3) by (simp only: ws_words.simps if_True ih)
    qed
  qed
qed simp

lemma words_subset: "w \<in> set (ws_words P gs) \<Longrightarrow> set w \<subseteq> set (concat gs)"
proof (induction P gs rule: ws_words.induct)
  case (2 P g gs)
  then show ?case
    by (auto split: if_splits dest!: set_takeWhileD) (use set_dropWhileD in fastforce)+
qed simp

lemma split_whitespace_join: "split_whitespace uw (join_with '' '' (split_whitespace uw s)) = split_whitespace uw s"
  unfolding split_whitespace_def
  by (rule words_join [OF _ groups_rust_chars]) (simp add: is_whitespace_def byte_of_def)

lemma split_whitespace_word:
  assumes "w \<in> set (split_whitespace uw s)"
  shows "w \<noteq> []" "set w \<subseteq> set s"
proof -
  have "list_all (\<lambda>g. g \<noteq> []) (rust_chars s)" using rust_chars_nonempty by (auto simp: list_all_iff)
  then show "w \<noteq> []" using words_nonempty assms unfolding split_whitespace_def by blast
  show "set w \<subseteq> set s"
    using words_subset [of w] assms unfolding split_whitespace_def by (metis concat_rust_chars)
qed

lemma sjoin_user_append:
  assumes "sjoin_user w = (p, u)" "u \<noteq> [] \<longrightarrow> hd u \<notin> set SJOIN_PREFIXES" "w \<noteq> []"
  shows "p @ u = w"
proof (cases "length (takeWhile (\<lambda>c. c \<in> set SJOIN_PREFIXES) w) = length w")
  case True
  then have "takeWhile (\<lambda>c. c \<in> set SJOIN_PREFIXES) w = w" by (metis takeWhile_eq_take take_all order_refl)
  then have "hd w \<in> set SJOIN_PREFIXES"
    using assms(3) by (metis hd_in_set set_takeWhileD)
  then show ?thesis using True assms by (simp add: sjoin_user_def Let_def)
next
  case False
  then have "p = takeWhile (\<lambda>c. c \<in> set SJOIN_PREFIXES) w" "u = dropWhile (\<lambda>c. c \<in> set SJOIN_PREFIXES) w"
    using assms(1) by (auto simp: sjoin_user_def Let_def dropWhile_eq_drop)
  then show ?thesis by simp
qed

lemma sjoin_words:
  assumes "list_all (\<lambda>(p, u). u \<noteq> [] \<longrightarrow> hd u \<notin> set SJOIN_PREFIXES) (map sjoin_user ws)" "list_all (\<lambda>w. w \<noteq> []) ws"
  shows "map (\<lambda>(p, u). p @ u) (map sjoin_user ws) = ws"
  using assms
proof (induction ws)
  case (Cons w ws)
  then show ?case using sjoin_user_append [of w] by (cases "sjoin_user w") auto
qed simp

lemma plain_args_append: "plain_args (as @ bs) = plain_args as @ plain_args bs"
  by (simp add: plain_args_def)

lemma back_sjoin:
  assumes "args_ok args"
  shows "reads_back (server_parse uw ''SJOIN'') ''SJOIN'' args"
proof (cases "\<exists>ts ch modes r rest. args = ts # ch # modes # r # rest")
  case True
  then obtain ts ch modes r rest where a: "args = ts # ch # modes # r # rest" by blast
  define w where "w = (of_nat (parse_or_zero U64_MAX ts) :: 64 word)"
  define ms where "ms = butlast (r # rest)"
  define ws where "ws = split_whitespace uw (last (r # rest))"
  define j where "j = join_with '' '' ws"
  let ?c = "S2s (SJOIN w ch modes ms (map sjoin_user ws))"
  let ?as = "show_nat (unat w) # ch # modes # ms @ [j]"
  have parse: "server_parse uw ''SJOIN'' args = Inr ?c"
    by (simp add: server_parse_def a w_def ms_def ws_def)
  have ok: "list_all middle_ok ms" "middle_ok ch" "middle_ok modes" "length ms \<le> 11" "last_ok (last (r # rest))"
    using assms unfolding a args_ok_def by (simp_all add: ms_def)
  have word: "list_all (\<lambda>v. v \<noteq> [] \<and> set v \<subseteq> set (last (r # rest))) ws"
    using split_whitespace_word by (auto simp: ws_def list_all_iff)
  then have "list_all param_clean ws"
    using ok(5) by (auto simp: last_ok_def list_all_iff param_clean_def list_ex_iff)
  then have "last_ok j" by (simp add: last_ok_clean j_def clean_join)
  then have args: "args_ok ?as" using ok by (simp add: args_ok_def butlast_append)
  obtain r' rest' where cons: "ms @ [j] = r' # rest'" by (cases "ms @ [j]") auto
  have "butlast (r' # rest') = ms" "last (r' # rest') = j" unfolding cons [symmetric] by simp_all
  then have again: "server_parse uw ''SJOIN'' ?as = Inr ?c"
    unfolding cons by (simp add: server_parse_def parse_show_word j_def ws_def split_whitespace_join)
  have "via ?c ''SJOIN'' ?as" if "reprintable ?c"
  proof -
    have "map (\<lambda>(p, u). p @ u) (map sjoin_user ws) = ws"
      using that word by (intro sjoin_words) (auto simp: list_all_iff)
    then show ?thesis
      by (simp add: via_def freeform_args_def butlast_append plain_args_append j_def del: map_map)
  qed
  then show ?thesis using parse args again by (intro reads_backI [where c = ?c and as = ?as]) auto
next
  case False
  then show ?thesis
    by (intro reads_back_raw [OF _ assms]) (auto simp: server_parse_def split: list.splits)
qed

lemma back_server_module:
  assumes "args_ok args"
  shows "reads_back (server_parse uw cmd) cmd args"
  using back_help [OF assms, of uw] back_metadata [OF assms, of uw] back_sjoin [OF assms, of uw]
    back_tmode [OF assms, of uw] back_server [OF assms, of uw] back_svinfo [OF assms, of uw] back_eob [of uw args]
    back_tb [OF assms, of uw] back_links [OF assms, of uw] back_userip [OF assms, of uw] back_encap [OF assms, of uw]
    reads_back_via [where p = "server_parse uw cmd", OF via_server assms]
  by blast

section \<open>The IRCv3 module\<close>

lemma back_cap:
  assumes "args_ok args"
  shows "reads_back (ircv3_parse ''CAP'') ''CAP'' args"
proof (cases "\<exists>k s x p c. ircv3_parse ''CAP'' args = Inr (Ircv3 (CAP k c x p))")
  case True
  then obtain k x p c where r: "ircv3_parse ''CAP'' args = Inr (Ircv3 (CAP k c x p))" by blast
  have "args_ok (cap_args k c x p) \<and> ircv3_parse ''CAP'' (cap_args k c x p) = Inr (Ircv3 (CAP k c x p))"
    using r assms middle_last [OF cap_middle [of c]]
    by (auto simp: ircv3_parse_def raw_def cap_args_def split: list.splits option.splits)
  moreover have "via (Ircv3 (CAP k c x p)) ''CAP'' (cap_args k c x p)"
    using cap_sinks(1) [of k c x p] by (simp add: via_def del: display_ircv3.simps)
  ultimately show ?thesis using r by (intro reads_backI) auto
next
  case False
  then have "ircv3_parse ''CAP'' args = Inr (raw ''CAP'' args)"
    by (auto simp: ircv3_parse_def split: list.splits option.splits)
  then show ?thesis by (rule reads_back_raw [OF _ assms])
qed

lemma back_batch:
  assumes "args_ok args"
  shows "reads_back (ircv3_parse ''BATCH'') ''BATCH'' args"
proof -
  consider (one) t where "args = [t]" | (two) t s where "args = [t, s]" | (more) t s a as where "args = t # s # a # as"
    | (none) "args = []"
    by (cases args; cases "tl args"; cases "tl (tl args)") auto
  then show ?thesis
  proof cases
    case one
    then show ?thesis using assms
      by (intro reads_backI [where c = "Ircv3 (BATCH t None None)" and as = "[t]"]) (auto simp: ircv3_parse_def via_def)
  next
    case two
    then show ?thesis using assms batch_ok
      by (intro reads_backI [where c = "Ircv3 (BATCH t (Some (batch_from_str s)) None)"
            and as = "[t, batch_as_str (batch_from_str s)]"]) (auto simp: ircv3_parse_def via_def)
  next
    case more
    then show ?thesis using assms batch_ok
      by (intro reads_backI [where c = "Ircv3 (BATCH t (Some (batch_from_str s)) (Some (a # as)))"
            and as = "t # batch_as_str (batch_from_str s) # a # as"]) (auto simp: ircv3_parse_def via_def)
  next
    case none
    then show ?thesis by (intro reads_back_raw [OF _ assms]) (simp add: ircv3_parse_def)
  qed
qed

lemma back_webirc:
  assumes "args_ok args"
  shows "reads_back (ircv3_parse ''WEBIRC'') ''WEBIRC'' args"
proof -
  consider (four) a b c d where "args = [a, b, c, d]" | (more) a b c d e r where "args = a # b # c # d # e # r"
    | (few) "length args < 4"
    by (cases args; cases "tl args"; cases "tl (tl args)"; cases "tl (tl (tl args))"; cases "tl (tl (tl (tl args)))") auto
  then show ?thesis
  proof cases
    case four
    then show ?thesis using assms
      by (intro reads_backI [where c = "Ircv3 (WEBIRC a b c d None)" and as = "[a, b, c, d]"]) (auto simp: ircv3_parse_def via_def)
  next
    case more
    then show ?thesis using assms args_ok_first [of e r]
      by (intro reads_backI [where c = "Ircv3 (WEBIRC a b c d (Some e))" and as = "[a, b, c, d, e]"])
        (auto simp: ircv3_parse_def via_def)
  next
    case few
    then show ?thesis by (intro reads_back_raw [OF _ assms]) (auto simp: ircv3_parse_def split: list.splits)
  qed
qed

lemma back_ack: "reads_back (ircv3_parse ''ACK'') ''ACK'' args"
  by (intro reads_backI [where c = "Ircv3 ACK" and as = "[]"]) (simp_all add: ircv3_parse_def via_def)

lemma middle_no_colon: "middle_ok a \<Longrightarrow> \<not> needs_colon_prefix a"
  by (auto simp: middle_ok_def needs_colon_prefix_def list_all_iff)

text \<open>The arguments a printed \<open>CHATHISTORY\<close> has.\<close>

definition chathistory_args ::
  "chathistory_subcommand \<Rightarrow> string \<Rightarrow> message_reference \<Rightarrow> message_reference option \<Rightarrow> 32 word \<Rightarrow> string list" where
  "chathistory_args sub target r1 r2 limit =
    chathistory_as_str sub # (if sub = HistTARGETS then [] else [target]) @ [reference_display r1]
    @ (if sub = HistTARGETS \<or> sub = HistBETWEEN then (case r2 of None \<Rightarrow> [] | Some r \<Rightarrow> [reference_display r]) else [])
    @ [show_nat (unat limit)]"

lemma chathistory_via:
  "via (Ircv3 (CHATHISTORY sub target r1 r2 limit)) ''CHATHISTORY'' (chathistory_args sub target r1 r2 limit)"
  by (rule via_plain; cases sub; cases r2)
    (auto simp: chathistory_args_def plain_last_def middle_no_colon)

lemma timestamp_middle: "middle_ok a \<Longrightarrow> middle_ok (reference_display (RefTimestamp a))"
  by (simp add: middle_ok_def is_eol_def)

lemma chathistory_shape:
  assumes "ircv3_parse ''CHATHISTORY'' args = Inr c"
  shows "c = raw ''CHATHISTORY'' args \<or> (\<exists>sub target r1 r2 limit. c = Ircv3 (CHATHISTORY sub target r1 r2 limit)
    \<and> (args_ok args \<longrightarrow> middle_ok (reference_display r1) \<and> (\<forall>r. r2 = Some r \<longrightarrow> middle_ok (reference_display r))
        \<and> (if sub = HistTARGETS then target = [] else middle_ok target))
    \<and> (sub \<noteq> HistTARGETS \<and> sub \<noteq> HistBETWEEN \<longrightarrow> r2 = None))"
  using assms reference_display_parse timestamp_middle
  by (auto simp: ircv3_parse_def chathistory_parse_def split: list.splits option.splits if_splits chathistory_subcommand.splits)

lemma chathistory_again:
  assumes "sub = HistTARGETS \<or> sub = HistBETWEEN \<longrightarrow> r2 \<noteq> None"
    "sub \<noteq> HistTARGETS \<and> sub \<noteq> HistBETWEEN \<longrightarrow> r2 = None" "sub = HistTARGETS \<longrightarrow> target = []"
  shows "ircv3_parse ''CHATHISTORY'' (chathistory_args sub target r1 r2 limit) = Inr (Ircv3 (CHATHISTORY sub target r1 r2 limit))"
proof -
  have "ircv3_parse ''CHATHISTORY'' as = Inr (chathistory_parse ''CHATHISTORY'' sub as)"
    if "as ! 0 = chathistory_as_str sub" "3 \<le> length as" for as
    using that by (simp add: ircv3_parse_def)
  from this [of "chathistory_args sub target r1 r2 limit"] show ?thesis
    using assms by (cases sub; cases r2) (auto simp: chathistory_args_def chathistory_parse_def parse_show_word)
qed

lemma back_chathistory:
  assumes "args_ok args"
  shows "reads_back (ircv3_parse ''CHATHISTORY'') ''CHATHISTORY'' args"
proof -
  obtain c where c: "ircv3_parse ''CHATHISTORY'' args = Inr c"
    by (simp add: ircv3_parse_def)
  show ?thesis
  proof (cases "c = raw ''CHATHISTORY'' args")
    case True
    then show ?thesis using c by (intro reads_back_raw [OF _ assms]) simp
  next
    case False
    then obtain sub target r1 r2 limit where r: "c = Ircv3 (CHATHISTORY sub target r1 r2 limit)"
      "middle_ok (reference_display r1)" "\<forall>r. r2 = Some r \<longrightarrow> middle_ok (reference_display r)"
      "if sub = HistTARGETS then target = [] else middle_ok target"
      "sub \<noteq> HistTARGETS \<and> sub \<noteq> HistBETWEEN \<longrightarrow> r2 = None"
      using chathistory_shape [OF c] assms by blast
    have targets: "middle_ok ''TARGETS''" by (simp add: middle_ok_def is_eol_def)
    have "args_ok (chathistory_args sub target r1 r2 limit)"
      using r(2-4) targets by (auto simp: chathistory_args_def split: option.split if_splits)
    then show ?thesis
      using c r chathistory_via chathistory_again [of sub r2 target r1 limit]
      by (intro reads_backI [where c = c and as = "chathistory_args sub target r1 r2 limit"]) (auto split: if_splits)
  qed
qed

lemma back_ircv3:
  assumes "args_ok args"
  shows "reads_back (ircv3_parse cmd) cmd args"
  using back_cap [OF assms] back_batch [OF assms] back_ack [of args] back_webirc [OF assms] back_chathistory [OF assms]
    reads_back_via [where p = "ircv3_parse cmd", OF via_ircv3 assms]
  by blast

section \<open>\<open>Command::new\<close>\<close>

lemma upper_letter:
  "is_ascii_alphabetic (if 97 \<le> byte_of c \<and> byte_of c \<le> 122 then char_of (byte_of c - 32) else c) = is_ascii_alphabetic c"
  "is_ascii_digit (if 97 \<le> byte_of c \<and> byte_of c \<le> 122 then char_of (byte_of c - 32) else c) = is_ascii_digit c"
  using byte_of_char_of [of "byte_of c - 32"] by (auto simp: is_ascii_alphabetic_def is_ascii_digit_def)

lemma upper_name: "name_ok (to_ascii_uppercase n) \<longleftrightarrow> name_ok n"
  unfolding name_ok_def to_ascii_uppercase_def list.pred_map comp_def upper_letter by simp

text \<open>The module a name is parsed by, which sees the name in upper case only.\<close>

lemma command_new_module:
  assumes "to_ascii_uppercase n \<in> set connection_names \<union> set channel_names \<union> set server_names \<union> set user_names
      \<union> set messaging_names \<union> set ircv3_names"
  obtains p where "command_new uw n = p (to_ascii_uppercase n)" "command_new uw (to_ascii_uppercase n) = p (to_ascii_uppercase n)"
    "p \<in> {connection_parse, channel_parse, server_parse uw, user_parse, messaging_parse, ircv3_parse}"
proof -
  let ?u = "to_ascii_uppercase n"
  let ?p = "if ?u \<in> set connection_names then connection_parse else if ?u \<in> set channel_names then channel_parse
    else if ?u \<in> set server_names then server_parse uw else if ?u \<in> set user_names then user_parse
    else if ?u \<in> set messaging_names then messaging_parse else ircv3_parse"
  have "command_new uw n = ?p ?u" "command_new uw ?u = ?p ?u"
    using assms by (auto simp: command_new_def fun_eq_iff)
  then show ?thesis by (intro that [of ?p]) auto
qed

lemma module_back:
  assumes "p \<in> {connection_parse, channel_parse, server_parse uw, user_parse, messaging_parse, ircv3_parse}" "args_ok args"
  shows "reads_back (p u) u args"
  using assms(1) back_connection [OF assms(2)] back_server_module [OF assms(2)] back_ircv3 [OF assms(2)]
    reads_back_via [where p = "channel_parse u", OF via_channel assms(2)]
    reads_back_via [where p = "user_parse u", OF via_user assms(2)]
    reads_back_via [where p = "messaging_parse u", OF via_messaging assms(2)]
  by blast

lemma digits_value_three:
  "digits_value [a, b, c] = 100 * (byte_of a - 48) + 10 * (byte_of b - 48) + (byte_of c - 48)"
  by (simp add: digits_value_def)

lemma show_digits:
  assumes "is_ascii_digit a"
  shows "char_of (48 + (byte_of a - 48)) = a"
  using assms by (simp add: is_ascii_digit_def byte_of_def)

lemma show_nat_step: "z < 10 \<Longrightarrow> show_nat (10 * k + z) = (if k = 0 then [] else show_nat k) @ [char_of (48 + z)]"
proof -
  assume z: "z < 10"
  then have "(10 * k + z) div 10 = k" "(10 * k + z) mod 10 = z" by simp_all
  then show ?thesis using z by (subst show_nat.simps) (auto simp: not_less)
qed

lemma show_code_digits:
  assumes "list_all is_ascii_digit n" "length n = 3"
  shows "show_code (digits_value n) = n"
proof -
  obtain a b c where n: "n = [a, b, c]" using assms(2) by (auto simp: numeral_3_eq_3 length_Suc_conv)
  have d: "is_ascii_digit a" "is_ascii_digit b" "is_ascii_digit c" using assms(1) by (auto simp: n)
  obtain x y z where xyz: "a = char_of (48 + x)" "b = char_of (48 + y)" "c = char_of (48 + z)"
    and eq: "x = byte_of a - 48" "y = byte_of b - 48" "z = byte_of c - 48"
    using show_digits [OF d(1)] show_digits [OF d(2)] show_digits [OF d(3)] by metis
  have lt: "x < 10" "y < 10" "z < 10" using d unfolding eq is_ascii_digit_def by auto
  have v: "digits_value n = 10 * (10 * x + y) + z" unfolding n digits_value_three eq by simp
  have "show_nat x = [char_of (48 + x)]" using show_nat_step [of x 0] lt(1) by simp
  then have "show_nat (digits_value n) = (if x = 0 then (if y = 0 then [] else [b]) else [a, b]) @ [c]"
    unfolding v using show_nat_step [OF lt(3), of "10 * x + y"] show_nat_step [OF lt(2), of x] xyz by auto
  moreover have "char_of (48 :: nat) = CHR ''0''" by code_simp
  ultimately show ?thesis unfolding show_code_def n using xyz by (auto simp: numeral_2_eq_2)
qed

lemma from_code_Some: "from_code code = Some resp \<Longrightarrow> resp = code"
  by (simp add: from_code_def from_success_code_def from_error_code_def split: if_splits)

lemma parse_uint_digits:
  assumes "parse_uint mx n = Some code" "hd n \<noteq> CHR ''+''"
  shows "list_all is_ascii_digit n \<and> code = digits_value n \<and> code \<le> mx"
  using assms by (cases n) (simp_all add: parse_uint_def Let_def split: if_splits)

lemma name_digits:
  assumes "name_ok n" "list_all is_ascii_digit n"
  shows "length n = 3"
proof -
  have "\<not> is_ascii_alphabetic c" if "is_ascii_digit c" for c
    using that by (simp add: is_ascii_alphabetic_def is_ascii_digit_def)
  then have "\<not> list_all is_ascii_alphabetic n" using assms name_start(1) [OF assms(1)] by (cases n) auto
  then show ?thesis using assms(1) by (simp add: name_ok_def)
qed

lemma response_back:
  assumes "name_ok n" "response_from_str n = Some resp"
  shows "via (Reply (Response (of_nat resp) args)) n args"
proof -
  have "is_ascii_alnum (hd n)"
    using name_ascii [OF assms(1)] name_start(1) [OF assms(1)] by (cases n) auto
  moreover have "\<not> is_ascii_alnum CHR ''+''"
    by (simp add: is_ascii_alnum_def is_ascii_alphabetic_def is_ascii_digit_def byte_of_def)
  ultimately have plus: "hd n \<noteq> CHR ''+''" by metis
  obtain code where code: "parse_uint 65535 n = Some code" "from_code code = Some resp"
    using assms(2) by (cases "parse_uint 65535 n") (simp_all add: response_from_str_def)
  have d: "list_all is_ascii_digit n" "code = digits_value n" "code \<le> 65535"
    using parse_uint_digits [OF code(1) plus] by blast+
  have "show_code code = n" unfolding d(2) by (rule show_code_digits [OF d(1) name_digits [OF assms(1) d(1)]])
  moreover have "unat (of_nat code :: 16 word) = code" using d(3) by (simp add: unat_of_nat take_bit_nat_eq_self)
  ultimately have "puts (display_ops (Reply (Response (of_nat resp) args))) = n @ raw_args args"
    "checks (display_ops (Reply (Response (of_nat resp) args))) = []"
    using from_code_Some [OF code(2)] by (simp_all only: display_ops.simps response_sink)
  then show ?thesis by (simp only: via_def) simp
qed

text \<open>The line of a mode change: target, flags and arguments.\<close>

lemma args_ok_flags:
  assumes "args_ok (t # first # args)" "\<not> needs_colon_prefix f" "set f \<subseteq> set first \<union> {CHR ''+'', CHR ''-''}"
  shows "args_ok (t # f # args)"
proof -
  have "last_ok first" using args_ok_first [OF args_ok_rest [OF assms(1)]] .
  moreover have "\<not> is_eol CHR ''+''" "\<not> is_eol CHR ''-''" by (simp_all add: is_eol_def)
  ultimately have "last_ok f" using assms(3) by (auto simp: last_ok_def list_all_iff)
  then have "middle_ok f" using assms(2) by (auto simp: middle_ok_def last_ok_def needs_colon_prefix_def list_all_iff)
  then show ?thesis using assms(1) \<open>last_ok f\<close> by (cases args) auto
qed

lemma raw_args_flags: "\<not> needs_colon_prefix f \<Longrightarrow> raw_args (f # args) = '' '' @ f @ raw_args args"
  by (cases args) simp_all

lemma no_args_left:
  assumes "list_all (\<lambda>m. mode_arg m = None \<or> takes_arg T (mode_mode m)) ms" "list_all (\<lambda>m. \<not> takes_arg T (mode_mode m)) ms"
  shows "List.map_filter mode_arg ms = []"
  using assms by (induction ms) (auto simp: List.map_filter_simps)

lemma mode_back:
  assumes args: "args_ok args" and c: "parse_mode_command n args = Inr c" and r: "reprintable c" and "args \<noteq> []"
  shows "\<exists>as. via c ''MODE'' as \<and> args_ok as \<and> parse_mode_command ''MODE'' as = Inr c"
proof -
  obtain t margs where t: "args = t # margs" using assms(4) by (cases args) auto
  have last: "args_ok [t]" using args_ok_first args unfolding t by simp
  show ?thesis
  proof (cases "is_channel_name t")
    case True
    then obtain ms where ms: "as_channel_modes margs = Inr ms" "c = Channel (ChannelMODE t ms)"
      using c unfolding t by (auto simp: parse_mode_command_def split: sum.splits)
    show ?thesis
    proof (cases "ms = []")
      case True
      then show ?thesis using last r ms \<open>is_channel_name t\<close>
        by (intro exI [of _ "[t]"]) (simp add: via_def parse_mode_command_def as_channel_modes_def parse_modes_def)
    next
      case False
      then obtain first rest where m: "margs = first # rest"
        using ms(1) by (cases margs) (auto simp: as_channel_modes_def parse_modes_def)
      have ok: "flags_printable proto_mode_type ms" using r ms(2) False by simp
      note again = parse_printed [OF letter_from_char(2) ms(1) [unfolded m as_channel_modes_def] False ok]
      have f: "\<not> needs_colon_prefix (flags_text proto_mode_type ms)" using ok by (simp add: flags_printable_def)
      have "via c ''MODE'' (t # flags_text proto_mode_type ms # rest)"
        unfolding via_def ms(2) using False by (auto simp: again(2) raw_args_flags [OF f])
      moreover have "args_ok (t # flags_text proto_mode_type ms # rest)"
        using args_ok_flags [OF _ f again(3)] args unfolding t m by blast
      moreover have "parse_mode_command ''MODE'' (t # flags_text proto_mode_type ms # rest) = Inr c"
        using again(1) \<open>is_channel_name t\<close> by (simp add: parse_mode_command_def as_channel_modes_def ms(2))
      ultimately show ?thesis by blast
    qed
  next
    case False
    then obtain ms where ms: "as_user_modes margs = Inr ms" "c = Registration (UserMODE t ms)"
      using c unfolding t by (auto simp: parse_mode_command_def split: sum.splits)
    show ?thesis
    proof (cases "ms = []")
      case True
      then show ?thesis using last r ms \<open>\<not> is_channel_name t\<close>
        by (intro exI [of _ "[t]"]) (simp add: via_def parse_mode_command_def as_user_modes_def parse_modes_def)
    next
      case False
      then obtain first rest where m: "margs = first # rest"
        using ms(1) by (cases margs) (auto simp: as_user_modes_def parse_modes_def)
      have ok: "flags_printable user_mode_type ms" "list_all (\<lambda>m. \<not> takes_arg user_mode_type (mode_mode m)) ms"
        using r ms(2) False by simp_all
      note again = parse_printed [OF letter_from_char(1) ms(1) [unfolded m as_user_modes_def] False ok(1)]
      have f: "\<not> needs_colon_prefix (flags_text user_mode_type ms)" using ok by (simp add: flags_printable_def)
      have rest: "rest = []" using no_args_left [OF again(4) ok(2)] again(2) by simp
      have "via c ''MODE'' [t, flags_text user_mode_type ms]"
        unfolding via_def ms(2) using False f by auto
      moreover have "args_ok [t, flags_text user_mode_type ms]"
        using args_ok_flags [OF _ f again(3)] args unfolding t m rest by blast
      moreover have "parse_mode_command ''MODE'' [t, flags_text user_mode_type ms] = Inr c"
        using again(1) \<open>\<not> is_channel_name t\<close> by (simp add: parse_mode_command_def as_user_modes_def ms(2) rest)
      ultimately show ?thesis by blast
    qed
  qed
qed

text \<open>No module claims \<open>MODE\<close>.\<close>

lemma command_new_mode: "to_ascii_uppercase n = ''MODE'' \<Longrightarrow> command_new uw n = parse_mode_command n"
  by (simp add: fun_eq_iff command_new_def Let_def connection_names_def channel_names_def server_names_def
      user_names_def messaging_names_def ircv3_names_def)

lemma upper_mode: "to_ascii_uppercase ''MODE'' = ''MODE''" "name_ok ''MODE''"
  by code_simp+

lemma command_new_back:
  assumes n: "name_ok n" and args: "args_ok args" and c: "command_new uw n args = Inr c" and r: "reprintable c"
  shows "\<exists>m as. name_ok m \<and> via c m as \<and> args_ok as \<and> command_new uw m as = Inr c"
proof (cases "to_ascii_uppercase n \<in> set connection_names \<union> set channel_names \<union> set server_names \<union> set user_names
      \<union> set messaging_names \<union> set ircv3_names")
  case True
  then obtain p where p: "command_new uw n = p (to_ascii_uppercase n)"
    "command_new uw (to_ascii_uppercase n) = p (to_ascii_uppercase n)"
    "p \<in> {connection_parse, channel_parse, server_parse uw, user_parse, messaging_parse, ircv3_parse}"
    by (rule command_new_module)
  show ?thesis
    using module_back [OF p(3) args, of "to_ascii_uppercase n"] c r p(1,2) n unfolding reads_back_def
    by (metis upper_name)
next
  case other: False
  show ?thesis
  proof (cases "to_ascii_uppercase n = ''MODE'' \<and> args \<noteq> []")
    case True
    then have "parse_mode_command n args = Inr c" using c by (simp add: command_new_mode)
    then show ?thesis
      using mode_back [OF args _ r] True command_new_mode [OF upper_mode(1)] upper_mode(2) by metis
  next
    case False
    have "c = raw n args \<or> (\<exists>resp. response_from_str n = Some resp \<and> c = Reply (Response (of_nat resp) args))"
      using c other False by (auto simp: command_new_def parse_mode_command_def Let_def split: if_splits option.splits)
    then have "via c n args" using via_raw response_back [OF n] by blast
    then show ?thesis using n args c by blast
  qed
qed

text \<open>\<open>Command::new\<close> never runs into an \<open>unreachable!\<close> arm.\<close>

lemma command_new_reachable: "command_new uw n args \<noteq> Inl Unreachable"
proof -
  have "u \<in> set connection_names \<Longrightarrow> connection_parse u args \<noteq> Inl Unreachable"
    "u \<in> set channel_names \<Longrightarrow> channel_parse u args \<noteq> Inl Unreachable"
    "u \<in> set server_names \<Longrightarrow> server_parse uw u args \<noteq> Inl Unreachable"
    "u \<in> set user_names \<Longrightarrow> user_parse u args \<noteq> Inl Unreachable"
    "u \<in> set messaging_names \<Longrightarrow> messaging_parse u args \<noteq> Inl Unreachable"
    "ircv3_parse u args \<noteq> Inl Unreachable" for u
    by (auto simp: connection_names_def connection_parse_def channel_names_def channel_parse_def server_names_def
        server_parse_def user_names_def user_parse_def messaging_names_def messaging_parse_def ircv3_parse_def)
  then show ?thesis
    by (auto simp: command_new_def parse_mode_command_def Let_def split: list.split sum.split option.split)
qed

text \<open>Three of the commands \<open>reprintable\<close> leaves out: a metadata value with a space comes back as two
  arguments, \<open>LINKS\<close> with its first field alone prints without it, and an unsigned \<open>MODE\<close> prints
  without the argument its mode needs, so that the printed line is an error.\<close>

lemma metadata_value_splits:
  "command_new (\<lambda>_. False) ''METADATA'' [''SET'', ''#d'', ''k'', ''a b'']
      = Inr (Query (METADATA MetaSET ''#d'' [''k'', ''a b'']))"
  "run_display (display_ops (Query (METADATA MetaSET ''#d'' [''k'', ''a b''])))
      = Some ''METADATA SET #d k a b''"
  "map_sum id (\<lambda>m. cr_args (mr_command m)) (message_ref_parse (\<lambda>_. False) ''METADATA SET #d k a b'')
      = Inr [''SET'', ''#d'', ''k'', ''a'', ''b'']"
  by code_simp+

lemma links_mask_lost: "run_display (display_ops (Query (LINKS (Some r) None))) = Some ''LINKS''"
  by code_simp

lemma unsigned_mode_lost:
  "command_new (\<lambda>_. False) ''MODE'' [''#c'', ''o'', ''nick''] = Inr (Channel (ChannelMODE ''#c'' [NoPrefix POper]))"
  "run_display (display_ops (Channel (ChannelMODE ''#c'' [NoPrefix POper]))) = Some ''MODE #c o''"
  "isl (command_new (\<lambda>_. False) ''MODE'' [''#c'', ''o''])"
  by code_simp+

text \<open>C9. A command read from a line is printed by \<open>Display\<close> as a line that reads back as the same
  command: when \<open>MessageRef::parse\<close> accepts a line and \<open>Command::new\<close> makes a command of its name and
  arguments, printing that command succeeds, the printed line parses (without tags and prefix), and
  \<open>Command::new\<close> makes the same command of the name and arguments found there.  The hypothesis
  \<open>reprintable\<close> leaves out the commands whose printed form loses or splits a field: a \<open>MODE\<close> with an
  unsigned change whose mode takes an argument or with the user mode \<open>s\<close> (the argument is not printed),
  or whose target or flags would need a colon; \<open>LINKS\<close> with its first field alone; a last
  argument that needs a colon in \<open>USERIP\<close>, \<open>METADATA\<close> and \<open>TMODE\<close> or a bare \<open>ENCAP\<close> subcommand; an
  \<open>SJOIN\<close> member whose id starts with a prefix character; and \<open>CHATHISTORY TARGETS\<close> or \<open>BETWEEN\<close>
  without a second reference.\<close>

theorem command_reprints:
  assumes "message_ref_parse ua s = Inr m"
    and "command_new uw (cr_name (mr_command m)) (cr_args (mr_command m)) = Inr c"
    and "reprintable c"
  shows "\<exists>line n as. run_display (display_ops c) = Some line
    \<and> (\<forall>ua'. message_ref_parse ua' line = Inr \<lparr>mr_tags = None, mr_prefix = None,
          mr_command = \<lparr>cr_name = n, cr_args = as\<rparr>, mr_raw = line\<rparr>)
    \<and> command_new uw n as = Inr c"
proof -
  have "name_ok (cr_name (mr_command m))" "args_ok (cr_args (mr_command m))"
    using message_ref_parse_ok [OF assms(1)] by (auto simp: message_ok_def)
  then obtain n bs where b: "name_ok n" "via c n bs" "args_ok bs" "command_new uw n bs = Inr c"
    using command_new_back assms(2,3) by blast
  then show ?thesis using line_parses [OF via_prints [OF b(2,3)] b(1)] b(4) by blast
qed

lemma sample_command:
  "command_new (\<lambda>_. False) (cr_name (mr_command sample_message)) (cr_args (mr_command sample_message))
    = Inr (Messaging (PRIVMSG ''#d'' ''hello you''))"
  by code_simp

theorem command_reprints_witness:
  "\<exists>line n as. run_display (display_ops (Messaging (PRIVMSG ''#d'' ''hello you''))) = Some line
    \<and> (\<forall>ua'. message_ref_parse ua' line = Inr \<lparr>mr_tags = None, mr_prefix = None,
          mr_command = \<lparr>cr_name = n, cr_args = as\<rparr>, mr_raw = line\<rparr>)
    \<and> command_new (\<lambda>_. False) n as = Inr (Messaging (PRIVMSG ''#d'' ''hello you''))"
  using command_reprints [OF sample_parses sample_command] by simp

end
