(* ===== verification/Handshake.thy ===== *)
theory Handshake
  imports Clock "HOL-Library.Word"
begin

text \<open>
  \<open>src/sync/handshake.rs\<close>, the state machine that authenticates a link to another server, and the two
  loops of \<open>src/sync/network.rs\<close> that drive it: \<open>inbound_loop\<close> for an accepted connection and
  \<open>outbound_loop\<close> for one we opened.  A line is the parsed command or \<open>None\<close> when it does not parse, with the
  milliseconds since the handshake began.  Every send on the socket succeeds.  The clock and the
  derived \<open>Debug\<close> text of a command are arguments.  The loops end with the peer's SID; the burst that
  follows is not among the commands they return.
\<close>

section \<open>Definitions\<close>

datatype handshake_state = Unconnected | OutboundInitiated | InboundReceived | Bursting | Synced

datatype handshake_error =
    InvalidStateTransition
  | AuthenticationFailed
  | ProtocolError string
  | UnknownServer string

datatype s2s_command =
    S2S_PASS string
  | S2S_PassTs6 string string
  | S2S_CAPAB "string list"
  | S2S_SVINFO "32 word" "32 word" "32 word" "64 word"
  | S2S_SERVER string "32 word" string string
  | S2S_CAP "string option" string "string option" "string option"
  | S2S_ERROR string
  | S2S_SID string string string string
  | S2S_EOB
  | S2S_PING string
  | S2S_Other string

record link_block =
  lb_name :: string
  lb_password :: string
  lb_sid :: "string option"

record handshake_machine =
  hs_state :: handshake_state
  hs_remote_name :: "string option"
  hs_remote_pass :: "string option"
  hs_remote_sid :: "server_id option"
  hs_remote_sid_from_pass :: "server_id option"
  hs_remote_info :: "string option"
  hs_remote_capab :: "string list option"
  hs_remote_svinfo :: "(32 word \<times> 32 word \<times> 32 word \<times> 64 word) option"
  hs_local_sid :: server_id
  hs_local_name :: string
  hs_local_desc :: string

definition SUPPORTED_CAPABS :: "string list" where
  "SUPPORTED_CAPABS = [''QS'', ''ENCAP'', ''EX'', ''IE'', ''UNKLN'', ''KLN'', ''GLN'', ''HOPS'', ''CHW'', ''EOB'',
    ''KNOCK'', ''TB'', ''SERVICES'']"

definition handshake_new :: "server_id \<Rightarrow> string \<Rightarrow> string \<Rightarrow> handshake_machine" where
  "handshake_new sid name desc =
    \<lparr>hs_state = Unconnected, hs_remote_name = None, hs_remote_pass = None, hs_remote_sid = None,
     hs_remote_sid_from_pass = None, hs_remote_info = None, hs_remote_capab = None, hs_remote_svinfo = None,
     hs_local_sid = sid, hs_local_name = name, hs_local_desc = desc\<rparr>"

definition transition :: "handshake_state \<Rightarrow> handshake_machine \<Rightarrow> handshake_machine" where
  "transition s m = m\<lparr>hs_state := s\<rparr>"

definition verify_credentials :: "link_block list \<Rightarrow> handshake_machine \<Rightarrow> handshake_error + link_block" where
  "verify_credentials links m =
    (case hs_remote_name m of None \<Rightarrow> Inl (ProtocolError ''Missing SERVER name'')
     | Some name \<Rightarrow> (case hs_remote_pass m of None \<Rightarrow> Inl AuthenticationFailed
       | Some pass \<Rightarrow> (case find (\<lambda>l. lb_name l = name) links of None \<Rightarrow> Inl (UnknownServer name)
         | Some link \<Rightarrow> if lb_password link \<noteq> pass then Inl AuthenticationFailed else Inr link)))"

definition check_handshake_complete ::
  "link_block list \<Rightarrow> handshake_machine \<Rightarrow> handshake_machine \<times> (handshake_error + bool)" where
  "check_handshake_complete links m =
    (if hs_remote_pass m \<noteq> None \<and> hs_remote_name m \<noteq> None \<and> hs_remote_sid m \<noteq> None \<and>
        hs_remote_svinfo m \<noteq> None \<and> hs_remote_capab m \<noteq> None
     then (case verify_credentials links m of
             Inl e \<Rightarrow> (m, Inl e)
           | Inr _ \<Rightarrow> (m\<lparr>hs_state := Bursting\<rparr>, Inr True))
     else (m, Inr False))"

definition sid_mismatch :: "server_id \<Rightarrow> server_id \<Rightarrow> handshake_error" where
  "sid_mismatch pass_sid server_sid =
    ProtocolError (''PASS/SERVER SID mismatch (PASS='' @ sid_str pass_sid @ '', SERVER='' @ sid_str server_sid @ '')'')"

text \<open>The \<open>match command\<close> both steps begin with; \<open>where_text\<close> is the state named in the error.\<close>

fun absorb ::
  "(s2s_command \<Rightarrow> string) \<Rightarrow> string \<Rightarrow> s2s_command \<Rightarrow> handshake_machine \<Rightarrow>
   handshake_machine \<times> handshake_error option" where
  "absorb dbg where_text (S2S_PASS _) m =
    (m, Some (ProtocolError ''S2S handshake requires TS6 PASS (PASS <password> TS 6 :<sid>)''))"
| "absorb dbg where_text (S2S_PassTs6 password sid) m =
    (let pass_sid = ServerId sid;
         m = m\<lparr>hs_remote_pass := Some password, hs_remote_sid_from_pass := Some pass_sid\<rparr>
     in case hs_remote_sid m of
          Some existing \<Rightarrow> if existing \<noteq> pass_sid then (m, Some (sid_mismatch pass_sid existing)) else (m, None)
        | None \<Rightarrow> (m\<lparr>hs_remote_sid := Some pass_sid\<rparr>, None))"
| "absorb dbg where_text (S2S_CAPAB caps) m = (m\<lparr>hs_remote_capab := Some caps\<rparr>, None)"
| "absorb dbg where_text (S2S_SVINFO v mi z t) m = (m\<lparr>hs_remote_svinfo := Some (v, mi, z, t)\<rparr>, None)"
| "absorb dbg where_text (S2S_SERVER name hopcount sid info) m =
    (let m = m\<lparr>hs_remote_name := Some name\<rparr>; server_sid = ServerId sid;
         accepted = m\<lparr>hs_remote_sid := Some server_sid, hs_remote_info := Some info\<rparr>
     in case hs_remote_sid_from_pass m of
          Some pass_sid \<Rightarrow>
            if pass_sid \<noteq> server_sid then (m, Some (sid_mismatch pass_sid server_sid)) else (accepted, None)
        | None \<Rightarrow> (accepted, None))"
| "absorb dbg where_text (S2S_CAP _ _ _ _) m = (m, None)"
| "absorb dbg where_text command m =
    (m, Some (ProtocolError (''Unexpected command in '' @ where_text @ '': '' @ dbg command)))"

definition handle_outbound_step ::
  "(s2s_command \<Rightarrow> string) \<Rightarrow> link_block list \<Rightarrow> s2s_command \<Rightarrow> handshake_machine \<Rightarrow>
   handshake_machine \<times> (handshake_error + s2s_command list)" where
  "handle_outbound_step dbg links command m =
    (case absorb dbg ''OutboundInitiated'' command m of
       (m, Some e) \<Rightarrow> (m, Inl e)
     | (m, None) \<Rightarrow>
         (case check_handshake_complete links m of
            (m, Inl e) \<Rightarrow> (m, Inl e)
          | (m, Inr _) \<Rightarrow> (m, Inr [])))"

text \<open>What a server sends to authenticate itself, in the order of both sides.\<close>

definition credentials :: "string \<Rightarrow> server_id \<Rightarrow> string \<Rightarrow> string \<Rightarrow> 64 word \<Rightarrow> s2s_command list" where
  "credentials password sid name desc now_secs =
    [S2S_PassTs6 password (sid_str sid), S2S_CAPAB SUPPORTED_CAPABS,
     S2S_SERVER name 1 (sid_str sid) desc, S2S_SVINFO 6 6 0 now_secs]"

definition handle_inbound_step ::
  "(s2s_command \<Rightarrow> string) \<Rightarrow> string + 64 word \<Rightarrow> link_block list \<Rightarrow> s2s_command \<Rightarrow> handshake_machine \<Rightarrow>
   handshake_machine \<times> (handshake_error + s2s_command list)" where
  "handle_inbound_step dbg clock links command m =
    (case absorb dbg ''InboundReceived'' command m of
       (m, Some e) \<Rightarrow> (m, Inl e)
     | (m, None) \<Rightarrow>
         (case check_handshake_complete links m of
            (m, Inl e) \<Rightarrow> (m, Inl e)
          | (m, Inr False) \<Rightarrow> (m, Inr [])
          | (m, Inr True) \<Rightarrow>
              (case verify_credentials links m of
                 Inl e \<Rightarrow> (m, Inl e)
               | Inr link \<Rightarrow>
                   (case clock of
                      Inl e \<Rightarrow> (m, Inl (ProtocolError (''system clock before UNIX_EPOCH: '' @ e)))
                    | Inr now_secs \<Rightarrow>
                        (m, Inr (credentials (lb_password link) (hs_local_sid m) (hs_local_name m)
                                   (hs_local_desc m) now_secs))))))"

definition step ::
  "(s2s_command \<Rightarrow> string) \<Rightarrow> string + 64 word \<Rightarrow> link_block list \<Rightarrow> s2s_command \<Rightarrow> handshake_machine \<Rightarrow>
   handshake_machine \<times> (handshake_error + s2s_command list)" where
  "step dbg clock links command m =
    (case hs_state m of
       Unconnected \<Rightarrow> (m, Inl InvalidStateTransition)
     | OutboundInitiated \<Rightarrow> handle_outbound_step dbg links command m
     | InboundReceived \<Rightarrow> handle_inbound_step dbg clock links command m
     | _ \<Rightarrow> (m, Inr []))"

subsection \<open>The loops of \<open>network.rs\<close>\<close>

datatype hs_input = HsLine nat "s2s_command option" | HsReadError

definition loop_error :: "string \<Rightarrow> string \<Rightarrow> s2s_command" where
  "loop_error name sid = S2S_ERROR (''Loop detected: '' @ name @ '' ('' @ sid @ '')'')"

fun loops_back :: "server_id list \<Rightarrow> s2s_command \<Rightarrow> s2s_command option" where
  "loops_back known (S2S_SERVER name hopcount sid info) =
    (if ServerId sid \<in> set known then Some (loop_error name sid) else None)"
| "loops_back known _ = None"

text \<open>
  The result is the machine, what was sent, and whether the handshake succeeded; \<open>known\<close> are the
  servers of the topology and \<open>limit\<close> the timeout, which only the inbound loop has.
\<close>

fun handshake_loop ::
  "(handshake_machine \<Rightarrow> s2s_command \<Rightarrow> handshake_machine \<times> (handshake_error + s2s_command list)) \<Rightarrow>
   nat option \<Rightarrow> server_id list \<Rightarrow> hs_input list \<Rightarrow> handshake_machine \<Rightarrow>
   handshake_machine \<times> s2s_command list \<times> bool" where
  "handshake_loop st limit known [] m = (m, [], False)"
| "handshake_loop st limit known (HsReadError # ins) m = (m, [], False)"
| "handshake_loop st limit known (HsLine elapsed parsed # ins) m =
    (if (case limit of Some l \<Rightarrow> elapsed > l | None \<Rightarrow> False) then (m, [S2S_ERROR ''Handshake timeout''], False)
     else case parsed of
       None \<Rightarrow> handshake_loop st limit known ins m
     | Some command \<Rightarrow>
         (case loops_back known command of
            Some err \<Rightarrow> (m, [err], False)
          | None \<Rightarrow>
              (case st m command of
                 (m, Inl e) \<Rightarrow> (m, [], False)
               | (m, Inr responses) \<Rightarrow>
                   if hs_state m = Bursting then (m, responses, True)
                   else (case handshake_loop st limit known ins m of
                           (m, sent, ok) \<Rightarrow> (m, responses @ sent, ok)))))"

definition inbound_loop ::
  "(s2s_command \<Rightarrow> string) \<Rightarrow> string + 64 word \<Rightarrow> link_block list \<Rightarrow> server_id list \<Rightarrow> server_id \<Rightarrow> string \<Rightarrow> string \<Rightarrow>
   hs_input list \<Rightarrow> handshake_machine \<times> s2s_command list \<times> bool" where
  "inbound_loop dbg clock links known sid name desc ins =
    handshake_loop (\<lambda>m c. step dbg clock links c m) (Some 60000) known ins
      (transition InboundReceived (handshake_new sid name desc))"

definition outbound_loop ::
  "(s2s_command \<Rightarrow> string) \<Rightarrow> string + 64 word \<Rightarrow> link_block \<Rightarrow> server_id list \<Rightarrow> server_id \<Rightarrow> string \<Rightarrow> string \<Rightarrow>
   hs_input list \<Rightarrow> handshake_machine \<times> s2s_command list \<times> bool" where
  "outbound_loop dbg clock config known sid name desc ins =
    handshake_loop (\<lambda>m c. step dbg clock [config] c m) None known ins
      (transition OutboundInitiated (handshake_new sid name desc))"

text \<open>The peer's SID once the handshake succeeded; an outbound link also checks the configured one.\<close>

definition inbound_peer :: "handshake_machine \<times> s2s_command list \<times> bool \<Rightarrow> server_id option" where
  "inbound_peer r = (case r of (m, _, ok) \<Rightarrow> if ok then hs_remote_sid m else None)"

definition outbound_peer :: "link_block \<Rightarrow> handshake_machine \<times> s2s_command list \<times> bool \<Rightarrow> server_id option" where
  "outbound_peer config r =
    (case r of (m, _, ok) \<Rightarrow>
       (case (if ok then hs_remote_sid m else None) of
          None \<Rightarrow> None
        | Some sid \<Rightarrow>
            (case lb_sid config of
               Some expected \<Rightarrow> if expected \<noteq> sid_str sid then None else Some sid
             | None \<Rightarrow> Some sid)))"

section \<open>Authentication\<close>

text \<open>What the machine stores was received: \<open>seen\<close> are the commands it took in.\<close>

definition hs_inv :: "s2s_command set \<Rightarrow> handshake_machine \<Rightarrow> bool" where
  "hs_inv seen m \<longleftrightarrow>
    (\<forall>pw. hs_remote_pass m = Some pw \<longrightarrow>
       (\<exists>sid. S2S_PassTs6 pw sid \<in> seen \<and> hs_remote_sid_from_pass m = Some (ServerId sid))) \<and>
    (\<forall>s. hs_remote_sid_from_pass m = Some s \<longrightarrow> hs_remote_sid m = Some s) \<and>
    (\<forall>n. hs_remote_name m = Some n \<longrightarrow>
       (\<exists>h s i. S2S_SERVER n h s i \<in> seen \<and> hs_remote_sid m = Some (ServerId s))) \<and>
    (\<forall>cs. hs_remote_capab m = Some cs \<longrightarrow> S2S_CAPAB cs \<in> seen) \<and>
    (\<forall>v mi z t. hs_remote_svinfo m = Some (v, mi, z, t) \<longrightarrow> S2S_SVINFO v mi z t \<in> seen)"

definition hs_complete :: "link_block list \<Rightarrow> handshake_machine \<Rightarrow> bool" where
  "hs_complete links m \<longleftrightarrow>
    hs_remote_pass m \<noteq> None \<and> hs_remote_name m \<noteq> None \<and> hs_remote_sid m \<noteq> None \<and>
    hs_remote_svinfo m \<noteq> None \<and> hs_remote_capab m \<noteq> None \<and>
    (\<exists>l. find (\<lambda>l. lb_name l = the (hs_remote_name m)) links = Some l \<and> hs_remote_pass m = Some (lb_password l))"

lemma hs_inv_mono: "hs_inv seen m \<Longrightarrow> seen \<subseteq> seen' \<Longrightarrow> hs_inv seen' m"
  unfolding hs_inv_def by (meson subset_iff)

lemma hs_inv_state [simp]: "hs_inv seen (m\<lparr>hs_state := s\<rparr>) = hs_inv seen m"
  by (simp add: hs_inv_def)

lemma hs_complete_state [simp]: "hs_complete links (m\<lparr>hs_state := s\<rparr>) = hs_complete links m"
  by (simp add: hs_complete_def)

lemma absorb_inv:
  assumes "absorb dbg w c m = (m', None)" "hs_inv seen m"
  shows "hs_inv (insert c seen) m' \<and> hs_state m' = hs_state m"
  using assms
  by (cases "(dbg, w, c, m)" rule: absorb.cases)
    ((auto simp: hs_inv_def Let_def split: option.splits if_splits)[1], blast?)+

lemma check_complete_iff:
  "check_handshake_complete links m = (m', Inr b) \<longleftrightarrow>
    (if b then hs_complete links m \<and> m' = m\<lparr>hs_state := Bursting\<rparr>
     else m' = m \<and> (hs_remote_pass m = None \<or> hs_remote_name m = None \<or> hs_remote_sid m = None \<or>
        hs_remote_svinfo m = None \<or> hs_remote_capab m = None))"
  by (cases "hs_remote_svinfo m"; auto simp: check_handshake_complete_def hs_complete_def verify_credentials_def
      split: option.splits if_splits)

lemma step_accepts:
  assumes "step dbg clock links c m = (m', Inr rs)" "hs_state m \<in> {InboundReceived, OutboundInitiated}"
    "hs_inv seen m"
  shows "hs_inv (insert c seen) m' \<and>
    (hs_state m' = Bursting \<and> hs_complete links m' \<or> hs_state m' = hs_state m)"
proof -
  obtain w m1 b where *: "absorb dbg w c m = (m1, None)" "check_handshake_complete links m1 = (m', Inr b)"
    using assms(1,2)
    by (auto simp: step_def handle_outbound_step_def handle_inbound_step_def
        split: prod.splits option.splits sum.splits bool.splits)
  then show ?thesis using absorb_inv [OF *(1) assms(3)] by (auto simp: check_complete_iff split: if_splits)
qed

definition lines_of :: "server_id list \<Rightarrow> hs_input list \<Rightarrow> s2s_command set" where
  "lines_of known ins = {c. (\<exists>t. HsLine t (Some c) \<in> set ins) \<and> loops_back known c = None}"

lemma lines_of_simps [simp]:
  "lines_of known [] = {}"
  "lines_of known (HsReadError # ins) = lines_of known ins"
  "lines_of known (HsLine t None # ins) = lines_of known ins"
  "lines_of known (HsLine t (Some c) # ins) =
    (if loops_back known c = None then insert c (lines_of known ins) else lines_of known ins)"
  by (auto simp: lines_of_def)

lemma handshake_loop_inv:
  assumes "handshake_loop (\<lambda>m c. step dbg clock links c m) limit known ins m = (m', out, True)"
    "hs_state m \<in> {InboundReceived, OutboundInitiated}" "hs_inv seen m"
  shows "hs_inv (seen \<union> lines_of known ins) m' \<and> hs_state m' = Bursting \<and> hs_complete links m'"
  using assms
proof (induction "\<lambda>m c. step dbg clock links c m" limit known ins m arbitrary: seen out
    rule: handshake_loop.induct)
  case (3 limit known elapsed parsed ins m)
  show ?case
  proof (cases parsed)
    case None
    with 3 show ?thesis by (auto split: if_splits)
  next
    case (Some c)
    with 3(3) obtain m1 rs where s: "step dbg clock links c m = (m1, Inr rs)" "loops_back known c = None"
      "\<not> (case limit of Some l \<Rightarrow> elapsed > l | None \<Rightarrow> False)"
      by (auto split: if_splits option.splits prod.splits sum.splits)
    note inv = step_accepts [OF s(1) 3(4,5)]
    show ?thesis
    proof (cases "hs_state m1 = Bursting")
      case True
      then have "m' = m1" using 3(3) Some s by auto
      then show ?thesis using inv True Some s(2) 3(4) by (auto elim: hs_inv_mono)
    next
      case False
      then obtain out' where "handshake_loop (\<lambda>m c. step dbg clock links c m) limit known ins m1 = (m', out', True)"
        using 3(3) Some s by (auto split: prod.splits)
      then have "hs_inv (insert c seen \<union> lines_of known ins) m' \<and> hs_state m' = Bursting \<and> hs_complete links m'"
        using inv False 3(4) by (intro 3(2) [OF s(3) Some s(2) s(1) [symmetric] refl False]) auto
      then show ?thesis using Some s(2) by simp
    qed
  qed
qed auto

text \<open>C6. No link without authentication: when either loop reports success, the peer sent a TS6
  \<open>PASS\<close>, \<open>CAPAB\<close>, \<open>SERVER\<close> and \<open>SVINFO\<close>; its \<open>PASS\<close> and \<open>SERVER\<close> name the same SID, which the topology does
  not have yet; and the password is that of the first link block with the announced name.
\<close>

theorem handshake_authenticates:
  assumes "inbound_loop dbg clock links known sid name desc ins = (m, out, True) \<or>
    (\<exists>config. links = [config] \<and> outbound_loop dbg clock config known sid name desc ins = (m, out, True))"
  shows "\<exists>l peer peer_name hop info caps v mi z t.
    {S2S_PassTs6 (lb_password l) peer, S2S_CAPAB caps, S2S_SERVER peer_name hop peer info, S2S_SVINFO v mi z t}
      \<subseteq> {c. \<exists>ms. HsLine ms (Some c) \<in> set ins} \<and>
    ServerId peer \<notin> set known \<and> find (\<lambda>l. lb_name l = peer_name) links = Some l \<and>
    hs_remote_sid m = Some (ServerId peer) \<and> hs_remote_name m = Some peer_name"
proof -
  have start: "hs_inv {} (transition s (handshake_new sid name desc))"
    "hs_state (transition s (handshake_new sid name desc)) = s" for s
    by (simp_all add: hs_inv_def transition_def handshake_new_def)
  have loop: "hs_inv (lines_of known ins) m \<and> hs_complete links m"
    if "handshake_loop (\<lambda>m c. step dbg clock links c m) limit known ins
      (transition s (handshake_new sid name desc)) = (m, out, True)" "s \<in> {InboundReceived, OutboundInitiated}"
    for limit s
    using handshake_loop_inv [OF that(1) _ start(1)] start(2) that(2) by simp
  have "hs_inv (lines_of known ins) m \<and> hs_complete links m"
    using assms
  proof (elim disjE exE conjE)
    assume "inbound_loop dbg clock links known sid name desc ins = (m, out, True)"
    then show ?thesis by (intro loop [of "Some 60000" InboundReceived]) (simp_all add: inbound_loop_def)
  next
    fix config
    assume "links = [config]" "outbound_loop dbg clock config known sid name desc ins = (m, out, True)"
    then show ?thesis by (intro loop [of None OutboundInitiated]) (simp_all add: outbound_loop_def)
  qed
  then have inv: "hs_inv (lines_of known ins) m" and "hs_complete links m" by auto
  then obtain l peer_name caps v mi z t where m: "hs_remote_name m = Some peer_name"
    "find (\<lambda>l. lb_name l = peer_name) links = Some l" "hs_remote_pass m = Some (lb_password l)"
    "hs_remote_capab m = Some caps" "hs_remote_svinfo m = Some (v, mi, z, t)"
    unfolding hs_complete_def by (metis not_None_eq option.sel prod_cases4)
  obtain peer where p: "S2S_PassTs6 (lb_password l) peer \<in> lines_of known ins"
    "hs_remote_sid_from_pass m = Some (ServerId peer)"
    using inv m(3) unfolding hs_inv_def by blast
  obtain h peer' i where "S2S_SERVER peer_name h peer' i \<in> lines_of known ins"
    "hs_remote_sid m = Some (ServerId peer')"
    using inv m(1) unfolding hs_inv_def by blast
  moreover have "hs_remote_sid m = Some (ServerId peer)" "S2S_CAPAB caps \<in> lines_of known ins"
    "S2S_SVINFO v mi z t \<in> lines_of known ins"
    using inv m(4,5) p(2) unfolding hs_inv_def by blast+
  moreover note m(1,2) p(1)
  ultimately show ?thesis unfolding lines_of_def
    by (intro exI [of _ l] exI [of _ peer] exI [of _ peer_name] exI [of _ h] exI [of _ i] exI [of _ caps]
        exI [of _ v] exI [of _ mi] exI [of _ z] exI [of _ t]) (simp split: if_splits)
qed

section \<open>Completion\<close>

datatype handshake_part = PassPart | CapabPart | ServerPart | SvinfoPart

fun part_of :: "s2s_command \<Rightarrow> handshake_part option" where
  "part_of (S2S_PassTs6 _ _) = Some PassPart"
| "part_of (S2S_CAPAB _) = Some CapabPart"
| "part_of (S2S_SERVER _ _ _ _) = Some ServerPart"
| "part_of (S2S_SVINFO _ _ _ _) = Some SvinfoPart"
| "part_of _ = None"

text \<open>The commands of a peer that announces one identity and one password.\<close>

fun honest :: "string \<Rightarrow> string \<Rightarrow> string \<Rightarrow> s2s_command \<Rightarrow> bool" where
  "honest pw sid name (S2S_PassTs6 p s) \<longleftrightarrow> p = pw \<and> s = sid"
| "honest pw sid name (S2S_SERVER n _ s _) \<longleftrightarrow> n = name \<and> s = sid"
| "honest pw sid name (S2S_CAPAB _) \<longleftrightarrow> True"
| "honest pw sid name (S2S_SVINFO _ _ _ _) \<longleftrightarrow> True"
| "honest pw sid name (S2S_CAP _ _ _ _) \<longleftrightarrow> True"
| "honest pw sid name _ \<longleftrightarrow> False"

fun has_part :: "handshake_machine \<Rightarrow> handshake_part \<Rightarrow> bool" where
  "has_part m PassPart \<longleftrightarrow> hs_remote_pass m \<noteq> None"
| "has_part m CapabPart \<longleftrightarrow> hs_remote_capab m \<noteq> None"
| "has_part m ServerPart \<longleftrightarrow> hs_remote_name m \<noteq> None"
| "has_part m SvinfoPart \<longleftrightarrow> hs_remote_svinfo m \<noteq> None"

definition stored :: "handshake_machine \<Rightarrow> handshake_part set" where
  "stored m = Collect (has_part m)"

lemma stored_UNIV: "stored m = UNIV \<longleftrightarrow> has_part m PassPart \<and> has_part m CapabPart \<and>
    has_part m ServerPart \<and> has_part m SvinfoPart"
  unfolding stored_def by (metis (full_types) UNIV_I handshake_part.exhaust mem_Collect_eq top.extremum_uniqueI subsetI)

lemma has_part_state [simp]: "has_part (m\<lparr>hs_state := s\<rparr>) p = has_part m p"
  by (cases p) simp_all

definition honest_state :: "string \<Rightarrow> string \<Rightarrow> string \<Rightarrow> handshake_machine \<Rightarrow> bool" where
  "honest_state pw sid name m \<longleftrightarrow>
    hs_remote_pass m \<in> {None, Some pw} \<and> hs_remote_name m \<in> {None, Some name} \<and>
    hs_remote_sid_from_pass m \<in> {None, Some (ServerId sid)} \<and> hs_remote_sid m \<in> {None, Some (ServerId sid)} \<and>
    (hs_remote_pass m \<noteq> None \<longrightarrow> hs_remote_sid m \<noteq> None)"

lemma all_parts: "(\<forall>p. P p) \<longleftrightarrow> P PassPart \<and> P CapabPart \<and> P ServerPart \<and> P SvinfoPart"
  by (metis handshake_part.exhaust)

lemma absorb_honest:
  assumes "honest pw sid name c" "honest_state pw sid name m"
  shows "\<exists>m'. absorb dbg w c m = (m', None) \<and> honest_state pw sid name m' \<and> hs_state m' = hs_state m \<and>
    stored m' = stored m \<union> set_option (part_of c)"
proof -
  obtain m' where m': "absorb dbg w c m = (m', None)" "honest_state pw sid name m'" "hs_state m' = hs_state m"
    "\<forall>p. has_part m' p \<longleftrightarrow> has_part m p \<or> part_of c = Some p"
  proof (cases c)
    case (S2S_PassTs6 p s)
    then show ?thesis using assms that
      by (auto simp: honest_state_def Let_def all_parts split: option.splits)
  next
    case (S2S_SERVER n h s i)
    then show ?thesis using assms that
      by (auto simp: honest_state_def Let_def all_parts split: option.splits)
  qed (use assms that in \<open>auto simp: honest_state_def all_parts\<close>)
  then show ?thesis by (intro exI [of _ m']) (auto simp: stored_def)
qed

lemma check_honest:
  assumes "honest_state (lb_password l) sid name m" "find (\<lambda>l. lb_name l = name) links = Some l"
  shows "check_handshake_complete links m =
    (if stored m = UNIV then (m\<lparr>hs_state := Bursting\<rparr>, Inr True) else (m, Inr False))"
  using assms
  by (auto simp: stored_UNIV check_handshake_complete_def verify_credentials_def honest_state_def split: option.split)

lemma stored_state [simp]:
  "stored (m\<lparr>hs_state := s\<rparr>) = stored m"
  "honest_state pw sid name (m\<lparr>hs_state := s\<rparr>) = honest_state pw sid name m"
  by (auto simp: stored_def honest_state_def)

lemma step_honest:
  assumes "honest (lb_password l) sid name c" "honest_state (lb_password l) sid name m"
    "find (\<lambda>l. lb_name l = name) links = Some l" "hs_state m \<in> {InboundReceived, OutboundInitiated}"
  shows "\<exists>m' rs. step dbg (Inr now) links c m = (m', Inr rs) \<and> honest_state (lb_password l) sid name m' \<and>
    stored m' = stored m \<union> set_option (part_of c) \<and>
    hs_state m' = (if stored m' = UNIV then Bursting else hs_state m)"
proof -
  define w where "w = (if hs_state m = InboundReceived then ''InboundReceived'' else ''OutboundInitiated'')"
  obtain m1 where m1: "absorb dbg w c m = (m1, None)" "honest_state (lb_password l) sid name m1"
    "hs_state m1 = hs_state m" "stored m1 = stored m \<union> set_option (part_of c)"
    using absorb_honest [OF assms(1,2)] by blast
  have v: "verify_credentials links (m1\<lparr>hs_state := s\<rparr>) = Inr l" if "stored m1 = UNIV" for s
  proof -
    have "PassPart \<in> stored m1" "ServerPart \<in> stored m1" using that by simp_all
    then show ?thesis using m1(2) assms(3) by (auto simp: verify_credentials_def honest_state_def stored_def)
  qed
  let ?m = "if stored m1 = UNIV then m1\<lparr>hs_state := Bursting\<rparr> else m1"
  have "\<exists>rs. step dbg (Inr now) links c m = (?m, Inr rs)"
    using m1(1) assms(4) w_def v check_honest [OF m1(2) assms(3)]
    by (cases "stored m1 = UNIV") (auto simp: step_def handle_outbound_step_def handle_inbound_step_def)
  moreover have "honest_state (lb_password l) sid name ?m" "stored ?m = stored m \<union> set_option (part_of c)"
    "hs_state ?m = (if stored ?m = UNIV then Bursting else hs_state m)"
    using m1 by simp_all
  ultimately show ?thesis by blast
qed

lemma handshake_loop_honest:
  assumes "\<forall>i\<in>set ins. \<exists>t p. i = HsLine t p \<and> (\<forall>l. limit = Some l \<longrightarrow> t \<le> l) \<and>
      (\<forall>c. p = Some c \<longrightarrow> honest (lb_password l) sid name c)"
    "honest_state (lb_password l) sid name m" "find (\<lambda>l. lb_name l = name) links = Some l"
    "hs_state m \<in> {InboundReceived, OutboundInitiated}" "ServerId sid \<notin> set known" "stored m \<noteq> UNIV"
  shows "snd (snd (handshake_loop (\<lambda>m c. step dbg (Inr now) links c m) limit known ins m)) \<longleftrightarrow>
    (\<forall>part. part \<in> stored m \<or> (\<exists>t c. HsLine t (Some c) \<in> set ins \<and> part_of c = Some part))"
  using assms
proof (induction ins arbitrary: m)
  case Nil
  then show ?case by auto
next
  case (Cons i ins)
  then obtain t p where i: "i = HsLine t p" "\<forall>l. limit = Some l \<longrightarrow> t \<le> l"
    "\<forall>c. p = Some c \<longrightarrow> honest (lb_password l) sid name c" by auto
  show ?case
  proof (cases p)
    case None
    have "snd (snd (handshake_loop (\<lambda>m c. step dbg (Inr now) links c m) limit known ins m)) \<longleftrightarrow>
        (\<forall>part. part \<in> stored m \<or> (\<exists>t c. HsLine t (Some c) \<in> set ins \<and> part_of c = Some part))"
      using Cons.prems by (intro Cons.IH) auto
    then show ?thesis using i None by (auto split: option.split)
  next
    case (Some c)
    then have h: "honest (lb_password l) sid name c" using i by simp
    then have nl: "loops_back known c = None" using Cons.prems(5) by (cases c) auto
    obtain m' rs where m': "step dbg (Inr now) links c m = (m', Inr rs)" "honest_state (lb_password l) sid name m'"
      "stored m' = stored m \<union> set_option (part_of c)" "hs_state m' = (if stored m' = UNIV then Bursting else hs_state m)"
      using step_honest [OF h Cons.prems(2-4)] by blast
    have parts: "(part \<in> stored m \<or> (\<exists>t c. HsLine t (Some c) \<in> set (i # ins) \<and> part_of c = Some part)) \<longleftrightarrow>
        (part \<in> stored m' \<or> (\<exists>t c. HsLine t (Some c) \<in> set ins \<and> part_of c = Some part))" for part
      using i(1) Some m'(3) by auto
    have limit: "\<not> (case limit of Some l \<Rightarrow> t > l | None \<Rightarrow> False)" using i(2) by (auto split: option.split)
    show ?thesis
    proof (cases "stored m' = UNIV")
      case True
      then show ?thesis unfolding parts using i Some nl m' limit by simp
    next
      case False
      have "snd (snd (handshake_loop (\<lambda>m c. step dbg (Inr now) links c m) limit known ins m')) \<longleftrightarrow>
        (\<forall>part. part \<in> stored m' \<or> (\<exists>t c. HsLine t (Some c) \<in> set ins \<and> part_of c = Some part))"
        using Cons.prems m' False by (intro Cons.IH) auto
      then show ?thesis unfolding parts using i Some nl m' limit False Cons.prems(4)
        by (auto simp: prod.case_eq_if)
    qed
  qed
qed

lemma honest_start:
  "honest_state pw sid name (transition s (handshake_new l n d))" "stored (transition s (handshake_new l n d)) = {}"
  "hs_state (transition s (handshake_new l n d)) = s"
  by (simp_all add: honest_state_def stored_def all_parts transition_def handshake_new_def flip: all_not_in_conv)

text \<open>C23. An honest peer gets its link: when it announces the name of a configured block with the
  block's password and one SID the topology does not have yet, sends no other command, and each line
  arrives within the sixty seconds, then the inbound handshake succeeds exactly when all four parts
  arrived.  The code takes the parts in whatever order, repeated or mixed with lines that do not
  parse, although the protocol document gives them a fixed sequence of states.
\<close>

theorem handshake_completes:
  assumes "find (\<lambda>l. lb_name l = peer_name) links = Some l" "ServerId peer \<notin> set known"
    "\<forall>i\<in>set ins. \<exists>t p. i = HsLine t p \<and> t \<le> 60000 \<and> (\<forall>c. p = Some c \<longrightarrow> honest (lb_password l) peer peer_name c)"
  shows "snd (snd (inbound_loop dbg (Inr now) links known sid name desc ins)) \<longleftrightarrow>
    (\<forall>part. \<exists>t c. HsLine t (Some c) \<in> set ins \<and> part_of c = Some part)"
  unfolding inbound_loop_def
  using handshake_loop_honest [of ins "Some 60000" l peer peer_name _ links known, OF _ honest_start(1)
      assms(1) _ assms(2)] assms(3)
  by (simp add: honest_start)

definition sample_block :: link_block where
  "sample_block = \<lparr>lb_name = ''hub.example'', lb_password = ''secret'', lb_sid = None\<rparr>"

definition sample_lines :: "hs_input list" where
  "sample_lines = map (\<lambda>c. HsLine 5 (Some c)) (credentials ''secret'' (ServerId ''00B'') ''hub.example'' ''Hub'' 7)"

lemma sample_lines_honest:
  "\<forall>i\<in>set sample_lines. \<exists>t p. i = HsLine t p \<and> t \<le> 60000 \<and>
     (\<forall>c. p = Some c \<longrightarrow> honest (lb_password sample_block) ''00B'' ''hub.example'' c)"
  by (simp add: sample_lines_def sample_block_def credentials_def)

lemma sample_lines_parts: "\<exists>t c. HsLine t (Some c) \<in> set sample_lines \<and> part_of c = Some part"
proof -
  have "\<exists>c\<in>set (credentials ''secret'' (ServerId ''00B'') ''hub.example'' ''Hub'' 7). part_of c = Some part"
    by (cases part) (simp_all add: credentials_def)
  then obtain c where "c \<in> set (credentials ''secret'' (ServerId ''00B'') ''hub.example'' ''Hub'' 7)"
    "part_of c = Some part" by blast
  then have "HsLine 5 (Some c) \<in> set sample_lines \<and> part_of c = Some part"
    unfolding sample_lines_def set_map by (intro conjI imageI) simp_all
  then show ?thesis by blast
qed

lemma sample_block_found: "find (\<lambda>l. lb_name l = ''hub.example'') [sample_block] = Some sample_block"
  by (simp add: sample_block_def)

theorem handshake_completes_witness:
  "snd (snd (inbound_loop (\<lambda>_. []) (Inr 9) [sample_block] [] (ServerId ''00A'') ''a'' ''d'' sample_lines))"
  unfolding handshake_completes [of _ "[sample_block]", OF sample_block_found, of "''00B''" "[]", simplified,
      OF sample_lines_honest [simplified]]
  using sample_lines_parts by blast

lemma sample_handshake:
  "snd (snd (inbound_loop (\<lambda>_. []) (Inr 9) [sample_block] [] (ServerId ''00A'') ''a'' ''d'' sample_lines))"
proof -
  have "\<forall>i\<in>set sample_lines. \<exists>t p. i = HsLine t p \<and> (\<forall>l. Some (60000::nat) = Some l \<longrightarrow> t \<le> l) \<and>
      (\<forall>c. p = Some c \<longrightarrow> honest (lb_password sample_block) ''00B'' ''hub.example'' c)"
    using sample_lines_honest by blast
  note * = handshake_loop_honest [OF this honest_start(1) sample_block_found, where known = "[]", unfolded honest_start]
  show ?thesis unfolding inbound_loop_def by (subst *) (use sample_lines_parts in simp_all)
qed

theorem handshake_authenticates_witness:
  "hs_remote_name (fst (inbound_loop (\<lambda>_. []) (Inr 9) [sample_block] [] (ServerId ''00A'') ''a'' ''d'' sample_lines)) =
     Some ''hub.example''"
proof -
  obtain m out where r: "inbound_loop (\<lambda>_. []) (Inr 9) [sample_block] [] (ServerId ''00A'') ''a'' ''d'' sample_lines
      = (m, out, True)"
    using sample_handshake by (metis prod.collapse)
  from handshake_authenticates [OF disjI1 [OF r]] have "hs_remote_name m = Some ''hub.example''"
    by (elim exE conjE) (simp add: sample_block_def split: if_splits)
  then show ?thesis unfolding r by simp
qed

section \<open>Both ends\<close>

definition delivered :: "s2s_command list \<Rightarrow> hs_input list" where
  "delivered cs = map (\<lambda>c. HsLine 0 (Some c)) cs"

definition block_accepts :: "link_block list \<Rightarrow> string \<Rightarrow> string \<Rightarrow> bool" where
  "block_accepts links name pw \<longleftrightarrow>
    (\<exists>l. find (\<lambda>l. lb_name l = name) links = Some l \<and> lb_password l = pw)"

lemma verify_accepts:
  assumes "hs_remote_name m = Some name" "hs_remote_pass m = Some pw"
  shows "(\<exists>l. verify_credentials links m = Inr l \<and> lb_password l = pw) \<longleftrightarrow> block_accepts links name pw"
    "\<not> block_accepts links name pw \<Longrightarrow> \<exists>e. verify_credentials links m = Inl e"
  using assms by (auto simp: verify_credentials_def block_accepts_def split: option.split)

definition introduced ::
  "handshake_state \<Rightarrow> server_id \<Rightarrow> string \<Rightarrow> string \<Rightarrow> string \<Rightarrow> server_id \<Rightarrow> string \<Rightarrow> string \<Rightarrow> handshake_machine" where
  "introduced s sid name desc pw server peer info =
    \<lparr>hs_state = s, hs_remote_name = Some peer, hs_remote_pass = Some pw, hs_remote_sid = Some server,
     hs_remote_sid_from_pass = Some server, hs_remote_info = Some info, hs_remote_capab = Some SUPPORTED_CAPABS,
     hs_remote_svinfo = None, hs_local_sid = sid, hs_local_name = name, hs_local_desc = desc\<rparr>"

lemma loop_credentials:
  assumes "s \<in> {InboundReceived, OutboundInitiated}"
  shows "handshake_loop (\<lambda>m c. step dbg clock links c m) limit known (delivered (credentials pw server peer info now))
      (transition s (handshake_new sid name desc)) =
    (if server \<in> set known then
       ((introduced s sid name desc pw server peer info)\<lparr>hs_remote_name := None, hs_remote_info := None\<rparr>,
        [loop_error peer (sid_str server)], False)
     else handshake_loop (\<lambda>m c. step dbg clock links c m) limit known (delivered [S2S_SVINFO 6 6 0 now])
       (introduced s sid name desc pw server peer info))"
  using assms
  by (auto simp: introduced_def delivered_def credentials_def step_def handle_inbound_step_def Let_def
      handle_outbound_step_def check_handshake_complete_def transition_def handshake_new_def
      split: option.split)

lemma inbound_credentials:
  "inbound_loop dbg (Inr now) links known sid name desc (delivered (credentials pw server peer info t)) =
    (if server \<in> set known then
       ((introduced InboundReceived sid name desc pw server peer info)\<lparr>hs_remote_name := None, hs_remote_info := None\<rparr>,
        [loop_error peer (sid_str server)], False)
     else if block_accepts links peer pw then
       ((introduced InboundReceived sid name desc pw server peer info)
          \<lparr>hs_remote_svinfo := Some (6, 6, 0, t), hs_state := Bursting\<rparr>, credentials pw sid name desc now, True)
     else ((introduced InboundReceived sid name desc pw server peer info)\<lparr>hs_remote_svinfo := Some (6, 6, 0, t)\<rparr>,
       [], False))"
  unfolding inbound_loop_def loop_credentials [of InboundReceived, simplified]
  by (auto simp: delivered_def introduced_def step_def handle_inbound_step_def check_handshake_complete_def
      verify_credentials_def block_accepts_def split: option.split)

lemma outbound_credentials:
  "outbound_loop dbg clock config known sid name desc (delivered (credentials pw server peer info t)) =
    (if server \<in> set known then
       ((introduced OutboundInitiated sid name desc pw server peer info)\<lparr>hs_remote_name := None, hs_remote_info := None\<rparr>,
        [loop_error peer (sid_str server)], False)
     else ((introduced OutboundInitiated sid name desc pw server peer info)\<lparr>hs_remote_svinfo := Some (6, 6, 0, t),
         hs_state := (if block_accepts [config] peer pw then Bursting else OutboundInitiated)\<rparr>,
       [], block_accepts [config] peer pw))"
  unfolding outbound_loop_def loop_credentials [of OutboundInitiated, simplified]
  by (auto simp: delivered_def introduced_def step_def handle_outbound_step_def check_handshake_complete_def
      verify_credentials_def block_accepts_def split: option.split)

text \<open>C24. The two ends of a link: let a server open a connection from its link block \<open>config\<close> and send
  its credentials, and let the other end answer.  The acceptor takes the caller as its peer exactly
  when it does not know the caller's SID and its first block for the caller's name has the password of
  \<open>config\<close>.  The caller takes the acceptor as its peer exactly when moreover it does not know the
  acceptor's SID, \<open>config\<close> carries the acceptor's name, and the SID of \<open>config\<close>, if it has one, is the
  acceptor's.  Each side that has a peer has recorded the other's SID and name.  The acceptor can thus
  hold a link that the caller refuses.
\<close>

theorem handshake_agreement:
  fixes config links known_a known_b a_sid b_sid a_name b_name a_desc b_desc dbg clock t now
  defines "b \<equiv> inbound_loop dbg (Inr now) links known_b b_sid b_name b_desc
      (delivered (credentials (lb_password config) a_sid a_name a_desc t))"
  defines "a \<equiv> outbound_loop dbg clock config known_a a_sid a_name a_desc (delivered (fst (snd b)))"
  defines "accepts \<equiv> a_sid \<notin> set known_b \<and>
      (\<exists>l. find (\<lambda>l. lb_name l = a_name) links = Some l \<and> lb_password l = lb_password config)"
  shows "inbound_peer b = (if accepts then Some a_sid else None) \<and>
    outbound_peer config a =
      (if accepts \<and> b_sid \<notin> set known_a \<and> lb_name config = b_name \<and>
          (lb_sid config = None \<or> lb_sid config = Some (sid_str b_sid)) then Some b_sid else None) \<and>
    (inbound_peer b = None \<or> hs_remote_name (fst b) = Some a_name) \<and>
    (outbound_peer config a = None \<or> hs_remote_name (fst a) = Some b_name)"
proof (cases accepts)
  case True
  then have acc: "a_sid \<notin> set known_b" "block_accepts links a_name (lb_password config)"
    by (simp_all add: accepts_def block_accepts_def)
  then have b: "fst (snd b) = credentials (lb_password config) b_sid b_name b_desc now" "snd (snd b)"
    "hs_remote_sid (fst b) = Some a_sid" "hs_remote_name (fst b) = Some a_name"
    unfolding b_def inbound_credentials by (simp_all add: introduced_def)
  have "block_accepts [config] b_name (lb_password config) \<longleftrightarrow> lb_name config = b_name"
    by (simp add: block_accepts_def)
  then show ?thesis using True b(2-4) unfolding a_def b(1) outbound_credentials
    by (auto simp: introduced_def inbound_peer_def outbound_peer_def prod.case_eq_if split: option.split)
next
  case False
  then have b: "\<not> snd (snd b)" "fst (snd b) = [] \<or> fst (snd b) = [loop_error a_name (sid_str a_sid)]"
    unfolding b_def inbound_credentials accepts_def block_accepts_def by auto
  then have "\<not> snd (snd a)"
    unfolding a_def outbound_loop_def
    by (auto simp: delivered_def loop_error_def step_def handle_outbound_step_def transition_def
        handshake_new_def)
  then show ?thesis using False b(1) by (simp add: inbound_peer_def outbound_peer_def prod.case_eq_if)
qed

end
