(* ===== verification/Topology.thy ===== *)
theory Topology
  imports Handshake Proto_Text Text_Util
begin

text \<open>
  \<open>src/sync/topology.rs\<close>, the spanning tree of servers; the routing half of \<open>src/sync/manager.rs\<close>; the
  \<open>SID\<close> and \<open>SERVER\<close> handlers of \<open>src/handlers/server/\<close>, which grow the tree, and the servers a burst
  announces (\<open>src/sync/burst.rs\<close>).  Hash maps are association lists; the stack \<open>to_process\<close> has its
  top at the head; instants are milliseconds.
\<close>

section \<open>Definitions\<close>

record server_info =
  si_sid :: server_id
  si_name :: string
  si_info :: string
  si_hopcount :: "32 word"
  si_via :: "server_id option"

type_synonym topology_graph = "(server_id \<times> server_info) list"

definition topology_new :: topology_graph where
  "topology_new = []"

definition add_server ::
  "server_id \<Rightarrow> string \<Rightarrow> string \<Rightarrow> 32 word \<Rightarrow> server_id option \<Rightarrow> topology_graph \<Rightarrow> topology_graph" where
  "add_server sid name info hopcount via g =
    AList.update sid \<lparr>si_sid = sid, si_name = name, si_info = info, si_hopcount = hopcount, si_via = via\<rparr> g"

definition get_route :: "topology_graph \<Rightarrow> server_id \<Rightarrow> server_id option" where
  "get_route g target = Option.bind (map_of g target) si_via"

text \<open>The servers pushed when \<open>current\<close> is visited, the last one on top.\<close>

definition routed_via :: "topology_graph \<Rightarrow> server_id \<Rightarrow> server_id list \<Rightarrow> server_id list" where
  "routed_via g current processed =
    rev (map si_sid (filter (\<lambda>i. si_via i = Some current \<and> si_sid i \<notin> set processed) (map snd g)))"

function downstream_loop ::
  "topology_graph \<Rightarrow> server_id list \<Rightarrow> server_id list \<Rightarrow> server_id list \<Rightarrow> server_id list" where
  "downstream_loop g [] processed acc = acc"
| "downstream_loop g (current # to_process) processed acc =
    (if current \<in> set processed then downstream_loop g to_process processed acc
     else downstream_loop g (routed_via g current (current # processed) @ to_process)
       (current # processed) (acc @ [current]))"
  by pat_completeness auto
termination
proof (relation "inv_image (finite_psubset <*lex*> less_than)
    (\<lambda>(g, to_process, processed, acc). ((si_sid ` snd ` set g \<union> set to_process) - set processed, length to_process))",
    goal_cases)
  case 1
  show ?case by (intro wf_inv_image wf_lex_prod wf_finite_psubset wf_less_than)
next
  case (2 g current to_process processed acc)
  then show ?case by (auto simp: finite_psubset_def)
next
  case (3 g current to_process processed acc)
  then show ?case by (auto simp: finite_psubset_def routed_via_def)
qed

definition get_downstream_sids :: "topology_graph \<Rightarrow> server_id \<Rightarrow> server_id list" where
  "get_downstream_sids g target_sid = downstream_loop g [target_sid] [] []"

definition remove_servers :: "server_id list \<Rightarrow> topology_graph \<Rightarrow> topology_graph" where
  "remove_servers sids g = fold AList.delete sids g"

subsection \<open>Links and routing\<close>

record link_state =
  lk_tx :: nat
  lk_state :: handshake_state
  lk_name :: string
  lk_last_pong :: nat
  lk_last_ping :: nat
  lk_connected_at :: nat

record sync_manager =
  sm_local_id :: server_id
  sm_local_name :: string
  sm_links :: "(server_id \<times> link_state) list"
  sm_topology :: topology_graph

function next_hop_loop ::
  "(server_id \<times> link_state) list \<Rightarrow> topology_graph \<Rightarrow> server_id \<Rightarrow> server_id list \<Rightarrow> link_state option" where
  "next_hop_loop links g current visited =
    (case map_of links current of
       Some link \<Rightarrow> Some link
     | None \<Rightarrow>
         if current \<in> set visited then None
         else (case get_route g current of
                 None \<Rightarrow> None
               | Some parent \<Rightarrow> next_hop_loop links g parent (current # visited)))"
  by pat_completeness auto
termination
proof (relation "measure (\<lambda>(links, g, current, visited). card (fst ` set g - set visited))", goal_cases)
  case (2 links g current visited parent)
  then have "current \<in> fst ` set g - set visited"
    by (auto simp: get_route_def bind_eq_Some_conv dest: map_of_SomeD intro: rev_image_eqI)
  then have "fst ` set g - set (current # visited) \<subset> fst ` set g - set visited" by auto
  then show ?case by (simp only: in_measure case_prod_conv) (intro psubset_card_mono; simp)
qed simp

declare next_hop_loop.simps [simp del]

definition get_next_hop :: "sync_manager \<Rightarrow> server_id \<Rightarrow> link_state option" where
  "get_next_hop sm target = next_hop_loop (sm_links sm) (sm_topology sm) target []"

definition get_peer_for_server :: "sync_manager \<Rightarrow> server_id \<Rightarrow> link_state option" where
  "get_peer_for_server sm sid = map_of (sm_links sm) sid"

definition new_link :: "nat \<Rightarrow> nat \<Rightarrow> string \<Rightarrow> link_state" where
  "new_link now tx name =
    \<lparr>lk_tx = tx, lk_state = Synced, lk_name = name, lk_last_pong = now, lk_last_ping = now, lk_connected_at = now\<rparr>"

definition register_peer ::
  "nat \<Rightarrow> nat \<Rightarrow> server_id \<Rightarrow> string \<Rightarrow> 32 word \<Rightarrow> string \<Rightarrow> sync_manager \<Rightarrow> sync_manager" where
  "register_peer now tx sid name hopcount info sm =
    sm\<lparr>sm_links := AList.update sid (new_link now tx name) (sm_links sm),
       sm_topology := add_server sid name info hopcount (Some sid) (sm_topology sm)\<rparr>"

text \<open>What the two loops of \<open>network.rs\<close> do once a handshake succeeded.\<close>

definition establish_link :: "nat \<Rightarrow> nat \<Rightarrow> handshake_machine \<Rightarrow> server_id \<Rightarrow> sync_manager \<Rightarrow> sync_manager" where
  "establish_link now tx m remote_sid sm =
    (let name = (case hs_remote_name m of Some n \<Rightarrow> n | None \<Rightarrow> []);
         info = (case hs_remote_info m of Some i \<Rightarrow> i | None \<Rightarrow> [])
     in sm\<lparr>sm_links := AList.update remote_sid (new_link now tx name) (sm_links sm),
           sm_topology := add_server remote_sid name info 1 (Some (sm_local_id sm)) (sm_topology sm)\<rparr>)"

definition remove_peer :: "server_id \<Rightarrow> sync_manager \<Rightarrow> sync_manager" where
  "remove_peer sid sm = sm\<lparr>sm_links := AList.delete sid (sm_links sm)\<rparr>"

text \<open>The peers a broadcast reaches: every link but the source.\<close>

definition broadcast_peers :: "sync_manager \<Rightarrow> server_id option \<Rightarrow> nat list" where
  "broadcast_peers sm source =
    map (lk_tx \<circ> snd) (filter (\<lambda>(sid, _). source \<noteq> Some sid) (sm_links sm))"

text \<open>
  \<open>route_to_remote_user\<close>: the outcome is the link the message is sent on, or \<open>None\<close>; slicing the
  first three bytes panics inside a character, which is the \<open>Inl\<close> case.
\<close>

definition route_to_remote_user :: "sync_manager \<Rightarrow> string \<Rightarrow> unit + nat option" where
  "route_to_remote_user sm target_uid =
    (if length target_uid < 3 then Inr None
     else if \<not> is_char_boundary target_uid 3 then Inl ()
     else let target_sid = ServerId (take 3 target_uid) in
       if target_sid = sm_local_id sm then Inr None
       else Inr (map_option lk_tx (get_next_hop sm target_sid)))"

text \<open>One tick of the heartbeat: peers silent for more than 90 seconds lose their link, the others are pinged.\<close>

definition heartbeat_tick :: "nat \<Rightarrow> sync_manager \<Rightarrow> sync_manager \<times> (nat \<times> s2s_command) list" where
  "heartbeat_tick now sm =
    (let peers_to_drop = map fst (filter (\<lambda>(_, l). now - lk_last_pong l > 90000) (sm_links sm));
         peers_to_ping = map fst (filter (\<lambda>(_, l). \<not> now - lk_last_pong l > 90000) (sm_links sm));
         links = fold AList.delete peers_to_drop (sm_links sm)
     in (sm\<lparr>sm_links := map (\<lambda>(s, l). (s, if s \<in> set peers_to_ping then l\<lparr>lk_last_ping := now\<rparr> else l)) links\<rparr>,
         List.map_filter (\<lambda>sid. map_option (\<lambda>l. (lk_tx l, S2S_PING (sid_str (sm_local_id sm)))) (map_of links sid))
           peers_to_ping))"

subsection \<open>Servers learned from peers\<close>

definition extract_source_sid :: "prefix_ref option \<Rightarrow> server_id option" where
  "extract_source_sid prefix =
    map_option (\<lambda>p. ServerId (if prefix_ref_is_server p then takeWhile (\<lambda>c. c \<noteq> CHR ''.'') (pr_raw p) else pr_raw p)) prefix"

datatype handler_error = NeedMoreParams | HandlerProtocolError string

definition arg :: "string list \<Rightarrow> nat \<Rightarrow> string option" where
  "arg args i = (if i < length args then Some (args ! i) else None)"

definition sid_handler ::
  "string \<Rightarrow> prefix_ref option \<Rightarrow> string list \<Rightarrow> sync_manager \<Rightarrow> handler_error + sync_manager" where
  "sid_handler peer_sid prefix args sm =
    (case arg args 0 of None \<Rightarrow> Inl NeedMoreParams
     | Some name \<Rightarrow> (case arg args 1 of None \<Rightarrow> Inl NeedMoreParams
       | Some hopcount_str \<Rightarrow> (case arg args 2 of None \<Rightarrow> Inl NeedMoreParams
         | Some sid_text \<Rightarrow>
             let info_str = (case arg args 3 of Some i \<Rightarrow> i | None \<Rightarrow> []) in
             (case parse_uint (2 ^ 32 - 1) hopcount_str of
                None \<Rightarrow> Inl (HandlerProtocolError (''Invalid hopcount: '' @ hopcount_str))
              | Some hopcount \<Rightarrow>
                  let via = (case extract_source_sid prefix of Some v \<Rightarrow> v | None \<Rightarrow> ServerId peer_sid) in
                  Inr (sm\<lparr>sm_topology := add_server (ServerId sid_text) name info_str (of_nat hopcount) (Some via)
                          (sm_topology sm)\<rparr>)))))"

definition server_propagation_handler ::
  "string \<Rightarrow> prefix_ref option \<Rightarrow> string list \<Rightarrow> sync_manager \<Rightarrow>
   handler_error + (sync_manager \<times> (nat \<times> s2s_command) list)" where
  "server_propagation_handler peer_sid prefix args sm =
    (case arg args 0 of None \<Rightarrow> Inl NeedMoreParams
     | Some name \<Rightarrow> (case Option.bind (arg args 1) (parse_uint (2 ^ 32 - 1)) of None \<Rightarrow> Inl NeedMoreParams
       | Some hopcount \<Rightarrow> (case arg args 2 of None \<Rightarrow> Inl NeedMoreParams
         | Some sid_text \<Rightarrow>
             let info = (case arg args 3 of Some i \<Rightarrow> i | None \<Rightarrow> []) in
             if ServerId sid_text \<in> fst ` set (sm_topology sm) then Inr (sm, [])
             else let uplink = (case extract_source_sid prefix of Some v \<Rightarrow> v | None \<Rightarrow> ServerId peer_sid);
                      sm = sm\<lparr>sm_topology := add_server (ServerId sid_text) name info (of_nat hopcount) (Some uplink)
                                (sm_topology sm)\<rparr>
                  in Inr (sm, map (\<lambda>tx. (tx, S2S_SERVER name (of_nat hopcount + 1) sid_text info))
                                (broadcast_peers sm (Some (ServerId peer_sid)))))))"

definition burst_servers :: "sync_manager \<Rightarrow> string \<Rightarrow> s2s_command list" where
  "burst_servers sm local_sid =
    map (\<lambda>i. S2S_SID (si_name i) (show_nat (unat (si_hopcount i + 1))) (sid_str (si_sid i)) (si_info i))
      (filter (\<lambda>i. sid_str (si_sid i) \<noteq> local_sid) (map snd (sm_topology sm)))"

section \<open>Reachability\<close>

text \<open>The edges from an uplink to the servers behind it.\<close>

definition links_down :: "topology_graph \<Rightarrow> (server_id \<times> server_id) set" where
  "links_down g = {(via, si_sid i) | via i. i \<in> snd ` set g \<and> si_via i = Some via}"

lemma set_routed_via: "set (routed_via g c ps) = {s. (c, s) \<in> links_down g \<and> s \<notin> set ps}"
  by (force simp: routed_via_def links_down_def)

text \<open>
  The depth-first search: what is on the stack or reachable from it without passing through
  \<open>processed\<close> is what the loop adds.  As in the search over a graph, everything a processed server
  leads to is processed or on the stack.
\<close>

lemma downstream_loop_set:
  assumes "links_down g `` set ps \<subseteq> set ps \<union> set st" "set acc = set ps"
  shows "set (downstream_loop g st ps acc) = (links_down g)\<^sup>* `` (set st \<union> set ps)"
  using assms
proof (induction g st ps acc rule: downstream_loop.induct)
  case (1 g ps acc)
  then have "links_down g `` set ps \<subseteq> set ps" by simp
  then have "(links_down g)\<^sup>* `` set ps = set ps" by (rule Image_closed_trancl)
  then show ?case using 1(2) by simp
next
  case (2 g c st ps acc)
  show ?case
  proof (cases "c \<in> set ps")
    case True
    then have "set st \<union> set ps = set (c # st) \<union> set ps" by auto
    then show ?thesis using 2(1,3,4) True by (auto simp del: Un_iff)
  next
    case False
    let ?st = "routed_via g c (c # ps) @ st"
    have *: "set (downstream_loop g ?st (c # ps) (acc @ [c])) = (links_down g)\<^sup>* `` (set ?st \<union> set (c # ps))"
      using 2(3,4) False by (intro 2(2)) (auto simp: set_routed_via)
    have "(links_down g)\<^sup>* `` (set ?st \<union> set (c # ps)) = (links_down g)\<^sup>* `` (set (c # st) \<union> set ps)"
      by (auto simp: set_routed_via intro: converse_rtrancl_into_rtrancl)
    then show ?thesis using * False by simp
  qed
qed

lemma downstream_loop_distinct:
  "distinct acc \<Longrightarrow> set acc = set ps \<Longrightarrow> distinct (downstream_loop g st ps acc)"
  by (induction g st ps acc rule: downstream_loop.induct) auto

lemma set_downstream: "set (get_downstream_sids g d) = (links_down g)\<^sup>* `` {d}"
  using downstream_loop_set [of g "[]" "[d]" "[]"] by (simp add: get_downstream_sids_def del: downstream_loop.simps)

lemma downstream_closed: "s \<in> set (get_downstream_sids g d) \<Longrightarrow> (s, t) \<in> links_down g \<Longrightarrow>
    t \<in> set (get_downstream_sids g d)"
  by (auto simp: set_downstream intro: rtrancl_into_rtrancl)

text \<open>A server is stored under its own SID.\<close>

definition topology_ok :: "topology_graph \<Rightarrow> bool" where
  "topology_ok g \<longleftrightarrow> distinct (map fst g) \<and> (\<forall>s i. map_of g s = Some i \<longrightarrow> si_sid i = s)"

lemma topology_ok_new [intro!, simp]: "topology_ok topology_new"
  by (simp add: topology_ok_def topology_new_def)

lemma topology_ok_add [intro]: "topology_ok g \<Longrightarrow> topology_ok (add_server sid name info hop via g)"
  using distinct_update [of g sid] by (auto simp: topology_ok_def add_server_def update_conv')

lemma map_of_remove: "map_of (remove_servers sids g) s = (if s \<in> set sids then None else map_of g s)"
  unfolding remove_servers_def by (induction sids arbitrary: g) (auto simp: delete_conv)

lemma topology_ok_remove [intro]: "topology_ok g \<Longrightarrow> topology_ok (remove_servers sids g)"
proof -
  assume "topology_ok g"
  moreover have "distinct (map fst g) \<Longrightarrow> distinct (map fst (remove_servers sids g))"
    unfolding remove_servers_def by (induction sids arbitrary: g) (auto simp: distinct_delete)
  ultimately show ?thesis by (auto simp: topology_ok_def map_of_remove split: if_splits)
qed

lemma links_down_iff:
  assumes "topology_ok g"
  shows "(p, s) \<in> links_down g \<longleftrightarrow> get_route g s = Some p"
proof
  assume "(p, s) \<in> links_down g"
  then obtain k i where "(k, i) \<in> set g" "si_sid i = s" "si_via i = Some p" by (auto simp: links_down_def)
  moreover from this have "map_of g k = Some i" "si_sid i = k" using assms by (auto simp: topology_ok_def)
  ultimately show "get_route g s = Some p" by (simp add: get_route_def)
next
  assume "get_route g s = Some p"
  then obtain i where i: "map_of g s = Some i" "si_via i = Some p" by (auto simp: get_route_def bind_eq_Some_conv)
  then have "si_sid i = s" "(s, i) \<in> set g" using assms by (auto simp: topology_ok_def dest: map_of_SomeD)
  then show "(p, s) \<in> links_down g" using i(2) by (force simp: links_down_def)
qed

lemma get_route_remove: "get_route (remove_servers sids g) s = (if s \<in> set sids then None else get_route g s)"
  by (simp add: get_route_def map_of_remove)

section \<open>Routing\<close>

text \<open>The specification of a route: walk up the tree to the first server we are linked to.\<close>

inductive hop :: "(server_id \<times> link_state) list \<Rightarrow> topology_graph \<Rightarrow> nat \<Rightarrow> server_id \<Rightarrow> link_state \<Rightarrow> bool"
  for links g where
  hop_direct: "map_of links s = Some l \<Longrightarrow> hop links g 0 s l"
| hop_up: "map_of links s = None \<Longrightarrow> get_route g s = Some p \<Longrightarrow> hop links g n p l \<Longrightarrow> hop links g (Suc n) s l"

inductive_simps hop_0: "hop links g 0 s l"
inductive_simps hop_Suc: "hop links g (Suc n) s l"

lemma hop_unique: "hop links g n s l \<Longrightarrow> hop links g m s l' \<Longrightarrow> n = m \<and> l = l'"
proof (induction arbitrary: m l' rule: hop.induct)
  case (hop_direct s l)
  then show ?case by (cases m) (auto simp: hop_0 hop_Suc)
next
  case (hop_up s p n l)
  then obtain k where "m = Suc k" "hop links g k p l'" by (cases m) (auto simp: hop_0 hop_Suc)
  then show ?case using hop_up.IH by blast
qed

lemma next_hop_sound: "next_hop_loop links g s vs = Some l \<Longrightarrow> \<exists>n. hop links g n s l"
proof (induction links g s vs rule: next_hop_loop.induct)
  case (1 links g s vs)
  from "1.prems" show ?case
    unfolding next_hop_loop.simps [of links g s vs]
    using hop_direct [of links s] hop_up [of links s g] "1.IH"
    by (auto split: option.splits if_splits simp del: map_of_eq_None_iff)
qed

lemma next_hop_complete:
  assumes "hop links g n s l" "\<forall>v\<in>set vs. \<exists>m > n. hop links g m v l"
  shows "next_hop_loop links g s vs = Some l"
  using assms
proof (induction arbitrary: vs rule: hop.induct)
  case (hop_direct s l)
  then show ?case by (subst next_hop_loop.simps) simp
next
  case (hop_up s p n l)
  have "s \<notin> set vs" using hop_up.prems hop_unique [OF hop.hop_up [OF hop_up.hyps]] by blast
  moreover have "next_hop_loop links g p (s # vs) = Some l"
    using hop_up.prems hop.hop_up [OF hop_up.hyps] by (intro hop_up.IH) (auto intro: Suc_lessD)
  ultimately show ?case using hop_up.hyps by (subst next_hop_loop.simps) simp
qed

lemma next_hop_iff: "next_hop_loop links g s [] = Some l \<longleftrightarrow> (\<exists>n. hop links g n s l)"
  using next_hop_sound next_hop_complete [of links g _ s l "[]"] by fastforce

lemma add_server_stored:
  "\<lparr>si_sid = sid, si_name = name, si_info = info, si_hopcount = hops, si_via = via\<rparr>
    \<in> snd ` set (add_server sid name info hops via g)"
proof -
  have "map_of (add_server sid name info hops via g) sid =
      Some \<lparr>si_sid = sid, si_name = name, si_info = info, si_hopcount = hops, si_via = via\<rparr>"
    by (simp add: add_server_def update_conv')
  then show ?thesis by (metis map_of_SomeD image_eqI snd_conv)
qed

section \<open>Properties\<close>

text \<open>C29. The scope of a netsplit: \<open>get_downstream_sids\<close> ends on every graph, cyclic ones included, and
  returns without repetition exactly the servers reachable from the target along the \<open>via\<close> links.
\<close>

theorem downstream_reachable:
  "distinct (get_downstream_sids g target) \<and>
   set (get_downstream_sids g target) = {s. (target, s) \<in> (links_down g)\<^sup>*}"
  using downstream_loop_distinct [of "[]" "[]" g "[target]"] set_downstream [of g target]
  by (auto simp: get_downstream_sids_def)

text \<open>C30. \<open>get_next_hop\<close> refines the specification of a route: it always ends, and it returns a link exactly
  when walking up the tree from the target meets a directly linked server, namely the first one met.
\<close>

theorem next_hop_correct:
  "get_next_hop sm target = Some link \<longleftrightarrow> (\<exists>n. hop (sm_links sm) (sm_topology sm) n target link)"
  by (simp add: get_next_hop_def next_hop_iff)

text \<open>C31. A server can be told to introduce itself below its own peer.  \<open>register_peer\<close> puts the peer
  \<open>local\<close> into the topology before the burst is generated, and the burst skips only the sender's own
  SID, so it contains \<open>SID\<close> for \<open>local\<close>.  Processing that command at \<open>local\<close> makes \<open>local\<close> a server behind
  \<open>peer\<close>, and the scope of a later split from \<open>peer\<close> contains \<open>local\<close> itself.
\<close>

theorem burst_returns_own_sid:
  assumes "local \<noteq> peer"
  shows "\<exists>name hops info. S2S_SID name hops (sid_str local) info
        \<in> set (burst_servers (register_peer now tx local name0 hopcount info0 sm) (sid_str peer)) \<and>
      (\<exists>sm''. sid_handler (sid_str peer) None [name, hops, sid_str local, info] sm' = Inr sm'' \<and>
         local \<in> set (get_downstream_sids (sm_topology sm'') peer))"
proof -
  let ?hops = "show_nat (unat (hopcount + 1))"
  have "\<lparr>si_sid = local, si_name = name0, si_info = info0, si_hopcount = hopcount, si_via = Some local\<rparr>
      \<in> snd ` set (sm_topology (register_peer now tx local name0 hopcount info0 sm))"
    by (simp add: register_peer_def add_server_stored)
  moreover have "sid_str local \<noteq> sid_str peer" using assms by (cases local; cases peer) simp
  ultimately have "S2S_SID name0 ?hops (sid_str local) info0
      \<in> set (burst_servers (register_peer now tx local name0 hopcount info0 sm) (sid_str peer))"
    by (force simp: burst_servers_def)
  moreover have "parse_uint (2 ^ 32 - 1) ?hops = Some (unat (hopcount + 1))"
    using unsigned_less [where 'a = nat, of "hopcount + 1"] by (intro parse_show) simp
  then have "sid_handler (sid_str peer) None [name0, ?hops, sid_str local, info0] sm' =
      Inr (sm'\<lparr>sm_topology := add_server local name0 info0 (hopcount + 1) (Some peer) (sm_topology sm')\<rparr>)"
    by (simp add: sid_handler_def arg_def extract_source_sid_def)
  moreover have "(peer, local) \<in> links_down (add_server local name0 info0 (hopcount + 1) (Some peer) (sm_topology sm'))"
    using add_server_stored [of local name0 info0 "hopcount + 1" "Some peer"] by (force simp: links_down_def)
  ultimately show ?thesis by (force simp: set_downstream)
qed

definition empty_manager :: sync_manager where
  "empty_manager = \<lparr>sm_local_id = ServerId ''00B'', sm_local_name = ''b'', sm_links = [], sm_topology = topology_new\<rparr>"

theorem burst_returns_own_sid_witness:
  "\<exists>name hops info. S2S_SID name hops ''00A'' info
     \<in> set (burst_servers (register_peer 0 0 (ServerId ''00A'') ''a'' 1 ''A'' empty_manager) ''00B'')"
  using burst_returns_own_sid [of "ServerId ''00A''" "ServerId ''00B''" 0 0 "''a''" 1 "''A''" empty_manager empty_manager]
  unfolding server_id.sel by blast

end
