(* ===== verification/User_Crdt.thy ===== *)
theory User_Crdt
  imports Crdt
begin

text \<open>
  \<open>crates/slirc-proto/src/sync/user.rs\<close>: the replicated user, a record of last-writer-wins
  registers (nick, account, away, one per mode flag) and add-wins sets (channels, capabilities,
  silence and accept lists, server-notice masks).  A \<open>char\<close> of \<open>snomasks\<close> is its byte group.
\<close>

section \<open>Data\<close>

record user_modes_crdt =
  um_invisible :: "bool lww_register"
  um_wallops :: "bool lww_register"
  um_oper :: "bool lww_register"
  um_registered :: "bool lww_register"
  um_secure :: "bool lww_register"
  um_registered_only :: "bool lww_register"
  um_no_ctcp :: "bool lww_register"
  um_bot :: "bool lww_register"
  um_snomasks :: "string aw_set"
  um_oper_type :: "string option lww_register"
  um_hide_channels :: "bool lww_register"
  um_deaf :: "bool lww_register"
  um_caller_id :: "bool lww_register"
  um_net_admin :: "bool lww_register"

record user_crdt =
  uc_uid :: string
  uc_nick :: "string lww_register"
  uc_user :: "string lww_register"
  uc_realname :: "string lww_register"
  uc_host :: "string lww_register"
  uc_visible_host :: "string lww_register"
  uc_account :: "string option lww_register"
  uc_away :: "string option lww_register"
  uc_channels :: "string aw_set"
  uc_caps :: "string aw_set"
  uc_modes :: "user_modes_crdt"
  uc_silence_list :: "string aw_set"
  uc_accept_list :: "string aw_set"

record user_delta =
  ud_uid :: string
  ud_nick :: "string lww_register option"
  ud_away :: "string option lww_register option"
  ud_account :: "string option lww_register option"
  ud_channels_added :: "(string \<times> hybrid_timestamp) list"
  ud_channels_removed :: "(string \<times> hybrid_timestamp) list"

section \<open>User modes\<close>

definition um_new :: "hybrid_timestamp \<Rightarrow> user_modes_crdt" where
  "um_new ts =
    \<lparr>um_invisible = lww_new False ts,
     um_wallops = lww_new False ts,
     um_oper = lww_new False ts,
     um_registered = lww_new False ts,
     um_secure = lww_new False ts,
     um_registered_only = lww_new False ts,
     um_no_ctcp = lww_new False ts,
     um_bot = lww_new False ts,
     um_snomasks = aw_new,
     um_oper_type = lww_new None ts,
     um_hide_channels = lww_new False ts,
     um_deaf = lww_new False ts,
     um_caller_id = lww_new False ts,
     um_net_admin = lww_new False ts\<rparr>"

definition um_merge :: "user_modes_crdt \<Rightarrow> user_modes_crdt \<Rightarrow> user_modes_crdt" where
  "um_merge self other =
    \<lparr>um_invisible = lww_merge (um_invisible self) (um_invisible other),
     um_wallops = lww_merge (um_wallops self) (um_wallops other),
     um_oper = lww_merge (um_oper self) (um_oper other),
     um_registered = lww_merge (um_registered self) (um_registered other),
     um_secure = lww_merge (um_secure self) (um_secure other),
     um_registered_only = lww_merge (um_registered_only self) (um_registered_only other),
     um_no_ctcp = lww_merge (um_no_ctcp self) (um_no_ctcp other),
     um_bot = lww_merge (um_bot self) (um_bot other),
     um_snomasks = aw_merge (um_snomasks self) (um_snomasks other),
     um_oper_type = lww_merge (um_oper_type self) (um_oper_type other),
     um_hide_channels = lww_merge (um_hide_channels self) (um_hide_channels other),
     um_deaf = lww_merge (um_deaf self) (um_deaf other),
     um_caller_id = lww_merge (um_caller_id self) (um_caller_id other),
     um_net_admin = lww_merge (um_net_admin self) (um_net_admin other)\<rparr>"

definition um_dominates :: "user_modes_crdt \<Rightarrow> user_modes_crdt \<Rightarrow> bool" where
  "um_dominates self other \<longleftrightarrow>
    lww_dominates (um_invisible self) (um_invisible other) \<and>
    lww_dominates (um_wallops self) (um_wallops other) \<and>
    lww_dominates (um_oper self) (um_oper other) \<and>
    lww_dominates (um_registered self) (um_registered other) \<and>
    lww_dominates (um_secure self) (um_secure other) \<and>
    lww_dominates (um_registered_only self) (um_registered_only other) \<and>
    lww_dominates (um_no_ctcp self) (um_no_ctcp other) \<and>
    lww_dominates (um_bot self) (um_bot other) \<and>
    aw_dominates (um_snomasks self) (um_snomasks other) \<and>
    lww_dominates (um_oper_type self) (um_oper_type other) \<and>
    lww_dominates (um_hide_channels self) (um_hide_channels other) \<and>
    lww_dominates (um_deaf self) (um_deaf other) \<and>
    lww_dominates (um_caller_id self) (um_caller_id other) \<and>
    lww_dominates (um_net_admin self) (um_net_admin other)"

definition um_wf :: "user_modes_crdt \<Rightarrow> bool" where
  "um_wf m \<longleftrightarrow> aw_wf (um_snomasks m)"

definition um_compat :: "user_modes_crdt \<Rightarrow> user_modes_crdt \<Rightarrow> bool" where
  "um_compat a b \<longleftrightarrow>
    lww_compat (um_invisible a) (um_invisible b) \<and>
    lww_compat (um_wallops a) (um_wallops b) \<and>
    lww_compat (um_oper a) (um_oper b) \<and>
    lww_compat (um_registered a) (um_registered b) \<and>
    lww_compat (um_secure a) (um_secure b) \<and>
    lww_compat (um_registered_only a) (um_registered_only b) \<and>
    lww_compat (um_no_ctcp a) (um_no_ctcp b) \<and>
    lww_compat (um_bot a) (um_bot b) \<and>
    lww_compat (um_oper_type a) (um_oper_type b) \<and>
    lww_compat (um_hide_channels a) (um_hide_channels b) \<and>
    lww_compat (um_deaf a) (um_deaf b) \<and>
    lww_compat (um_caller_id a) (um_caller_id b) \<and>
    lww_compat (um_net_admin a) (um_net_admin b)"

record user_modes_view =
  umv_invisible :: "bool lww_register"
  umv_wallops :: "bool lww_register"
  umv_oper :: "bool lww_register"
  umv_registered :: "bool lww_register"
  umv_secure :: "bool lww_register"
  umv_registered_only :: "bool lww_register"
  umv_no_ctcp :: "bool lww_register"
  umv_bot :: "bool lww_register"
  umv_snomasks :: "string aw_content"
  umv_oper_type :: "string option lww_register"
  umv_hide_channels :: "bool lww_register"
  umv_deaf :: "bool lww_register"
  umv_caller_id :: "bool lww_register"
  umv_net_admin :: "bool lww_register"

definition um_view :: "user_modes_crdt \<Rightarrow> user_modes_view" where
  "um_view c =
    \<lparr>umv_invisible = um_invisible c,
     umv_wallops = um_wallops c,
     umv_oper = um_oper c,
     umv_registered = um_registered c,
     umv_secure = um_secure c,
     umv_registered_only = um_registered_only c,
     umv_no_ctcp = um_no_ctcp c,
     umv_bot = um_bot c,
     umv_snomasks = aw_view (um_snomasks c),
     umv_oper_type = um_oper_type c,
     umv_hide_channels = um_hide_channels c,
     umv_deaf = um_deaf c,
     umv_caller_id = um_caller_id c,
     umv_net_admin = um_net_admin c\<rparr>"

definition um_view_join :: "user_modes_view \<Rightarrow> user_modes_view \<Rightarrow> user_modes_view" where
  "um_view_join x y =
    \<lparr>umv_invisible = lww_merge (umv_invisible x) (umv_invisible y),
     umv_wallops = lww_merge (umv_wallops x) (umv_wallops y),
     umv_oper = lww_merge (umv_oper x) (umv_oper y),
     umv_registered = lww_merge (umv_registered x) (umv_registered y),
     umv_secure = lww_merge (umv_secure x) (umv_secure y),
     umv_registered_only = lww_merge (umv_registered_only x) (umv_registered_only y),
     umv_no_ctcp = lww_merge (umv_no_ctcp x) (umv_no_ctcp y),
     umv_bot = lww_merge (umv_bot x) (umv_bot y),
     umv_snomasks = aw_join (umv_snomasks x) (umv_snomasks y),
     umv_oper_type = lww_merge (umv_oper_type x) (umv_oper_type y),
     umv_hide_channels = lww_merge (umv_hide_channels x) (umv_hide_channels y),
     umv_deaf = lww_merge (umv_deaf x) (umv_deaf y),
     umv_caller_id = lww_merge (umv_caller_id x) (umv_caller_id y),
     umv_net_admin = lww_merge (umv_net_admin x) (umv_net_admin y)\<rparr>"

section \<open>Users\<close>

definition uc_new :: "string \<Rightarrow> string \<Rightarrow> string \<Rightarrow> string \<Rightarrow> string \<Rightarrow> string \<Rightarrow> hybrid_timestamp \<Rightarrow> user_crdt" where
  "uc_new uid nick user realname host visible_host ts =
    \<lparr>uc_uid = uid, uc_nick = lww_new nick ts, uc_user = lww_new user ts,
     uc_realname = lww_new realname ts, uc_host = lww_new host ts,
     uc_visible_host = lww_new visible_host ts, uc_account = lww_new None ts,
     uc_away = lww_new None ts, uc_channels = aw_new, uc_caps = aw_new, uc_modes = um_new ts,
     uc_silence_list = aw_new, uc_accept_list = aw_new\<rparr>"

definition uc_set_nick :: "string \<Rightarrow> hybrid_timestamp \<Rightarrow> user_crdt \<Rightarrow> user_crdt" where
  "uc_set_nick nick ts self = self\<lparr>uc_nick := lww_update nick ts (uc_nick self)\<rparr>"

definition uc_join_channel :: "string \<Rightarrow> hybrid_timestamp \<Rightarrow> user_crdt \<Rightarrow> user_crdt" where
  "uc_join_channel channel ts self = self\<lparr>uc_channels := aw_add channel ts (uc_channels self)\<rparr>"

definition uc_part_channel :: "string \<Rightarrow> hybrid_timestamp \<Rightarrow> user_crdt \<Rightarrow> user_crdt" where
  "uc_part_channel channel ts self = self\<lparr>uc_channels := aw_remove channel ts (uc_channels self)\<rparr>"

definition uc_set_away :: "string option \<Rightarrow> hybrid_timestamp \<Rightarrow> user_crdt \<Rightarrow> user_crdt" where
  "uc_set_away message ts self = self\<lparr>uc_away := lww_update message ts (uc_away self)\<rparr>"

definition uc_identify :: "string \<Rightarrow> hybrid_timestamp \<Rightarrow> user_crdt \<Rightarrow> user_crdt" where
  "uc_identify account ts self =
    self\<lparr>uc_account := lww_update (Some account) ts (uc_account self),
         uc_modes := (uc_modes self)\<lparr>um_registered := lww_update True ts (um_registered (uc_modes self))\<rparr>\<rparr>"

definition uc_channels_set :: "user_crdt \<Rightarrow> string set" where
  "uc_channels_set self = set (aw_iter (uc_channels self))"

definition uc_caps_set :: "user_crdt \<Rightarrow> string set" where
  "uc_caps_set self = set (aw_iter (uc_caps self))"

definition uc_merge :: "user_crdt \<Rightarrow> user_crdt \<Rightarrow> user_crdt" where
  "uc_merge self other =
    \<lparr>uc_uid = uc_uid self,
     uc_nick = lww_merge (uc_nick self) (uc_nick other),
     uc_user = lww_merge (uc_user self) (uc_user other),
     uc_realname = lww_merge (uc_realname self) (uc_realname other),
     uc_host = lww_merge (uc_host self) (uc_host other),
     uc_visible_host = lww_merge (uc_visible_host self) (uc_visible_host other),
     uc_account = lww_merge (uc_account self) (uc_account other),
     uc_away = lww_merge (uc_away self) (uc_away other),
     uc_channels = aw_merge (uc_channels self) (uc_channels other),
     uc_caps = aw_merge (uc_caps self) (uc_caps other),
     uc_modes = um_merge (uc_modes self) (uc_modes other),
     uc_silence_list = aw_merge (uc_silence_list self) (uc_silence_list other),
     uc_accept_list = aw_merge (uc_accept_list self) (uc_accept_list other)\<rparr>"

definition uc_dominates :: "user_crdt \<Rightarrow> user_crdt \<Rightarrow> bool" where
  "uc_dominates self other \<longleftrightarrow>
    lww_dominates (uc_nick self) (uc_nick other) \<and>
    lww_dominates (uc_user self) (uc_user other) \<and>
    lww_dominates (uc_realname self) (uc_realname other) \<and>
    lww_dominates (uc_host self) (uc_host other) \<and>
    lww_dominates (uc_visible_host self) (uc_visible_host other) \<and>
    lww_dominates (uc_account self) (uc_account other) \<and>
    lww_dominates (uc_away self) (uc_away other) \<and>
    aw_dominates (uc_channels self) (uc_channels other) \<and>
    aw_dominates (uc_caps self) (uc_caps other) \<and>
    um_dominates (uc_modes self) (uc_modes other) \<and>
    aw_dominates (uc_silence_list self) (uc_silence_list other) \<and>
    aw_dominates (uc_accept_list self) (uc_accept_list other)"

definition uc_wf :: "user_crdt \<Rightarrow> bool" where
  "uc_wf u \<longleftrightarrow> aw_wf (uc_channels u) \<and> aw_wf (uc_caps u) \<and> um_wf (uc_modes u) \<and>
    aw_wf (uc_silence_list u) \<and> aw_wf (uc_accept_list u)"

definition uc_compat :: "user_crdt \<Rightarrow> user_crdt \<Rightarrow> bool" where
  "uc_compat a b \<longleftrightarrow> uc_uid a = uc_uid b \<and>
    lww_compat (uc_nick a) (uc_nick b) \<and>
    lww_compat (uc_user a) (uc_user b) \<and>
    lww_compat (uc_realname a) (uc_realname b) \<and>
    lww_compat (uc_host a) (uc_host b) \<and>
    lww_compat (uc_visible_host a) (uc_visible_host b) \<and>
    lww_compat (uc_account a) (uc_account b) \<and>
    lww_compat (uc_away a) (uc_away b) \<and>
    um_compat (uc_modes a) (uc_modes b)"

record user_view =
  uv_uid :: string
  uv_nick :: "string lww_register"
  uv_user :: "string lww_register"
  uv_realname :: "string lww_register"
  uv_host :: "string lww_register"
  uv_visible_host :: "string lww_register"
  uv_account :: "string option lww_register"
  uv_away :: "string option lww_register"
  uv_channels :: "string aw_content"
  uv_caps :: "string aw_content"
  uv_modes :: "user_modes_view"
  uv_silence_list :: "string aw_content"
  uv_accept_list :: "string aw_content"

definition uc_view :: "user_crdt \<Rightarrow> user_view" where
  "uc_view c =
    \<lparr>uv_uid = uc_uid c,
     uv_nick = uc_nick c,
     uv_user = uc_user c,
     uv_realname = uc_realname c,
     uv_host = uc_host c,
     uv_visible_host = uc_visible_host c,
     uv_account = uc_account c,
     uv_away = uc_away c,
     uv_channels = aw_view (uc_channels c),
     uv_caps = aw_view (uc_caps c),
     uv_modes = um_view (uc_modes c),
     uv_silence_list = aw_view (uc_silence_list c),
     uv_accept_list = aw_view (uc_accept_list c)\<rparr>"

definition uc_view_join :: "user_view \<Rightarrow> user_view \<Rightarrow> user_view" where
  "uc_view_join x y =
    \<lparr>uv_uid = uv_uid x,
     uv_nick = lww_merge (uv_nick x) (uv_nick y),
     uv_user = lww_merge (uv_user x) (uv_user y),
     uv_realname = lww_merge (uv_realname x) (uv_realname y),
     uv_host = lww_merge (uv_host x) (uv_host y),
     uv_visible_host = lww_merge (uv_visible_host x) (uv_visible_host y),
     uv_account = lww_merge (uv_account x) (uv_account y),
     uv_away = lww_merge (uv_away x) (uv_away y),
     uv_channels = aw_join (uv_channels x) (uv_channels y),
     uv_caps = aw_join (uv_caps x) (uv_caps y),
     uv_modes = um_view_join (uv_modes x) (uv_modes y),
     uv_silence_list = aw_join (uv_silence_list x) (uv_silence_list y),
     uv_accept_list = aw_join (uv_accept_list x) (uv_accept_list y)\<rparr>"

section \<open>User modes and users meet the contract\<close>

lemma aws_join_commute: "aw_join (aw_view a) (aw_view b) = aw_join (aw_view b) (aw_view a)"
  by (simp add: aw_join_def aw_view_def max.commute)

interpretation umodes: replicated um_merge um_view um_view_join um_wf um_compat
proof unfold_locales
  fix a b c :: user_modes_crdt and x y z
  show "um_view_join (um_view_join x y) z = um_view_join x (um_view_join y z)"
    by (simp add: um_view_join_def lww_merge_assoc aws.join_assoc)
  show "\<lbrakk>um_wf a; um_wf b\<rbrakk> \<Longrightarrow> um_view (um_merge a b) = um_view_join (um_view a) (um_view b)"
    by (simp add: um_view_def um_merge_def um_view_join_def um_wf_def aw_view_merge)
  show "um_wf a \<Longrightarrow> um_view_join (um_view a) (um_view a) = um_view a"
    by (simp add: um_view_def um_view_join_def um_wf_def aws.join_idem)
  show "um_compat a b \<Longrightarrow> um_view_join (um_view a) (um_view b) = um_view_join (um_view b) (um_view a)"
    by (auto simp: um_view_def um_view_join_def um_compat_def intro: lww_merge_commute aws_join_commute)
  show "\<lbrakk>um_compat a c; um_compat b c\<rbrakk> \<Longrightarrow> um_compat (um_merge a b) c"
    by (simp add: um_compat_def um_merge_def lww_compat_merge)
qed (auto simp: um_wf_def um_merge_def um_compat_def intro: aw_wf_merge lww_compat_sym)

interpretation user: replicated uc_merge uc_view uc_view_join uc_wf uc_compat
proof unfold_locales
  fix a b c :: user_crdt and x y z
  show "uc_view_join (uc_view_join x y) z = uc_view_join x (uc_view_join y z)"
    by (simp add: uc_view_join_def lww_merge_assoc aws.join_assoc umodes.join_assoc)
  show "\<lbrakk>uc_wf a; uc_wf b\<rbrakk> \<Longrightarrow> uc_view (uc_merge a b) = uc_view_join (uc_view a) (uc_view b)"
    by (simp add: uc_view_def uc_merge_def uc_view_join_def uc_wf_def aw_view_merge umodes.view_merge)
  show "uc_wf a \<Longrightarrow> uc_view_join (uc_view a) (uc_view a) = uc_view a"
    by (simp add: uc_view_def uc_view_join_def uc_wf_def aws.join_idem umodes.join_idem)
  show "\<lbrakk>uc_wf a; uc_wf b; uc_compat a b\<rbrakk> \<Longrightarrow>
      uc_view_join (uc_view a) (uc_view b) = uc_view_join (uc_view b) (uc_view a)"
    by (auto simp: uc_view_def uc_view_join_def uc_compat_def uc_wf_def
        intro: lww_merge_commute aws_join_commute umodes.join_commute)
  show "uc_compat a b \<Longrightarrow> uc_compat b a"
    by (simp add: uc_compat_def lww_compat_sym umodes.compat_sym)
  show "\<lbrakk>uc_wf a; uc_wf b; uc_wf c; uc_compat a c; uc_compat b c\<rbrakk> \<Longrightarrow> uc_compat (uc_merge a b) c"
    by (simp add: uc_compat_def uc_merge_def uc_wf_def lww_compat_merge umodes.compat_merge)
qed (simp add: uc_wf_def uc_merge_def aw_wf_merge umodes.wf_merge)

section \<open>Operations on a user\<close>

lemma uc_wf_ops [inv_intros]:
  "uc_wf (uc_new uid nick usr realname host visible_host ts)"
  "uc_wf u \<Longrightarrow> uc_wf (uc_set_nick nick ts u)"
  "uc_wf u \<Longrightarrow> uc_wf (uc_join_channel channel ts u)"
  "uc_wf u \<Longrightarrow> uc_wf (uc_part_channel channel ts u)"
  "uc_wf u \<Longrightarrow> uc_wf (uc_set_away message ts u)"
  "uc_wf u \<Longrightarrow> uc_wf (uc_identify account ts u)"
  by (simp_all add: uc_wf_def uc_new_def um_new_def um_wf_def uc_set_nick_def uc_join_channel_def
      uc_part_channel_def uc_set_away_def uc_identify_def aw_wf_add aw_wf_remove)

lemma um_dominates_merge: "\<lbrakk>um_wf a; um_wf b; um_dominates a b\<rbrakk> \<Longrightarrow> um_view (um_merge a b) = um_view a"
  by (simp add: um_view_def um_merge_def um_dominates_def um_wf_def lww_dominates_merge aw_dominates_merge)

lemma uc_dominates_merge: "\<lbrakk>uc_wf a; uc_wf b; uc_dominates a b\<rbrakk> \<Longrightarrow> uc_view (uc_merge a b) = uc_view a"
  by (simp add: uc_view_def uc_merge_def uc_dominates_def uc_wf_def lww_dominates_merge
      aw_dominates_merge um_dominates_merge)

section \<open>Properties\<close>

text \<open>C35. Strong eventual consistency of users: two servers that have seen the same well-formed
  states of a user hold the same user, whatever the order and the repetitions, provided that
  register writes at one timestamp agree.\<close>

theorem user_convergence:
  assumes "\<And>u. u \<in> insert s (set xs) \<Longrightarrow> uc_wf u"
    and "\<And>u v. \<lbrakk>u \<in> insert s (set xs); v \<in> insert s (set xs)\<rbrakk> \<Longrightarrow> uc_compat u v"
    and "insert s (set xs) = insert t (set ys)"
  shows "uc_view (deliver uc_merge s xs) = uc_view (deliver uc_merge t ys)"
  using assms by (intro user.convergence) auto

theorem user_convergence_witness:
  "let u0 = uc_new ''001AAAAAC'' ''nick'' ''u'' ''r'' ''h'' ''v'' (HybridTimestamp 1 0 0);
       u1 = uc_join_channel ''#c'' (HybridTimestamp 2 0 0) u0;
       u2 = uc_set_nick ''nick2'' (HybridTimestamp 3 0 9) u0
   in uc_view (deliver uc_merge u0 [u1, u2]) = uc_view (deliver uc_merge u2 [u1, u0, u1])"
  unfolding Let_def
  by (rule user_convergence)
     (auto simp: uc_wf_ops uc_compat_def um_compat_def lww_compat_def uc_new_def uc_join_channel_def
        uc_set_nick_def lww_update_def lww_new_def um_new_def ht_less_iff um_wf_def uc_wf_def aw_wf_add)

end
