(* ===== verification/User_State.thy ===== *)
theory User_State
  imports User_Crdt
begin

text \<open>
  \<open>src/state/user.rs\<close>: the \<open>User\<close> a server keeps for everyone on the network, its modes, and its
  conversions to and from the replicated \<open>UserCrdt\<close>.  A \<open>HashSet\<close> is a duplicate-free list, a session
  id a number with 0 the nil UUID.  \<open>User::new\<close> gets the cloaked host as an argument: cloaking is an
  HMAC of a library.
\<close>

section \<open>Definitions\<close>

record user_modes =
  m_invisible :: bool
  m_wallops :: bool
  m_oper :: bool
  m_registered :: bool
  m_secure :: bool
  m_registered_only :: bool
  m_no_ctcp :: bool
  m_bot :: bool
  m_service :: bool
  m_snomasks :: "string list"
  m_hide_channels :: bool
  m_deaf :: bool
  m_caller_id :: bool
  m_net_admin :: bool
  m_oper_type :: "string option"

record user =
  u_uid :: string
  u_nick :: string
  u_user :: string
  u_realname :: string
  u_host :: string
  u_ip :: string
  u_visible_host :: string
  u_session_id :: nat
  u_channels :: "string list"
  u_modes :: user_modes
  u_account :: "string option"
  u_account_id :: "int option"
  u_away :: "string option"
  u_metadata :: "(string \<times> string) list"
  u_caps :: "string list"
  u_certfp :: "string option"
  u_silence_list :: "string list"
  u_accept_list :: "string list"
  u_created_at :: int
  u_last_modified :: hybrid_timestamp
  u_last_active :: int

definition user_modes_default :: user_modes where
  "user_modes_default =
    \<lparr>m_invisible = False, m_wallops = False, m_oper = False, m_registered = False, m_secure = False,
     m_registered_only = False, m_no_ctcp = False, m_bot = False, m_service = False, m_snomasks = [],
     m_hide_channels = False, m_deaf = False, m_caller_id = False, m_net_admin = False, m_oper_type = None\<rparr>"

definition as_mode_string :: "user_modes \<Rightarrow> string" where
  "as_mode_string m =
    ''+'' @ (if m_invisible m then ''i'' else []) @ (if m_wallops m then ''w'' else [])
      @ (if m_oper m then ''o'' else []) @ (if m_registered m then ''r'' else [])
      @ (if m_secure m then ''Z'' else []) @ (if m_registered_only m then ''R'' else [])
      @ (if m_no_ctcp m then ''T'' else []) @ (if m_bot m then ''B'' else [])
      @ (if m_service m then ''S'' else []) @ (if m_snomasks m \<noteq> [] then ''s'' else [])
      @ (if m_hide_channels m then ''p'' else []) @ (if m_deaf m then ''d'' else [])
      @ (if m_caller_id m then ''g'' else []) @ (if m_net_admin m then ''N'' else [])"

definition has_snomask :: "user_modes \<Rightarrow> string \<Rightarrow> bool" where
  "has_snomask m letter = (letter \<in> set (m_snomasks m))"

definition user_modes_from_crdt :: "user_modes_crdt \<Rightarrow> user_modes" where
  "user_modes_from_crdt c =
    \<lparr>m_invisible = lww_value (um_invisible c), m_wallops = lww_value (um_wallops c), m_oper = lww_value (um_oper c),
     m_registered = lww_value (um_registered c), m_secure = lww_value (um_secure c),
     m_registered_only = lww_value (um_registered_only c), m_no_ctcp = lww_value (um_no_ctcp c),
     m_bot = lww_value (um_bot c), m_service = False, m_snomasks = aw_iter (um_snomasks c),
     m_hide_channels = lww_value (um_hide_channels c), m_deaf = lww_value (um_deaf c),
     m_caller_id = lww_value (um_caller_id c), m_net_admin = lww_value (um_net_admin c),
     m_oper_type = lww_value (um_oper_type c)\<rparr>"

definition add_each :: "hybrid_timestamp \<Rightarrow> 'a list \<Rightarrow> 'a aw_set \<Rightarrow> 'a aw_set" where
  "add_each ts xs s = fold (\<lambda>x. aw_add x ts) xs s"

definition user_modes_to_crdt :: "hybrid_timestamp \<Rightarrow> user_modes \<Rightarrow> user_modes_crdt" where
  "user_modes_to_crdt ts m =
    (um_new ts)\<lparr>um_invisible := lww_new (m_invisible m) ts, um_wallops := lww_new (m_wallops m) ts,
      um_oper := lww_new (m_oper m) ts, um_registered := lww_new (m_registered m) ts,
      um_secure := lww_new (m_secure m) ts, um_registered_only := lww_new (m_registered_only m) ts,
      um_no_ctcp := lww_new (m_no_ctcp m) ts, um_bot := lww_new (m_bot m) ts,
      um_snomasks := add_each ts (m_snomasks m) (um_snomasks (um_new ts)),
      um_oper_type := lww_new (m_oper_type m) ts, um_hide_channels := lww_new (m_hide_channels m) ts,
      um_deaf := lww_new (m_deaf m) ts, um_caller_id := lww_new (m_caller_id m) ts,
      um_net_admin := lww_new (m_net_admin m) ts\<rparr>"

definition user_new ::
  "string \<Rightarrow> string \<Rightarrow> string \<Rightarrow> string \<Rightarrow> string \<Rightarrow> string \<Rightarrow> string \<Rightarrow> string list \<Rightarrow> string option \<Rightarrow>
   hybrid_timestamp \<Rightarrow> nat \<Rightarrow> int \<Rightarrow> user" where
  "user_new uid nick usr realname host ip cloaked caps certfp last_modified session_id now_millis =
    \<lparr>u_uid = uid, u_nick = nick, u_user = usr, u_realname = realname, u_host = host, u_ip = ip,
     u_visible_host = cloaked, u_session_id = session_id, u_channels = [], u_modes = user_modes_default,
     u_account = None, u_account_id = None, u_away = None, u_metadata = [], u_caps = caps, u_certfp = certfp,
     u_silence_list = [], u_accept_list = [], u_created_at = now_millis div 1000,
     u_last_modified = last_modified, u_last_active = now_millis\<rparr>"

definition user_to_crdt :: "user \<Rightarrow> user_crdt" where
  "user_to_crdt u =
    (let ts = u_last_modified u;
         c = uc_new (u_uid u) (u_nick u) (u_user u) (u_realname u) (u_host u) (u_visible_host u) ts
     in c\<lparr>uc_account := lww_new (u_account u) ts, uc_away := lww_new (u_away u) ts,
          uc_channels := add_each ts (u_channels u) (uc_channels c),
          uc_caps := add_each ts (u_caps u) (uc_caps c),
          uc_modes := user_modes_to_crdt ts (u_modes u),
          uc_silence_list := add_each ts (u_silence_list u) (uc_silence_list c),
          uc_accept_list := add_each ts (u_accept_list u) (uc_accept_list c)\<rparr>)"

text \<open>Division of an \<open>i64\<close> by 1000 rounds towards zero.\<close>

definition millis_to_secs :: "int \<Rightarrow> int" where
  "millis_to_secs ms = (if ms \<ge> 0 then ms div 1000 else - ((- ms) div 1000))"

definition user_from_crdt :: "user_crdt \<Rightarrow> user" where
  "user_from_crdt c =
    (let last_modified = lww_timestamp (uc_nick c) in
     \<lparr>u_uid = uc_uid c, u_nick = lww_value (uc_nick c), u_user = lww_value (uc_user c),
      u_realname = lww_value (uc_realname c), u_host = lww_value (uc_host c), u_ip = ''0.0.0.0'',
      u_visible_host = lww_value (uc_visible_host c), u_session_id = 0, u_channels = aw_iter (uc_channels c),
      u_modes = user_modes_from_crdt (uc_modes c), u_account = lww_value (uc_account c), u_account_id = None,
      u_away = lww_value (uc_away c), u_metadata = [], u_caps = aw_iter (uc_caps c), u_certfp = None,
      u_silence_list = aw_iter (uc_silence_list c), u_accept_list = aw_iter (uc_accept_list c),
      u_created_at = millis_to_secs (millis last_modified), u_last_modified = last_modified,
      u_last_active = millis last_modified\<rparr>)"

definition user_merge_crdt :: "user_crdt \<Rightarrow> user \<Rightarrow> user" where
  "user_merge_crdt incoming u =
    (let merged = uc_merge (user_to_crdt u) incoming;
         new_account = lww_value (uc_account merged);
         last_modified = lww_timestamp (uc_nick merged)
     in u\<lparr>u_nick := lww_value (uc_nick merged), u_user := lww_value (uc_user merged),
          u_realname := lww_value (uc_realname merged), u_host := lww_value (uc_host merged),
          u_visible_host := lww_value (uc_visible_host merged), u_channels := aw_iter (uc_channels merged),
          u_modes := user_modes_from_crdt (uc_modes merged),
          u_account_id := (if u_account u \<noteq> new_account then None else u_account_id u),
          u_account := new_account, u_away := lww_value (uc_away merged), u_caps := aw_iter (uc_caps merged),
          u_silence_list := aw_iter (uc_silence_list merged), u_accept_list := aw_iter (uc_accept_list merged),
          u_last_modified := last_modified,
          u_created_at := (if u_session_id u = 0 then millis_to_secs (millis last_modified) else u_created_at u)\<rparr>)"

section \<open>What the network sees of a user\<close>

record shared_modes =
  sm_flags :: "bool list"
  sm_snomasks :: "string set"
  sm_oper_type :: "string option"

record shared_user =
  sh_names :: "string list"
  sh_account :: "string option"
  sh_away :: "string option"
  sh_sets :: "string set list"
  sh_modes :: shared_modes
  sh_last_modified :: hybrid_timestamp

definition modes_shared :: "user_modes \<Rightarrow> shared_modes" where
  "modes_shared m =
    \<lparr>sm_flags = [m_invisible m, m_wallops m, m_oper m, m_registered m, m_secure m, m_registered_only m, m_no_ctcp m,
       m_bot m, m_hide_channels m, m_deaf m, m_caller_id m, m_net_admin m],
     sm_snomasks = set (m_snomasks m), sm_oper_type = m_oper_type m\<rparr>"

definition user_shared :: "user \<Rightarrow> shared_user" where
  "user_shared u =
    \<lparr>sh_names = [u_uid u, u_nick u, u_user u, u_realname u, u_host u, u_visible_host u],
     sh_account = u_account u, sh_away = u_away u,
     sh_sets = [set (u_channels u), set (u_caps u), set (u_silence_list u), set (u_accept_list u)],
     sh_modes = modes_shared (u_modes u), sh_last_modified = u_last_modified u\<rparr>"

lemma aw_view_add_each:
  "aw_view (add_each ts xs s) e =
    (if e \<in> set xs \<and> (case snd (aw_view s e) of None \<Rightarrow> True | Some t \<Rightarrow> ts \<ge> t) then (Some ts, snd (aw_view s e))
     else aw_view s e)"
  unfolding add_each_def
  by (induction xs arbitrary: s) (auto simp: aw_view_def aw_add_def hash_simps split: option.splits if_splits)

lemma aw_wf_add_each [inv_intros]: "aw_wf s \<Longrightarrow> aw_wf (add_each ts xs s)"
  unfolding add_each_def by (induction xs arbitrary: s) (auto intro: aw_wf_add)

lemma set_add_each [simp]: "set (aw_iter (add_each ts xs aw_new)) = set xs"
  using aw_view_add_each [of ts xs aw_new]
  by (auto simp: aw_iter_contains aw_contains_view aw_view_def aw_new_def split: if_splits)

lemma lww_new_simps [simp]: "lww_value (lww_new v ts) = v" "lww_timestamp (lww_new v ts) = ts"
  by (simp_all add: lww_new_def)

lemma uc_new_sets [simp]:
  "uc_channels (uc_new uid n us r h vh ts) = aw_new" "uc_caps (uc_new uid n us r h vh ts) = aw_new"
  "uc_silence_list (uc_new uid n us r h vh ts) = aw_new" "uc_accept_list (uc_new uid n us r h vh ts) = aw_new"
  "um_snomasks (um_new ts) = aw_new"
  by (simp_all add: uc_new_def um_new_def)

text \<open>C28. A user survives the trip to another server: the user built there from the CRDT has the same
  identity, names, account, away message, channels, capabilities, lists, modes and timestamp.
\<close>

theorem user_crdt_roundtrip: "user_shared (user_from_crdt (user_to_crdt u)) = user_shared u"
  by (simp add: user_shared_def user_from_crdt_def user_to_crdt_def Let_def modes_shared_def
      user_modes_from_crdt_def user_modes_to_crdt_def) (simp add: uc_new_def)

lemma lww_merge_new:
  "lww_merge (lww_new a t) (lww_new b t') = (if t < t' then lww_new b t' else lww_new a t)"
  by (simp add: lww_merge_def lww_new_def)

lemma set_merge_snapshots:
  "set (aw_iter (aw_merge (add_each t xs aw_new) (add_each t' ys aw_new))) = set xs \<union> set ys"
proof -
  have none: "aw_view aw_new e = (None, None)" for e :: 'a by (simp add: aw_view_def aw_new_def)
  have "aw_view (aw_merge (add_each t xs aw_new) (add_each t' ys aw_new)) e =
      aw_cell_join (if e \<in> set xs then Some t else None, None) (if e \<in> set ys then Some t' else None, None)" for e
    by (simp add: aw_view_merge aw_wf_add_each aw_join_def aw_view_add_each none)
  then show ?thesis by (auto simp: aw_iter_contains aw_contains_view max_def less_option_def split: if_splits)
qed

definition newer :: "user \<Rightarrow> user \<Rightarrow> user" where
  "newer u v = (if u_last_modified u < u_last_modified v then v else u)"

text \<open>Merging a snapshot: the newer side gives every single value, the sets are joined.\<close>

lemma merge_snapshot:
  assumes "u_uid u = u_uid v"
  shows "user_shared (user_merge_crdt (user_to_crdt v) u) =
    (let w = newer u v in
     (user_shared w)\<lparr>sh_sets := map2 (\<union>) (sh_sets (user_shared u)) (sh_sets (user_shared v)),
       sh_modes := (sh_modes (user_shared w))\<lparr>sm_snomasks := set (m_snomasks (u_modes u)) \<union> set (m_snomasks (u_modes v))\<rparr>\<rparr>)"
  using assms
  by (cases "u_last_modified u < u_last_modified v")
    (simp_all add: user_shared_def user_merge_crdt_def user_to_crdt_def Let_def modes_shared_def newer_def
      user_modes_from_crdt_def user_modes_to_crdt_def uc_merge_def um_merge_def uc_new_def um_new_def
      lww_merge_new set_merge_snapshots)

text \<open>C27. Merging is symmetric on what users share: given two versions of one user with different
  timestamps, merging the CRDT of either into the other gives the same shared fields.  Names, account,
  away message, mode flags, operator type and timestamp are those of the later version; channels,
  capabilities, silence and accept lists and the notice masks are the unions.  This is about \<open>to_crdt\<close>
  and \<open>merge_crdt\<close>; a UID line between servers carries only part of these fields.
\<close>

theorem snapshots_converge:
  assumes "u_uid u = u_uid v" "u_last_modified u \<noteq> u_last_modified v"
  defines "w \<equiv> newer u v"
  shows "user_shared (user_merge_crdt (user_to_crdt v) u) = user_shared (user_merge_crdt (user_to_crdt u) v) \<and>
    user_shared (user_merge_crdt (user_to_crdt v) u) =
      \<lparr>sh_names = [u_uid u, u_nick w, u_user w, u_realname w, u_host w, u_visible_host w],
       sh_account = u_account w, sh_away = u_away w,
       sh_sets = [set (u_channels u) \<union> set (u_channels v), set (u_caps u) \<union> set (u_caps v),
         set (u_silence_list u) \<union> set (u_silence_list v), set (u_accept_list u) \<union> set (u_accept_list v)],
       sh_modes = (modes_shared (u_modes w))\<lparr>sm_snomasks := set (m_snomasks (u_modes u)) \<union> set (m_snomasks (u_modes v))\<rparr>,
       sh_last_modified = max (u_last_modified u) (u_last_modified v)\<rparr>"
proof -
  have w: "newer u v = w" "newer v u = w" using assms(2) by (auto simp: w_def newer_def)
  have "u_uid w = u_uid u" "u_last_modified w = max (u_last_modified u) (u_last_modified v)"
    using assms(1) by (auto simp: w_def newer_def max_def)
  then show ?thesis
    unfolding merge_snapshot [OF assms(1)] merge_snapshot [OF assms(1) [symmetric]] w
    by (simp add: user_shared_def Let_def Un_commute)
qed

definition sample_user :: "string \<Rightarrow> string \<Rightarrow> int \<Rightarrow> user" where
  "sample_user uid nick ms =
    user_new uid nick ''u'' ''r'' ''host'' ''192.0.2.1'' ''cloak'' [] None (HybridTimestamp ms 0 0) 1 ms"

theorem snapshots_converge_witness:
  "user_shared (user_merge_crdt (user_to_crdt (sample_user ''001AAAAAB'' ''new'' 9)) (sample_user ''001AAAAAB'' ''old'' 5)) =
   user_shared (user_merge_crdt (user_to_crdt (sample_user ''001AAAAAB'' ''old'' 5)) (sample_user ''001AAAAAB'' ''new'' 9))"
  using snapshots_converge [of "sample_user ''001AAAAAB'' ''old'' 5" "sample_user ''001AAAAAB'' ''new'' 9"]
  by (simp add: sample_user_def user_new_def)

end
