(* ===== verification/User_Manager.thy ===== *)
theory User_Manager
  imports User_State Casemap Channel_Actor
begin

text \<open>
  \<open>src/state/managers/user.rs\<close>, the tables of users, nicknames, senders and WHOWAS history, with the
  counters of \<open>src/state/managers/stats.rs\<close> it keeps.  Operations return the new manager and the calls to
  the observer.  Counters are 64-bit words that wrap; the compare-and-swap loops on them run without
  interference.  The current time in milliseconds is an argument.
\<close>

section \<open>Statistics\<close>

record stats =
  st_local_users :: "64 word"
  st_global_users :: "64 word"
  st_invisible_users :: "64 word"
  st_local_opers :: "64 word"
  st_global_opers :: "64 word"
  st_channels :: "64 word"
  st_connections_total :: "64 word"
  st_peak_connections :: "64 word"
  st_peak_global_users :: "64 word"
  st_unregistered :: "64 word"

definition stats_new :: stats where
  "stats_new = \<lparr>st_local_users = 0, st_global_users = 0, st_invisible_users = 0, st_local_opers = 0,
    st_global_opers = 0, st_channels = 0, st_connections_total = 0, st_peak_connections = 0,
    st_peak_global_users = 0, st_unregistered = 0\<rparr>"

definition user_connected :: "stats \<Rightarrow> stats" where
  "user_connected s =
    (let new_local = st_local_users s + 1; new_global = st_global_users s + 1 in
     s\<lparr>st_local_users := new_local, st_global_users := new_global,
       st_connections_total := st_connections_total s + 1,
       st_peak_connections := max (st_peak_connections s) new_local,
       st_peak_global_users := max (st_peak_global_users s) new_global\<rparr>)"

definition user_disconnected :: "stats \<Rightarrow> stats" where
  "user_disconnected s = s\<lparr>st_local_users := st_local_users s - 1, st_global_users := st_global_users s - 1\<rparr>"

definition remote_user_connected :: "stats \<Rightarrow> stats" where
  "remote_user_connected s =
    (let new_global = st_global_users s + 1 in
     s\<lparr>st_global_users := new_global, st_peak_global_users := max (st_peak_global_users s) new_global\<rparr>)"

definition remote_user_disconnected :: "stats \<Rightarrow> stats" where
  "remote_user_disconnected s =
    (if st_global_users s = 0 then s else s\<lparr>st_global_users := st_global_users s - 1\<rparr>)"

definition user_set_invisible :: "stats \<Rightarrow> stats" where
  "user_set_invisible s = s\<lparr>st_invisible_users := st_invisible_users s + 1\<rparr>"

definition user_unset_invisible :: "stats \<Rightarrow> stats" where
  "user_unset_invisible s = s\<lparr>st_invisible_users := st_invisible_users s - 1\<rparr>"

definition user_opered :: "stats \<Rightarrow> stats" where
  "user_opered s = s\<lparr>st_local_opers := st_local_opers s + 1, st_global_opers := st_global_opers s + 1\<rparr>"

definition user_deopered :: "stats \<Rightarrow> stats" where
  "user_deopered s = s\<lparr>st_local_opers := st_local_opers s - 1, st_global_opers := st_global_opers s - 1\<rparr>"

definition remote_user_opered :: "stats \<Rightarrow> stats" where
  "remote_user_opered s = s\<lparr>st_global_opers := st_global_opers s + 1\<rparr>"

definition remote_user_deopered :: "stats \<Rightarrow> stats" where
  "remote_user_deopered s = s\<lparr>st_global_opers := st_global_opers s - 1\<rparr>"

definition increment_unregistered :: "stats \<Rightarrow> stats" where
  "increment_unregistered s = s\<lparr>st_unregistered := st_unregistered s + 1\<rparr>"

definition decrement_unregistered :: "stats \<Rightarrow> stats" where
  "decrement_unregistered s = s\<lparr>st_unregistered := st_unregistered s - 1\<rparr>"

definition channel_created :: "stats \<Rightarrow> stats" where
  "channel_created s = s\<lparr>st_channels := st_channels s + 1\<rparr>"

definition channel_destroyed :: "stats \<Rightarrow> stats" where
  "channel_destroyed s = s\<lparr>st_channels := st_channels s - 1\<rparr>"

section \<open>The manager\<close>

record whowas_entry =
  ww_nick :: string
  ww_user :: string
  ww_host :: string
  ww_realname :: string
  ww_server :: string
  ww_logout_time :: int

record session_sender =
  ss_session_id :: nat
  ss_tx :: nat

record user_manager =
  mgr_users :: "(string \<times> user) list"
  mgr_nicks :: "(string \<times> string list) list"
  mgr_senders :: "(string \<times> session_sender list) list"
  mgr_session_caps :: "(nat \<times> string list) list"
  mgr_whowas :: "(string \<times> whowas_entry list) list"
  mgr_whowas_lru :: "string list"
  mgr_server_name :: string
  mgr_server_sid :: string
  mgr_stats :: "stats option"
  mgr_observer :: bool
  mgr_whowas_maxgroups :: nat
  mgr_whowas_groupsize :: nat
  mgr_whowas_ttl_days :: int

datatype observer_call = OnUserUpdate user_crdt "server_id option" | OnUserQuit string string

definition user_manager_new :: "string \<Rightarrow> string \<Rightarrow> user_manager" where
  "user_manager_new server_sid server_name =
    \<lparr>mgr_users = [], mgr_nicks = [], mgr_senders = [], mgr_session_caps = [], mgr_whowas = [], mgr_whowas_lru = [],
     mgr_server_name = server_name, mgr_server_sid = server_sid, mgr_stats = None, mgr_observer = False,
     mgr_whowas_maxgroups = 1000, mgr_whowas_groupsize = 10, mgr_whowas_ttl_days = 7\<rparr>"

definition configure_whowas :: "nat \<Rightarrow> nat \<Rightarrow> int \<Rightarrow> user_manager \<Rightarrow> user_manager" where
  "configure_whowas maxgroups groupsize ttl m =
    m\<lparr>mgr_whowas_maxgroups := maxgroups, mgr_whowas_groupsize := groupsize, mgr_whowas_ttl_days := ttl\<rparr>"

definition update_last_active :: "int \<Rightarrow> string \<Rightarrow> user_manager \<Rightarrow> user_manager" where
  "update_last_active now uid m =
    (case map_of (mgr_users m) uid of
       Some u \<Rightarrow> m\<lparr>mgr_users := AList.update uid (u\<lparr>u_last_active := now\<rparr>) (mgr_users m)\<rparr>
     | None \<Rightarrow> m)"

definition get_first_uid :: "user_manager \<Rightarrow> string \<Rightarrow> string option" where
  "get_first_uid m nick_lower =
    (case map_of (mgr_nicks m) nick_lower of Some (u # _) \<Rightarrow> Some u | _ \<Rightarrow> None)"

definition with_stats :: "(stats \<Rightarrow> stats) \<Rightarrow> user_manager \<Rightarrow> user_manager" where
  "with_stats f m = m\<lparr>mgr_stats := map_option f (mgr_stats m)\<rparr>"

text \<open>\<open>entry(nick).or_insert_with(Vec::new).push(uid)\<close>, and the removal of a UID with its empty vector.\<close>

definition push_nick :: "string \<Rightarrow> string \<Rightarrow> user_manager \<Rightarrow> user_manager" where
  "push_nick nick_lower uid m =
    m\<lparr>mgr_nicks := AList.update nick_lower
        ((case map_of (mgr_nicks m) nick_lower of Some v \<Rightarrow> v | None \<Rightarrow> []) @ [uid]) (mgr_nicks m)\<rparr>"

definition drop_nick :: "string \<Rightarrow> string \<Rightarrow> user_manager \<Rightarrow> user_manager" where
  "drop_nick nick_lower uid m =
    (case map_of (mgr_nicks m) nick_lower of
       None \<Rightarrow> m
     | Some v \<Rightarrow>
         let v = filter (\<lambda>u. u \<noteq> uid) v in
         m\<lparr>mgr_nicks := (if v = [] then AList.delete nick_lower (mgr_nicks m)
                          else AList.update nick_lower v (mgr_nicks m))\<rparr>)"

definition mgr_notify_observer :: "user_manager \<Rightarrow> string \<Rightarrow> server_id option \<Rightarrow> observer_call list" where
  "mgr_notify_observer m uid source =
    (if mgr_observer m then
       (case map_of (mgr_users m) uid of Some u \<Rightarrow> [OnUserUpdate (user_to_crdt u) source] | None \<Rightarrow> [])
     else [])"

definition add_local_user :: "user \<Rightarrow> user_manager \<Rightarrow> user_manager \<times> observer_call list" where
  "add_local_user u m =
    (let uid = u_uid u;
         m = push_nick (irc_to_lower (u_nick u)) uid m;
         m = m\<lparr>mgr_users := AList.update uid u (mgr_users m)\<rparr>;
         m = with_stats user_connected m;
         m = (if m_invisible (u_modes u) then with_stats user_set_invisible m else m)
     in (m, mgr_notify_observer m uid None))"

definition register_service_user :: "user \<Rightarrow> user_manager \<Rightarrow> user_manager" where
  "register_service_user u m =
    (let m = push_nick (irc_to_lower (u_nick u)) (u_uid u) m
     in m\<lparr>mgr_users := AList.update (u_uid u) u (mgr_users m)\<rparr>)"

definition register_session_sender :: "string \<Rightarrow> nat \<Rightarrow> nat \<Rightarrow> string list \<Rightarrow> user_manager \<Rightarrow> user_manager" where
  "register_session_sender uid session_id sender caps m =
    (let m = m\<lparr>mgr_session_caps := AList.update session_id caps (mgr_session_caps m)\<rparr> in
     case map_of (mgr_senders m) uid of
       Some v \<Rightarrow>
         let i = length (takeWhile (\<lambda>s. ss_session_id s \<noteq> session_id) v)
         in m\<lparr>mgr_senders := AList.update uid
              (if i < length v then v[i := (v ! i)\<lparr>ss_tx := sender\<rparr>]
               else v @ [\<lparr>ss_session_id = session_id, ss_tx = sender\<rparr>]) (mgr_senders m)\<rparr>
     | None \<Rightarrow>
         m\<lparr>mgr_senders := AList.update uid [\<lparr>ss_session_id = session_id, ss_tx = sender\<rparr>] (mgr_senders m)\<rparr>)"

definition update_session_caps :: "nat \<Rightarrow> string list \<Rightarrow> user_manager \<Rightarrow> user_manager" where
  "update_session_caps session_id caps m =
    m\<lparr>mgr_session_caps := AList.update session_id caps (mgr_session_caps m)\<rparr>"

definition get_session_caps :: "user_manager \<Rightarrow> nat \<Rightarrow> string list option" where
  "get_session_caps m session_id = map_of (mgr_session_caps m) session_id"

text \<open>The senders a message to a UID goes to, and the count that succeeded; \<open>accepts\<close> is the outcome of a send.\<close>

definition send_to_uid :: "(nat \<Rightarrow> bool) \<Rightarrow> user_manager \<Rightarrow> string \<Rightarrow> nat list \<times> nat" where
  "send_to_uid accepts m uid =
    (case map_of (mgr_senders m) uid of
       Some v \<Rightarrow> (map ss_tx v, length (filter (accepts \<circ> ss_tx) v))
     | None \<Rightarrow> ([], 0))"

definition send_to_session :: "(nat \<Rightarrow> bool) \<Rightarrow> user_manager \<Rightarrow> string \<Rightarrow> nat \<Rightarrow> bool" where
  "send_to_session accepts m uid session_id =
    (case map_of (mgr_senders m) uid of
       Some v \<Rightarrow> (case find (\<lambda>s. ss_session_id s = session_id) v of Some s \<Rightarrow> accepts (ss_tx s) | None \<Rightarrow> False)
     | None \<Rightarrow> False)"

definition snomask_targets :: "user_manager \<Rightarrow> string \<Rightarrow> string list" where
  "snomask_targets m c = map fst (filter (\<lambda>(_, u). has_snomask (u_modes u) c) (mgr_users m))"

definition oper_targets :: "user_manager \<Rightarrow> string list" where
  "oper_targets m = map fst (filter (\<lambda>(_, u). m_oper (u_modes u)) (mgr_users m))"

subsection \<open>WHOWAS\<close>

fun evict :: "nat \<Rightarrow> string list \<Rightarrow> (string \<times> whowas_entry list) list \<Rightarrow>
    string list \<times> (string \<times> whowas_entry list) list" where
  "evict maxgroups [] whowas = ([], whowas)"
| "evict maxgroups (oldest # lru) whowas =
    (if length (oldest # lru) \<ge> maxgroups then evict maxgroups lru (AList.delete oldest whowas)
     else (oldest # lru, whowas))"

definition record_whowas :: "int \<Rightarrow> string \<Rightarrow> string \<Rightarrow> string \<Rightarrow> string \<Rightarrow> user_manager \<Rightarrow> user_manager" where
  "record_whowas now nick usr host realname m =
    (let nick_lower = irc_to_lower nick;
         entry = \<lparr>ww_nick = nick, ww_user = usr, ww_host = host, ww_realname = realname,
                  ww_server = mgr_server_name m, ww_logout_time = now\<rparr>;
         (lru, whowas) =
           (if map_of (mgr_whowas m) nick_lower = None
            then (case evict (mgr_whowas_maxgroups m) (mgr_whowas_lru m) (mgr_whowas m) of
                    (lru, whowas) \<Rightarrow> (lru @ [nick_lower], whowas))
            else (filter (\<lambda>n. n \<noteq> nick_lower) (mgr_whowas_lru m) @ [nick_lower], mgr_whowas m));
         entries = entry # (case map_of whowas nick_lower of Some es \<Rightarrow> es | None \<Rightarrow> [])
     in m\<lparr>mgr_whowas_lru := lru,
          mgr_whowas := AList.update nick_lower (take (mgr_whowas_groupsize m) entries) whowas\<rparr>)"

definition cleanup_whowas :: "int \<Rightarrow> user_manager \<Rightarrow> user_manager" where
  "cleanup_whowas now m =
    (let cutoff = now - mgr_whowas_ttl_days m * 24 * 3600 * 1000;
         removed = map fst (filter (\<lambda>(_, es). list_all (\<lambda>e. ww_logout_time e \<le> cutoff) es) (mgr_whowas m))
     in m\<lparr>mgr_whowas := filter (\<lambda>(_, es). es \<noteq> [])
            (map (\<lambda>(n, es). (n, filter (\<lambda>e. ww_logout_time e > cutoff) es)) (mgr_whowas m)),
          mgr_whowas_lru := (if removed \<noteq> [] then filter (\<lambda>n. n \<notin> set removed) (mgr_whowas_lru m)
                             else mgr_whowas_lru m)\<rparr>)"

subsection \<open>Merging and removing users\<close>

definition is_local_uid :: "user_manager \<Rightarrow> string \<Rightarrow> bool" where
  "is_local_uid m uid = starts_with uid (mgr_server_sid m)"

definition kill_user :: "int \<Rightarrow> string \<Rightarrow> string \<Rightarrow> user_manager \<Rightarrow> user_manager \<times> observer_call list" where
  "kill_user now uid reason m =
    (case map_of (mgr_users m) uid of
       None \<Rightarrow> (m, [])
     | Some u \<Rightarrow>
         let m = m\<lparr>mgr_users := AList.delete uid (mgr_users m)\<rparr>;
             m = (if is_local_uid m uid then
                    let m = with_stats user_disconnected m;
                        m = (if m_invisible (u_modes u) then with_stats user_unset_invisible m else m)
                    in (if m_oper (u_modes u) then with_stats user_deopered m else m)
                  else
                    let m = with_stats remote_user_disconnected m
                    in (if m_oper (u_modes u) then with_stats remote_user_deopered m else m));
             m = drop_nick (irc_to_lower (u_nick u)) uid m;
             m = m\<lparr>mgr_senders := AList.delete uid (mgr_senders m)\<rparr>;
             m = record_whowas now (u_nick u) (u_user u) (u_host u) (u_realname u) m
         in (m, if mgr_observer m then [OnUserQuit uid reason] else []))"

definition merge_existing :: "user_crdt \<Rightarrow> user \<Rightarrow> user_manager \<Rightarrow> user_manager" where
  "merge_existing crdt u m =
    (let uid = uc_uid crdt;
         local = is_local_uid m (u_uid u);
         u' = user_merge_crdt crdt u;
         m = m\<lparr>mgr_users := AList.update uid u' (mgr_users m)\<rparr>;
         m = (if m_oper (u_modes u) \<noteq> m_oper (u_modes u')
              then with_stats (if m_oper (u_modes u') then (if local then user_opered else remote_user_opered)
                               else (if local then user_deopered else remote_user_deopered)) m
              else m);
         m = (if local \<and> m_invisible (u_modes u) \<noteq> m_invisible (u_modes u')
              then with_stats (if m_invisible (u_modes u') then user_set_invisible else user_unset_invisible) m
              else m);
         old_nick_lower = irc_to_lower (u_nick u);
         new_nick_lower = irc_to_lower (u_nick u')
     in if old_nick_lower \<noteq> new_nick_lower
        then push_nick new_nick_lower uid (drop_nick old_nick_lower uid m) else m)"

definition insert_merged :: "user_crdt \<Rightarrow> server_id option \<Rightarrow> user_manager \<Rightarrow> user_manager" where
  "insert_merged crdt source m =
    (let u = user_from_crdt crdt;
         uid = uc_uid crdt;
         m = push_nick (irc_to_lower (u_nick u)) uid m;
         m = m\<lparr>mgr_users := AList.update uid u (mgr_users m)\<rparr>
     in if source \<noteq> None
        then let m = with_stats remote_user_connected m
             in (if m_oper (u_modes u) then with_stats remote_user_opered m else m)
        else m)"

definition perform_merge :: "user_crdt \<Rightarrow> server_id option \<Rightarrow> user_manager \<Rightarrow> user_manager \<times> observer_call list" where
  "perform_merge crdt source m =
    (let m = (case map_of (mgr_users m) (uc_uid crdt) of
                Some u \<Rightarrow> merge_existing crdt u m
              | None \<Rightarrow> insert_merged crdt source m)
     in (m, mgr_notify_observer m (uc_uid crdt) source))"

text \<open>The holder of the nickname that the incoming user collides with, and its timestamp.\<close>

definition collision_of :: "user_crdt \<Rightarrow> user_manager \<Rightarrow> (string \<times> hybrid_timestamp) option" where
  "collision_of crdt m =
    (case map_of (mgr_nicks m) (irc_to_lower (lww_value (uc_nick crdt))) of
       Some (first # _) \<Rightarrow>
         if first \<noteq> uc_uid crdt
         then map_option (\<lambda>u. (first, u_last_modified u)) (map_of (mgr_users m) first)
         else None
     | _ \<Rightarrow> None)"

definition restore_nick :: "string \<Rightarrow> user_manager \<Rightarrow> user_manager" where
  "restore_nick existing_uid m =
    (case map_of (mgr_users m) existing_uid of
       None \<Rightarrow> m
     | Some u \<Rightarrow>
         let nick_lower = irc_to_lower (u_nick u) in
         (case map_of (mgr_nicks m) nick_lower of
            Some v \<Rightarrow> if existing_uid \<in> set v then m
                      else m\<lparr>mgr_nicks := AList.update nick_lower (v @ [existing_uid]) (mgr_nicks m)\<rparr>
          | None \<Rightarrow> m\<lparr>mgr_nicks := AList.update nick_lower [existing_uid] (mgr_nicks m)\<rparr>))"

definition merge_user_crdt ::
  "int \<Rightarrow> user_crdt \<Rightarrow> server_id option \<Rightarrow> user_manager \<Rightarrow> user_manager \<times> observer_call list" where
  "merge_user_crdt now crdt source m =
    (let uid = uc_uid crdt; incoming_ts = lww_timestamp (uc_nick crdt) in
     case collision_of crdt m of
       None \<Rightarrow> perform_merge crdt source m
     | Some (existing_uid, existing_ts) \<Rightarrow>
         if incoming_ts < existing_ts then
           let (m, calls1) = kill_user now existing_uid ''Nick collision (older wins)'' m;
               (m, calls2) = perform_merge crdt source m
           in (m, calls1 @ calls2)
         else if incoming_ts > existing_ts then
           let (m, calls1) = perform_merge crdt source m;
               (m, calls2) = kill_user now uid ''Nick collision (newer loses)'' m
           in (restore_nick existing_uid m, calls1 @ calls2)
         else
           let (m, calls1) = kill_user now existing_uid ''Nick collision (tie)'' m;
               (m, calls2) = perform_merge crdt source m;
               (m, calls3) = kill_user now uid ''Nick collision (tie)'' m
           in (m, calls1 @ calls2 @ calls3))"

section \<open>The nickname index\<close>

text \<open>
  Every user has to be found under the nickname it carries, and no vector of the index is empty.  The
  index may hold more: the \<open>NICK\<close> handler claims a nickname before the user exists.  The users \<open>H\<close>
  are those that may be hidden, because their nickname was released while their record stayed.
\<close>

definition user_of :: "user_manager \<Rightarrow> string \<Rightarrow> user option" where
  "user_of m = map_of (mgr_users m)"

definition nick_vector :: "user_manager \<Rightarrow> string \<Rightarrow> string list" where
  "nick_vector m n = (case map_of (mgr_nicks m) n of Some v \<Rightarrow> v | None \<Rightarrow> [])"

definition no_empty_vector :: "user_manager \<Rightarrow> bool" where
  "no_empty_vector m \<longleftrightarrow> (\<forall>n. map_of (mgr_nicks m) n \<noteq> Some [])"

definition index_ok :: "string set \<Rightarrow> user_manager \<Rightarrow> bool" where
  "index_ok H m \<longleftrightarrow> no_empty_vector m \<and>
    (\<forall>uid u. user_of m uid = Some u \<longrightarrow> 
      u_uid u = uid \<and> (uid \<in> H \<or> uid \<in> set (nick_vector m (irc_to_lower (u_nick u)))))"

subsection \<open>What each step leaves alone\<close>

named_theorems mgr_frame "what an operation leaves alone"

lemma with_stats_frame [mgr_frame, simp]:
  "mgr_users (with_stats f m) = mgr_users m" "mgr_nicks (with_stats f m) = mgr_nicks m"
  "mgr_whowas (with_stats f m) = mgr_whowas m" "mgr_whowas_lru (with_stats f m) = mgr_whowas_lru m"
  "mgr_whowas_maxgroups (with_stats f m) = mgr_whowas_maxgroups m"
  "mgr_whowas_groupsize (with_stats f m) = mgr_whowas_groupsize m"
  "mgr_server_sid (with_stats f m) = mgr_server_sid m" "mgr_stats (with_stats f m) = map_option f (mgr_stats m)"
  "mgr_senders (with_stats f m) = mgr_senders m" "mgr_observer (with_stats f m) = mgr_observer m"
  "mgr_whowas_ttl_days (with_stats f m) = mgr_whowas_ttl_days m"
  by (simp_all add: with_stats_def)

lemma record_whowas_frame [mgr_frame, simp]:
  "mgr_users (record_whowas now n u h r m) = mgr_users m" "mgr_nicks (record_whowas now n u h r m) = mgr_nicks m"
  "mgr_server_sid (record_whowas now n u h r m) = mgr_server_sid m"
  "mgr_stats (record_whowas now n u h r m) = mgr_stats m"
  "mgr_whowas_maxgroups (record_whowas now n u h r m) = mgr_whowas_maxgroups m"
  "mgr_whowas_groupsize (record_whowas now n u h r m) = mgr_whowas_groupsize m"
  "mgr_senders (record_whowas now n u h r m) = mgr_senders m"
  "mgr_observer (record_whowas now n u h r m) = mgr_observer m"
  by (simp_all add: record_whowas_def Let_def prod.case_eq_if)

lemma nick_frame [mgr_frame, simp]:
  "mgr_users (push_nick n u m) = mgr_users m" "mgr_users (drop_nick n u m) = mgr_users m"
  "mgr_stats (push_nick n u m) = mgr_stats m" "mgr_stats (drop_nick n u m) = mgr_stats m"
  "mgr_server_sid (push_nick n u m) = mgr_server_sid m" "mgr_server_sid (drop_nick n u m) = mgr_server_sid m"
  "mgr_whowas (push_nick n u m) = mgr_whowas m" "mgr_whowas (drop_nick n u m) = mgr_whowas m"
  "mgr_whowas_lru (push_nick n u m) = mgr_whowas_lru m" "mgr_whowas_lru (drop_nick n u m) = mgr_whowas_lru m"
  "mgr_whowas_maxgroups (push_nick n u m) = mgr_whowas_maxgroups m"
  "mgr_whowas_maxgroups (drop_nick n u m) = mgr_whowas_maxgroups m"
  "mgr_whowas_groupsize (push_nick n u m) = mgr_whowas_groupsize m"
  "mgr_whowas_groupsize (drop_nick n u m) = mgr_whowas_groupsize m"
  "mgr_senders (push_nick n u m) = mgr_senders m" "mgr_senders (drop_nick n u m) = mgr_senders m"
  "mgr_observer (push_nick n u m) = mgr_observer m" "mgr_observer (drop_nick n u m) = mgr_observer m"
  by (simp_all add: push_nick_def drop_nick_def Let_def split: option.split)

subsection \<open>Changes of the index for one user\<close>

lemma nick_vector_push [simp]:
  "nick_vector (push_nick n u m) k = (if k = n then nick_vector m k @ [u] else nick_vector m k)"
  by (simp add: nick_vector_def push_nick_def hash_simps)

lemma nick_vector_drop [simp]:
  "nick_vector (drop_nick n u m) k = (if k = n then filter (\<lambda>x. x \<noteq> u) (nick_vector m k) else nick_vector m k)"
  by (cases "map_of (mgr_nicks m) n")
    (simp_all add: nick_vector_def drop_nick_def Let_def hash_simps del: filter_False filter_empty_conv)

lemma nick_vector_cong: "mgr_nicks m' = mgr_nicks m \<Longrightarrow> nick_vector m' = nick_vector m"
  by (rule ext) (simp add: nick_vector_def)

text \<open>A step that concerns \<open>uid\<close> keeps what the index says of the others and creates no empty vector.\<close>

definition index_kept :: "string \<Rightarrow> user_manager \<Rightarrow> user_manager \<Rightarrow> bool" where
  "index_kept uid m m' \<longleftrightarrow> (no_empty_vector m \<longrightarrow> no_empty_vector m') \<and>
    (\<forall>n x. x \<noteq> uid \<longrightarrow> x \<in> set (nick_vector m n) \<longrightarrow> x \<in> set (nick_vector m' n))"

lemma index_kept_same: "mgr_nicks m' = mgr_nicks m \<Longrightarrow> index_kept uid m m'"
  by (simp add: index_kept_def no_empty_vector_def nick_vector_def)

lemma index_kept_trans: "index_kept uid m m' \<Longrightarrow> index_kept uid m' m'' \<Longrightarrow> index_kept uid m m''"
  by (auto simp: index_kept_def)

lemma index_kept_push: "index_kept uid m (push_nick n uid m)"
  by (auto simp: index_kept_def no_empty_vector_def push_nick_def nick_vector_def hash_simps)

lemma index_kept_drop: "index_kept uid m (drop_nick n uid m)"
proof -
  have "no_empty_vector m \<Longrightarrow> no_empty_vector (drop_nick n uid m)"
    by (auto simp: no_empty_vector_def drop_nick_def Let_def hash_simps split: option.split)
  then show ?thesis by (simp add: index_kept_def)
qed

lemma index_kept_cong: "index_kept uid m m' \<Longrightarrow> mgr_nicks m'' = mgr_nicks m' \<Longrightarrow> index_kept uid m m''"
  by (simp add: index_kept_def no_empty_vector_def nick_vector_def)

lemma index_kept_move: "index_kept uid m (push_nick n uid (drop_nick k uid m))"
  by (rule index_kept_trans [OF index_kept_drop index_kept_push])

subsection \<open>Every operation keeps the users findable\<close>

lemma index_ok_change:
  assumes "index_ok H m" "index_kept uid m m'" "user_of m' = (user_of m)(uid := new)"
    and "\<And>u. new = Some u \<Longrightarrow> u_uid u = uid \<and> (uid \<in> H \<or> uid \<in> set (nick_vector m' (irc_to_lower (u_nick u))))"
  shows "index_ok H m'"
  unfolding index_ok_def
proof (intro conjI allI impI)
  show "no_empty_vector m'" using assms(1,2) by (simp add: index_ok_def index_kept_def)
  fix x u assume u: "user_of m' x = Some u"
  have "u_uid u = x \<and> (x \<in> H \<or> x \<in> set (nick_vector m' (irc_to_lower (u_nick u))))"
  proof (cases "x = uid")
    case True
    then show ?thesis using assms(3,4) u by simp
  next
    case False
    then show ?thesis using assms(1-3) u unfolding index_ok_def index_kept_def by (metis fun_upd_other)
  qed
  then show "u_uid u = x" "x \<in> H \<or> x \<in> set (nick_vector m' (irc_to_lower (u_nick u)))" by simp_all
qed

lemma index_ok_cong:
  assumes "index_ok H m" "mgr_users m' = mgr_users m" "mgr_nicks m' = mgr_nicks m"
  shows "index_ok H m'"
  using assms by (simp add: index_ok_def user_of_def no_empty_vector_def nick_vector_def)

lemma index_ok_grow:
  assumes "index_ok H m" "no_empty_vector m'" "\<And>n. set (nick_vector m n) \<subseteq> set (nick_vector m' n)"
    "mgr_users m' = mgr_users m"
  shows "index_ok H m'"
  unfolding index_ok_def
proof (intro conjI allI impI)
  fix x u assume "user_of m' x = Some u"
  then have "u_uid u = x \<and> (x \<in> H \<or> x \<in> set (nick_vector m (irc_to_lower (u_nick u))))"
    using assms(1,4) by (simp add: index_ok_def user_of_def)
  then show "u_uid u = x" "x \<in> H \<or> x \<in> set (nick_vector m' (irc_to_lower (u_nick u)))" using assms(3) by blast+
qed (rule assms(2))

lemma index_ok_kept:
  assumes "index_ok H m" "index_kept uid m m'" "mgr_users m' = mgr_users m" "user_of m uid = None"
  shows "index_ok H m'"
proof (rule index_ok_change [OF assms(1,2)])
  show "user_of m' = (user_of m)(uid := None)" using assms(3,4) by (simp add: user_of_def fun_upd_idem)
qed simp

lemma index_okD:
  "index_ok H m \<Longrightarrow> user_of m uid = Some u \<Longrightarrow>
    u_uid u = uid \<and> (uid \<in> H \<or> uid \<in> set (nick_vector m (irc_to_lower (u_nick u))))"
  by (simp add: index_ok_def)

lemma index_ok_insert:
  assumes "index_ok H m" "mgr_users m' = AList.update (u_uid u) u (mgr_users m)"
    "mgr_nicks m' = mgr_nicks (push_nick (irc_to_lower (u_nick u)) (u_uid u) m)"
  shows "index_ok H m'"
proof (rule index_ok_change [OF assms(1)])
  show "index_kept (u_uid u) m m'" by (rule index_kept_cong [OF index_kept_push assms(3)])
  show "user_of m' = (user_of m)(u_uid u := Some u)" by (simp add: user_of_def assms(2) hash_simps)
qed (simp add: nick_vector_cong [OF assms(3)])

lemma index_ok_delete:
  assumes "index_ok H m" "mgr_users m' = AList.delete uid (mgr_users m)" "mgr_nicks m' = mgr_nicks (drop_nick n uid m)"
  shows "index_ok H m'"
proof (rule index_ok_change [OF assms(1)])
  show "index_kept uid m m'" by (rule index_kept_cong [OF index_kept_drop assms(3)])
  show "user_of m' = (user_of m)(uid := None)" by (simp add: user_of_def assms(2) hash_simps)
qed simp

lemma index_ok_replace:
  assumes "index_ok H m" "user_of m uid = Some u" "u_uid u' = uid"
    "mgr_users m' = AList.update uid u' (mgr_users m)"
    "mgr_nicks m' = (if irc_to_lower (u_nick u) \<noteq> irc_to_lower (u_nick u')
       then mgr_nicks (push_nick (irc_to_lower (u_nick u')) uid (drop_nick (irc_to_lower (u_nick u)) uid m))
       else mgr_nicks m)"
  shows "index_ok H m'"
proof (rule index_ok_change [OF assms(1)])
  show "index_kept uid m m'"
    by (cases "irc_to_lower (u_nick u) = irc_to_lower (u_nick u')")
      (use assms(5) in \<open>auto intro: index_kept_same index_kept_cong [OF index_kept_move]\<close>)
  show "user_of m' = (user_of m)(uid := Some u')" by (simp add: user_of_def assms(4) hash_simps)
  show "u_uid v = uid \<and> (uid \<in> H \<or> uid \<in> set (nick_vector m' (irc_to_lower (u_nick v))))" if "Some u' = Some v" for v
  proof (cases "irc_to_lower (u_nick u) = irc_to_lower (u_nick u')")
    case True
    then have "nick_vector m' = nick_vector m" by (intro nick_vector_cong) (simp add: assms(5))
    then show ?thesis using that assms(3) index_okD [OF assms(1,2)] True by simp
  next
    case False
    then have "nick_vector m' = nick_vector (push_nick (irc_to_lower (u_nick u')) uid
        (drop_nick (irc_to_lower (u_nick u)) uid m))" by (intro nick_vector_cong) (simp add: assms(5))
    then show ?thesis using that assms(3) by simp
  qed
qed

lemma u_uid_merge [simp]: "u_uid (user_merge_crdt c u) = u_uid u" "u_uid (user_from_crdt c) = uc_uid c"
  by (simp_all add: user_merge_crdt_def user_from_crdt_def Let_def)

text \<open>The tables after each operation, in terms of the lookup.\<close>

lemma kill_user_tables:
  assumes "user_of m uid = Some u"
  shows "mgr_users (fst (kill_user now uid r m)) = AList.delete uid (mgr_users m)"
    "mgr_nicks (fst (kill_user now uid r m)) = mgr_nicks (drop_nick (irc_to_lower (u_nick u)) uid m)"
  using assms by (simp_all add: user_of_def kill_user_def Let_def drop_nick_def split: option.split)

lemma kill_user_none: "user_of m uid = None \<Longrightarrow> kill_user now uid r m = (m, [])"
  by (simp add: user_of_def kill_user_def)

lemma index_ok_kill [inv_intros]: "index_ok H m \<Longrightarrow> index_ok H (fst (kill_user now uid r m))"
  using index_ok_delete [of H m "fst (kill_user now uid r m)" uid] kill_user_tables kill_user_none
  by (cases "user_of m uid") auto

lemma insert_merged_tables:
  "mgr_users (insert_merged c s m) = AList.update (uc_uid c) (user_from_crdt c) (mgr_users m)"
  "mgr_nicks (insert_merged c s m) = mgr_nicks (push_nick (irc_to_lower (u_nick (user_from_crdt c))) (uc_uid c) m)"
  by (simp_all add: insert_merged_def Let_def push_nick_def)

lemma merge_existing_tables:
  "mgr_users (merge_existing c u m) = AList.update (uc_uid c) (user_merge_crdt c u) (mgr_users m)"
  "mgr_nicks (merge_existing c u m) =
    (if irc_to_lower (u_nick u) \<noteq> irc_to_lower (u_nick (user_merge_crdt c u))
     then mgr_nicks (push_nick (irc_to_lower (u_nick (user_merge_crdt c u))) (uc_uid c)
            (drop_nick (irc_to_lower (u_nick u)) (uc_uid c) m))
     else mgr_nicks m)"
  by (simp_all add: merge_existing_def Let_def push_nick_def drop_nick_def split: option.split)

definition merged_user :: "user_crdt \<Rightarrow> user_manager \<Rightarrow> user" where
  "merged_user c m = (case user_of m (uc_uid c) of Some u \<Rightarrow> user_merge_crdt c u | None \<Rightarrow> user_from_crdt c)"

lemma perform_merge_users:
  "mgr_users (fst (perform_merge c s m)) = AList.update (uc_uid c) (merged_user c m) (mgr_users m)"
  by (simp add: perform_merge_def Let_def merged_user_def user_of_def insert_merged_tables merge_existing_tables
      split: option.split)

lemma index_ok_merge [inv_intros]:
  assumes "index_ok H m"
  shows "index_ok H (fst (perform_merge c s m))"
proof (cases "user_of m (uc_uid c)")
  case None
  have "fst (perform_merge c s m) = insert_merged c s m"
    using None by (simp add: perform_merge_def user_of_def Let_def)
  moreover have "index_ok H (insert_merged c s m)"
    by (rule index_ok_insert [OF assms, of _ "user_from_crdt c"]) (simp_all add: insert_merged_tables)
  ultimately show ?thesis by (simp only:)
next
  case (Some u)
  have uid: "u_uid u = uc_uid c" using index_okD [OF assms Some] by simp
  have "fst (perform_merge c s m) = merge_existing c u m"
    using Some by (simp add: perform_merge_def user_of_def Let_def)
  moreover have "index_ok H (merge_existing c u m)"
    by (rule index_ok_replace [OF assms Some, of "user_merge_crdt c u"]) (simp_all only: merge_existing_tables u_uid_merge uid)
  ultimately show ?thesis by (simp only:)
qed

lemma restore_nick_users [simp]: "mgr_users (restore_nick uid m) = mgr_users m"
  by (simp add: restore_nick_def Let_def split: option.split)

lemma index_ok_restore [inv_intros]:
  assumes "index_ok H m"
  shows "index_ok H (restore_nick uid m)"
proof (rule index_ok_grow [OF assms])
  show "no_empty_vector (restore_nick uid m)" using assms
    by (auto simp: index_ok_def restore_nick_def no_empty_vector_def Let_def hash_simps split: option.split)
  show "set (nick_vector m n) \<subseteq> set (nick_vector (restore_nick uid m) n)" for n
    by (auto simp: restore_nick_def nick_vector_def Let_def hash_simps split: option.splits)
qed simp

lemma merge_user_crdt_cases:
  "fst (merge_user_crdt now c s m) =
    (case collision_of c m of
       None \<Rightarrow> fst (perform_merge c s m)
     | Some (uid, ts) \<Rightarrow>
         if lww_timestamp (uc_nick c) < ts
         then fst (perform_merge c s (fst (kill_user now uid ''Nick collision (older wins)'' m)))
         else if ts < lww_timestamp (uc_nick c)
         then restore_nick uid (fst (kill_user now (uc_uid c) ''Nick collision (newer loses)'' (fst (perform_merge c s m))))
         else fst (kill_user now (uc_uid c) ''Nick collision (tie)''
                (fst (perform_merge c s (fst (kill_user now uid ''Nick collision (tie)'' m))))))"
  by (auto simp: merge_user_crdt_def Let_def prod.case_eq_if split: option.split)

lemma index_ok_merge_user [inv_intros]: "index_ok H m \<Longrightarrow> index_ok H (fst (merge_user_crdt now c s m))"
  by (subst merge_user_crdt_cases) (auto split: option.split intro: index_ok_merge index_ok_kill index_ok_restore)

lemma add_local_user_tables:
  "mgr_users (fst (add_local_user u m)) = AList.update (u_uid u) u (mgr_users m)"
  "mgr_nicks (fst (add_local_user u m)) = mgr_nicks (push_nick (irc_to_lower (u_nick u)) (u_uid u) m)"
  by (simp_all add: add_local_user_def Let_def push_nick_def)

lemma index_ok_add_local [inv_intros]: "index_ok H m \<Longrightarrow> index_ok H (fst (add_local_user u m))"
  by (rule index_ok_insert) (simp_all add: add_local_user_tables)

lemma index_ok_service [inv_intros]: "index_ok H m \<Longrightarrow> index_ok H (register_service_user u m)"
  by (rule index_ok_insert) (simp_all add: register_service_user_def Let_def push_nick_def)

end
