(* ===== verification/Nick_Registry.thy ===== *)
theory Nick_Registry
  imports User_Manager
begin

text \<open>
  The handlers outside the user manager that write its tables: \<open>NICK\<close>
  (\<open>src/handlers/connection/nick.rs\<close>), the end of a registration
  (\<open>src/handlers/connection/welcome_burst.rs\<close>) and the release of a nickname when it fails
  (\<open>src/network/connection/handshake.rs\<close>), \<open>SANICK\<close> (\<open>src/handlers/admin.rs\<close>), the forced nickname of
  services (\<open>src/services/effect.rs\<close>) and the disconnection of a user (\<open>src/state/matrix.rs\<close>).

  What these read from elsewhere is in \<open>nick_env\<close>: the casemapping and the multiclient settings, the
  classification of characters (Unicode's tables), the crate \<open>confusables\<close>, the answers of the database
  and of channel actors.  A send on the session's own queue succeeds: its receiver belongs to the same
  task.
\<close>

section \<open>Claiming a nickname\<close>

record nick_session =
  ns_uid :: string
  ns_nick :: "string option"
  ns_registered :: bool
  ns_account :: "string option"

record nick_env =
  ne_precis :: bool
  ne_is_alphabetic :: "string \<Rightarrow> bool"
  ne_is_alphanumeric :: "string \<Rightarrow> bool"
  ne_confusable :: "string \<Rightarrow> string \<Rightarrow> bool"
  ne_registered_nicks :: "string list option"
  ne_multiclient :: bool
  ne_allowed_by_default :: bool
  ne_override :: "string \<Rightarrow> bool option"
  ne_no_nick_change :: "string \<Rightarrow> string option"
  ne_enforced :: "string \<Rightarrow> bool"

datatype nick_error = NickNeedMoreParams | ErroneousNickname string | NicknameInUse string

definition is_multiclient_enabled :: "nick_env \<Rightarrow> bool option \<Rightarrow> bool" where
  "is_multiclient_enabled e account_setting =
    (if \<not> ne_multiclient e then False
     else (case account_setting of Some b \<Rightarrow> b | None \<Rightarrow> ne_allowed_by_default e))"

definition parse_nick_params :: "string list \<Rightarrow> nick_error + string" where
  "parse_nick_params args =
    (case args of
       [] \<Rightarrow> Inl NickNeedMoreParams
     | nick # _ \<Rightarrow> if nick = [] then Inl NickNeedMoreParams else Inr nick)"

definition is_nick_special :: "string \<Rightarrow> bool" where
  "is_nick_special c = (c \<in> {''['', '']'', [CHR 0x5C], [CHR 0x60], ''_'', ''^'', ''{'', ''|'', ''}''})"

definition is_valid_nick_precis :: "nick_env \<Rightarrow> string \<Rightarrow> bool" where
  "is_valid_nick_precis e nick =
    (if nick = [] then False
     else if length nick > 30 then False
     else (case rust_chars nick of
             [] \<Rightarrow> False
           | first # chars \<Rightarrow>
               if \<not> (ne_is_alphabetic e first \<or> is_nick_special first) then False
               else list_all (\<lambda>c. ne_is_alphanumeric e c \<or> is_nick_special c \<or> c = ''-'') chars))"

definition are_nicks_confusable :: "nick_env \<Rightarrow> string \<Rightarrow> string \<Rightarrow> bool" where
  "are_nicks_confusable e nick1 nick2 = (ne_confusable e nick1 nick2 \<or> ne_confusable e nick2 nick1)"

definition account_of :: "user_manager \<Rightarrow> string \<Rightarrow> string option" where
  "account_of m uid = (case map_of (mgr_users m) uid of Some u \<Rightarrow> u_account u | None \<Rightarrow> None)"

text \<open>The two loops under the PRECIS casemapping: over the nicknames in use and over those registered.\<close>

definition nick_confusable :: "nick_env \<Rightarrow> nick_session \<Rightarrow> string \<Rightarrow> user_manager \<Rightarrow> bool" where
  "nick_confusable e s nick m =
    (list_ex (\<lambda>(_, uids). ns_uid s \<notin> set uids \<and>
        (case uids of
           [] \<Rightarrow> False
         | first # _ \<Rightarrow> (case map_of (mgr_users m) first of
             Some u \<Rightarrow> are_nicks_confusable e nick (u_nick u) | None \<Rightarrow> False))) (mgr_nicks m)
     \<or> (case ne_registered_nicks e of
          None \<Rightarrow> False
        | Some rs \<Rightarrow> list_ex (\<lambda>r. are_nicks_confusable e nick r \<and> irc_to_lower nick \<noteq> irc_to_lower r \<and>
            irc_to_lower r \<noteq> irc_to_lower (case ns_nick s of Some n \<Rightarrow> n | None \<Rightarrow> [])) rs))"

definition claim_nick :: "nick_env \<Rightarrow> nick_session \<Rightarrow> string \<Rightarrow> user_manager \<Rightarrow> nick_error + user_manager" where
  "claim_nick e s nick m =
    (let nick_lower = irc_to_lower nick; uid = ns_uid s in
     case map_of (mgr_nicks m) nick_lower of
       None \<Rightarrow> Inr (m\<lparr>mgr_nicks := AList.update nick_lower [uid] (mgr_nicks m)\<rparr>)
     | Some existing_uids \<Rightarrow>
         if uid \<in> set existing_uids then Inr m
         else
           let current_account =
                 (case map_of (mgr_users m) uid of Some u \<Rightarrow> u_account u | None \<Rightarrow> ns_account s);
               existing_account = (case existing_uids of first # _ \<Rightarrow> account_of m first | [] \<Rightarrow> None);
               pushed = m\<lparr>mgr_nicks := AList.update nick_lower (existing_uids @ [uid]) (mgr_nicks m)\<rparr>
           in (case current_account of
                 Some acc \<Rightarrow>
                   if existing_account = Some acc then
                     (if is_multiclient_enabled e (ne_override e acc) then Inr pushed else Inl (NicknameInUse nick))
                   else if \<not> ns_registered s \<and> is_multiclient_enabled e (ne_override e acc) then Inr pushed
                   else Inl (NicknameInUse nick)
               | None \<Rightarrow>
                   if \<not> ns_registered s \<and> ne_multiclient e then Inr pushed else Inl (NicknameInUse nick)))"

section \<open>\<open>NICK\<close>\<close>

datatype nick_effect =
    NoNickChangeReply string string
  | MonitorOffline string
  | MonitorOnline string string string
  | NickToSelf string string string string
  | NickToChannel string string string string string
  | NickToAccount string string
  | ClientNick string string
  | ObserverCall observer_call
  | ClearEnforceTimer string
  | StartEnforceTimer string
  | EnforceNotice string

text \<open>The first channel of the user that forbids nickname changes, by the name it reports.\<close>

definition no_nick_change :: "nick_env \<Rightarrow> nick_session \<Rightarrow> user_manager \<Rightarrow> string option" where
  "no_nick_change e s m =
    (if ns_registered s then
       (case map_of (mgr_users m) (ns_uid s) of
          Some u \<Rightarrow> (case List.map_filter (ne_no_nick_change e) (u_channels u) of name # _ \<Rightarrow> Some name | [] \<Rightarrow> None)
        | None \<Rightarrow> None)
     else None)"

text \<open>The notices of a registered user's change, and the new nickname in the user's record.\<close>

definition announce_nick ::
  "nick_env \<Rightarrow> nick_session \<Rightarrow> string \<Rightarrow> string \<Rightarrow> user_manager \<Rightarrow> user_manager \<times> nick_effect list" where
  "announce_nick e s old_nick nick m =
    (let uid = ns_uid s;
         user = map_of (mgr_users m) uid;
         (usr, host, channels) =
           (case user of Some u \<Rightarrow> (u_user u, u_visible_host u, u_channels u) | None \<Rightarrow> (''user'', ''host'', []));
         m = (case user of
                Some u \<Rightarrow> m\<lparr>mgr_users := AList.update uid (u\<lparr>u_nick := nick\<rparr>) (mgr_users m)\<rparr>
              | None \<Rightarrow> m);
         account = (case user of Some u \<Rightarrow> u_account u | None \<Rightarrow> None)
     in (m, NickToSelf old_nick usr host nick
          # map (\<lambda>ch. NickToChannel ch old_nick usr host nick) channels
          @ (case ns_account s of Some acc \<Rightarrow> if ne_multiclient e then [NickToAccount acc nick] else [] | None \<Rightarrow> [])
          @ (case account of Some acc \<Rightarrow> if ne_multiclient e then [ClientNick acc nick] else [] | None \<Rightarrow> [])
          @ map ObserverCall (mgr_notify_observer m uid None)))"

definition enforce_nick :: "nick_env \<Rightarrow> string \<Rightarrow> string \<Rightarrow> user_manager \<Rightarrow> nick_effect list" where
  "enforce_nick e uid nick m =
    (let is_identified = (case map_of (mgr_users m) uid of Some u \<Rightarrow> m_registered (u_modes u) | None \<Rightarrow> False)
     in if \<not> is_identified \<and> ne_enforced e nick then [StartEnforceTimer uid, EnforceNotice nick] else [])"

text \<open>What follows a successful claim.\<close>

definition change_nick ::
  "nick_env \<Rightarrow> nick_session \<Rightarrow> string \<Rightarrow> user_manager \<Rightarrow> nick_session \<times> user_manager \<times> nick_effect list" where
  "change_nick e s nick m =
    (let uid = ns_uid s;
         nick_lower = irc_to_lower nick;
         case_only = (case ns_nick s of Some old \<Rightarrow> irc_to_lower old = nick_lower | None \<Rightarrow> False);
         (m, effs1) =
           (case ns_nick s of
              None \<Rightarrow> (m, [])
            | Some old \<Rightarrow>
                (if irc_to_lower old \<noteq> nick_lower then drop_nick (irc_to_lower old) uid m else m,
                 (if ns_registered s \<and> \<not> case_only then [MonitorOffline old] else []) @ [ClearEnforceTimer uid]));
         (m, effs2) =
           (case ns_nick s of
              Some old \<Rightarrow> if ns_registered s then announce_nick e s old nick m else (m, [])
            | None \<Rightarrow> (m, []));
         effs3 =
           (if ns_registered s \<and> \<not> case_only
            then (case map_of (mgr_users m) uid of
                    Some u \<Rightarrow> [MonitorOnline nick (u_user u) (u_visible_host u)] | None \<Rightarrow> [])
            else [])
     in (s\<lparr>ns_nick := Some nick\<rparr>, m, effs1 @ effs2 @ effs3 @ enforce_nick e uid nick m))"

definition nick_handler ::
  "nick_env \<Rightarrow> nick_session \<Rightarrow> string list \<Rightarrow> user_manager \<Rightarrow>
   nick_error + (nick_session \<times> user_manager \<times> nick_effect list)" where
  "nick_handler e s args m =
    (case parse_nick_params args of
       Inl err \<Rightarrow> Inl err
     | Inr nick \<Rightarrow>
         if \<not> (if ne_precis e then is_valid_nick_precis e nick else is_valid_nick nick)
         then Inl (ErroneousNickname nick)
         else if ns_nick s = Some nick then Inr (s, m, [])
         else if ne_precis e \<and> nick_confusable e s nick m then Inl (NicknameInUse nick)
         else (case claim_nick e s nick m of
                 Inl err \<Rightarrow> Inl err
               | Inr m \<Rightarrow>
                   (case no_nick_change e s m of
                      Some name \<Rightarrow> Inr (s, m, [NoNickChangeReply nick name])
                    | None \<Rightarrow> Inr (change_nick e s nick m))))"

section \<open>Registration\<close>

text \<open>The check of the nickname under multiclient: whether the registration goes on, after the claim has
  been dropped where the accounts differ.\<close>

definition welcome_check :: "nick_env \<Rightarrow> nick_session \<Rightarrow> string \<Rightarrow> user_manager \<Rightarrow> user_manager \<times> bool" where
  "welcome_check e s nick m =
    (if \<not> ne_multiclient e then (m, True)
     else
       let nick_lower = irc_to_lower nick;
           uid = ns_uid s;
           existing = map_of (mgr_nicks m) nick_lower;
           has_other = (case existing of Some v \<Rightarrow> list_ex (\<lambda>u. u \<noteq> uid) v | None \<Rightarrow> False)
       in if (case ns_account s of
                Some acc \<Rightarrow> \<not> is_multiclient_enabled e (ne_override e acc) \<and> has_other
              | None \<Rightarrow> has_other)
          then (m, False)
          else (case existing of
                  Some v \<Rightarrow>
                    if length v > 1 then
                      let existing_account = account_of m (if hd v \<noteq> uid then hd v else v ! 1) in
                      if ns_account s \<noteq> None \<and> existing_account = ns_account s then (m, True)
                      else (drop_nick nick_lower uid m, False)
                    else (m, True)
                | None \<Rightarrow> (m, True)))"

definition welcome_register ::
  "nick_env \<Rightarrow> nick_session \<Rightarrow> user \<Rightarrow> user_manager \<Rightarrow> user_manager \<times> observer_call list" where
  "welcome_register e s u m =
    (case welcome_check e s (u_nick u) m of
       (m, True) \<Rightarrow> add_local_user u m
     | (m, False) \<Rightarrow> (m, []))"

definition release_nick :: "string option \<Rightarrow> string \<Rightarrow> user_manager \<Rightarrow> user_manager" where
  "release_nick nick uid m = (case nick of Some n \<Rightarrow> drop_nick (irc_to_lower n) uid m | None \<Rightarrow> m)"

section \<open>Forced changes and disconnection\<close>

text \<open>The index and the record of a user whose nickname is changed by others.\<close>

definition move_nick :: "string \<Rightarrow> string \<Rightarrow> string \<Rightarrow> user_manager \<Rightarrow> user_manager" where
  "move_nick uid old_nick new_nick m =
    (case map_of (mgr_users m) uid of
       None \<Rightarrow> m
     | Some u \<Rightarrow>
         (push_nick (irc_to_lower new_nick) uid (drop_nick (irc_to_lower old_nick) uid m))
           \<lparr>mgr_users := AList.update uid (u\<lparr>u_nick := new_nick\<rparr>) (mgr_users m)\<rparr>)"

datatype sanick_reply = SaNeedMoreParams | SaNoSuchNick string | SaNickInUse string | SaGone | SaDone string string

text \<open>\<open>SANICK\<close> of an administrator; the channels told of the change are returned with the reply.\<close>

definition sanick_handler :: "string list \<Rightarrow> user_manager \<Rightarrow> user_manager \<times> string list \<times> sanick_reply" where
  "sanick_handler args m =
    (case args of
       old_nick # new_nick # _ \<Rightarrow>
         if old_nick = [] \<or> new_nick = [] then (m, [], SaNeedMoreParams)
         else (case get_first_uid m (irc_to_lower old_nick) of
                 None \<Rightarrow> (m, [], SaNoSuchNick old_nick)
               | Some target_uid \<Rightarrow>
                   if map_of (mgr_nicks m) (irc_to_lower new_nick) \<noteq> None then (m, [], SaNickInUse new_nick)
                   else (case map_of (mgr_users m) target_uid of
                           None \<Rightarrow> (m, [], SaGone)
                         | Some u \<Rightarrow> (move_nick target_uid old_nick new_nick m, u_channels u, SaDone old_nick new_nick)))
     | _ \<Rightarrow> (m, [], SaNeedMoreParams))"

definition force_nick :: "string \<Rightarrow> string \<Rightarrow> string \<Rightarrow> user_manager \<Rightarrow> user_manager \<times> string list" where
  "force_nick target_uid old_nick new_nick m =
    (case map_of (mgr_users m) target_uid of
       None \<Rightarrow> (m, [])
     | Some u \<Rightarrow> (move_nick target_uid old_nick new_nick m, u_channels u))"

definition cleanup_user_state :: "string \<Rightarrow> user \<Rightarrow> user_manager \<Rightarrow> user_manager" where
  "cleanup_user_state uid info m =
    (let m = drop_nick (irc_to_lower (u_nick info)) uid m;
         m = m\<lparr>mgr_users := AList.delete uid (mgr_users m), mgr_senders := AList.delete uid (mgr_senders m)\<rparr>
     in if is_local_uid m uid then
          let m = with_stats user_disconnected m;
              m = (if m_invisible (u_modes info) then with_stats user_unset_invisible m else m)
          in (if m_oper (u_modes info) then with_stats user_deopered m else m)
        else
          let m = with_stats remote_user_disconnected m
          in (if m_oper (u_modes info) then with_stats remote_user_deopered m else m))"

datatype detach_result = Detached | Persisting "string option" | Destroyed | DetachNotFound

text \<open>\<open>disconnect_user_session\<close>: \<open>detach\<close> is the answer of the client manager, with the away message of an
  always-on client; the channels told of the \<open>QUIT\<close> are returned.\<close>

definition disconnect_user :: "int \<Rightarrow> bool \<Rightarrow> detach_result \<Rightarrow> string \<Rightarrow> user_manager \<Rightarrow> user_manager \<times> string list" where
  "disconnect_user now multiclient detach uid m =
    (case map_of (mgr_users m) uid of
       None \<Rightarrow> (m, [])
     | Some u \<Rightarrow>
         let tracked = (multiclient \<and> u_account u \<noteq> None) in
         if tracked \<and> detach = Detached then (m, u_channels u)
         else
           let m = (case detach of
                      Persisting (Some away) \<Rightarrow>
                        if tracked then m\<lparr>mgr_users := AList.update uid (u\<lparr>u_away := Some away\<rparr>) (mgr_users m)\<rparr> else m
                    | _ \<Rightarrow> m);
               m = record_whowas now (u_nick u) (u_user u) (u_host u) (u_realname u) m
           in (cleanup_user_state uid u m, u_channels u))"

section \<open>Findable users\<close>

lemma claim_nick_cases:
  assumes "claim_nick e s nick m = Inr m'"
  shows "m' = push_nick (irc_to_lower nick) (ns_uid s) m \<or>
    m' = m \<and> ns_uid s \<in> set (nick_vector m (irc_to_lower nick))"
  using assms
  by (auto simp: claim_nick_def push_nick_def nick_vector_def Let_def split: option.splits if_splits)

lemma claim_nick_frame:
  assumes "claim_nick e s nick m = Inr m'"
  shows "mgr_users m' = mgr_users m" "index_kept (ns_uid s) m m'"
    "ns_uid s \<in> set (nick_vector m' (irc_to_lower nick))"
  using claim_nick_cases [OF assms] by (auto intro: index_kept_push index_kept_same)

lemma index_ok_claim [inv_intros]:
  assumes "index_ok H m" "claim_nick e s nick m = Inr m'"
  shows "index_ok H m'"
proof (rule index_ok_grow [OF assms(1)])
  show "no_empty_vector m'"
    using assms(1) claim_nick_frame(2) [OF assms(2)] by (simp add: index_ok_def index_kept_def)
  show "set (nick_vector m n) \<subseteq> set (nick_vector m' n)" for n
    using claim_nick_cases [OF assms(2)] by auto
qed (rule claim_nick_frame [OF assms(2)])

lemma announce_nick_tables:
  "mgr_users (fst (announce_nick e s old nick m)) =
    (case user_of m (ns_uid s) of Some u \<Rightarrow> AList.update (ns_uid s) (u\<lparr>u_nick := nick\<rparr>) (mgr_users m) | None \<Rightarrow> mgr_users m)"
  "mgr_nicks (fst (announce_nick e s old nick m)) = mgr_nicks m"
  by (simp_all add: announce_nick_def user_of_def Let_def split: option.split)

text \<open>A user whose nickname becomes \<open>nick\<close>, once the index lists it there.\<close>

lemma index_ok_renamed:
  assumes "index_ok H m" "user_of m uid = Some u" "index_kept uid m m'"
    "mgr_users m' = AList.update uid (u\<lparr>u_nick := nick\<rparr>) (mgr_users m)"
    "uid \<in> set (nick_vector m' (irc_to_lower nick))"
  shows "index_ok H m'"
proof (rule index_ok_change [OF assms(1,3)])
  show "user_of m' = (user_of m)(uid := Some (u\<lparr>u_nick := nick\<rparr>))" by (simp add: user_of_def assms(4) hash_simps)
qed (use assms(5) index_okD [OF assms(1,2)] in auto)

lemma index_ok_announce:
  assumes "index_ok H m" "index_kept (ns_uid s) m m'" "mgr_users m' = mgr_users m"
    "ns_uid s \<in> set (nick_vector m' (irc_to_lower nick))"
  shows "index_ok H (fst (announce_nick e s old nick m'))"
proof (cases "user_of m (ns_uid s)")
  case None
  show ?thesis
    by (rule index_ok_kept [OF assms(1) index_kept_cong [OF assms(2)] _ None])
      (use None assms(3) in \<open>simp_all add: announce_nick_tables user_of_def\<close>)
next
  case (Some u)
  show ?thesis
    by (rule index_ok_renamed [OF assms(1) Some index_kept_cong [OF assms(2)]])
      (use Some assms(3,4) in \<open>simp_all add: announce_nick_tables user_of_def nick_vector_def\<close>)
qed

lemma change_nick_manager:
  "fst (snd (change_nick e s nick m)) =
    (case ns_nick s of
       None \<Rightarrow> m
     | Some old \<Rightarrow>
         let m = (if irc_to_lower old \<noteq> irc_to_lower nick then drop_nick (irc_to_lower old) (ns_uid s) m else m)
         in if ns_registered s then fst (announce_nick e s old nick m) else m)"
  by (simp add: change_nick_def Let_def prod.case_eq_if split: option.split)

lemma index_ok_change_nick:
  assumes "index_ok H m" "ns_registered s \<or> user_of m (ns_uid s) = None" "claim_nick e s nick m = Inr m1"
  shows "index_ok H (fst (snd (change_nick e s nick m1)))"
proof (cases "ns_nick s")
  case None
  then show ?thesis using index_ok_claim [OF assms(1,3)] by (simp add: change_nick_manager)
next
  case (Some old)
  note f = claim_nick_frame [OF assms(3)]
  define m2 where "m2 = (if irc_to_lower old \<noteq> irc_to_lower nick then drop_nick (irc_to_lower old) (ns_uid s) m1 else m1)"
  have m2: "index_kept (ns_uid s) m m2" "mgr_users m2 = mgr_users m" "ns_uid s \<in> set (nick_vector m2 (irc_to_lower nick))"
    using f index_kept_trans [OF f(2) index_kept_drop] by (simp_all add: m2_def)
  have "fst (snd (change_nick e s nick m1)) = (if ns_registered s then fst (announce_nick e s old nick m2) else m2)"
    by (simp add: change_nick_manager Some m2_def Let_def)
  then show ?thesis
    using index_ok_announce [OF assms(1) m2] index_ok_kept [OF assms(1) m2(1,2)] assms(2) by auto
qed

lemma nick_handler_cases:
  assumes "nick_handler e s args m = Inr (s', m', effs)"
  obtains "m' = m"
    | nick m1 where "claim_nick e s nick m = Inr m1" "m' = m1"
    | nick m1 where "claim_nick e s nick m = Inr m1" "m' = fst (snd (change_nick e s nick m1))"
  using assms unfolding nick_handler_def
  by (auto split: sum.splits if_splits option.splits)

lemma index_ok_nick [inv_intros]:
  assumes "index_ok H m" "ns_registered s \<or> user_of m (ns_uid s) = None" "nick_handler e s args m = Inr (s', m', effs)"
  shows "index_ok H m'"
  using assms(3)
  by (cases rule: nick_handler_cases) (auto intro: assms(1) index_ok_claim [OF assms(1)] index_ok_change_nick [OF assms(1,2)])

lemma index_ok_drop:
  assumes "index_ok H m" "user_of m uid = None \<or> uid \<in> H"
  shows "index_ok H (drop_nick n uid m)"
proof (rule index_ok_change [OF assms(1) index_kept_drop])
  show "user_of (drop_nick n uid m) = (user_of m)(uid := user_of m uid)" by (simp add: user_of_def)
qed (use assms index_okD [OF assms(1)] in auto)

lemma index_ok_mono: "index_ok H m \<Longrightarrow> H \<subseteq> H' \<Longrightarrow> index_ok H' m"
  by (auto simp: index_ok_def)

lemma index_ok_welcome [inv_intros]:
  assumes "index_ok H m" "user_of m (ns_uid s) = None"
  shows "index_ok H (fst (welcome_register e s u m))"
proof -
  have "fst (welcome_check e s (u_nick u) m) = m \<or>
      fst (welcome_check e s (u_nick u) m) = drop_nick (irc_to_lower (u_nick u)) (ns_uid s) m"
    by (auto simp: welcome_check_def Let_def split: option.split)
  then have "index_ok H (fst (welcome_check e s (u_nick u) m))" using assms index_ok_drop by auto
  then show ?thesis by (auto simp: welcome_register_def split: prod.split bool.split intro: index_ok_add_local)
qed

lemma index_ok_release [inv_intros]:
  assumes "index_ok H m"
  shows "index_ok (if user_of m uid = None then H else insert uid H) (release_nick nick uid m)"
proof (cases nick)
  case None
  then show ?thesis using index_ok_mono [OF assms, of "insert uid H"] assms by (auto simp: release_nick_def)
next
  case (Some n)
  have "index_ok (if user_of m uid = None then H else insert uid H) m" by (rule index_ok_mono [OF assms]) auto
  then show ?thesis unfolding release_nick_def Some option.case by (rule index_ok_drop) simp
qed

lemma index_ok_move [inv_intros]:
  assumes "index_ok H m"
  shows "index_ok H (move_nick uid old new m)"
proof (cases "user_of m uid")
  case None
  then show ?thesis using assms by (simp add: move_nick_def user_of_def)
next
  case (Some u)
  have nicks: "mgr_nicks (move_nick uid old new m) =
      mgr_nicks (push_nick (irc_to_lower new) uid (drop_nick (irc_to_lower old) uid m))"
    using Some by (simp add: move_nick_def user_of_def)
  show ?thesis
  proof (rule index_ok_renamed [OF assms Some index_kept_cong [OF index_kept_move nicks]])
    show "uid \<in> set (nick_vector (move_nick uid old new m) (irc_to_lower new))"
      unfolding nick_vector_cong [OF nicks] by simp
  qed (use Some in \<open>simp add: move_nick_def user_of_def\<close>)
qed

lemma index_ok_sanick [inv_intros]: "index_ok H m \<Longrightarrow> index_ok H (fst (sanick_handler args m))"
  by (auto simp: sanick_handler_def split: list.split option.split intro: index_ok_move)

lemma index_ok_force_nick [inv_intros]: "index_ok H m \<Longrightarrow> index_ok H (fst (force_nick uid old new m))"
  by (auto simp: force_nick_def split: option.split intro: index_ok_move)

lemma cleanup_user_state_tables:
  "mgr_users (cleanup_user_state uid u m) = AList.delete uid (mgr_users m)"
  "mgr_nicks (cleanup_user_state uid u m) = mgr_nicks (drop_nick (irc_to_lower (u_nick u)) uid m)"
  by (simp_all add: cleanup_user_state_def Let_def)

lemma index_ok_disconnect [inv_intros]:
  assumes "index_ok H m"
  shows "index_ok H (fst (disconnect_user now mc d uid m))"
proof (cases "user_of m uid")
  case None
  then show ?thesis using assms by (simp add: disconnect_user_def user_of_def)
next
  case (Some u)
  let ?m = "fst (disconnect_user now mc d uid m)"
  have "?m = m \<or> mgr_users ?m = AList.delete uid (mgr_users m) \<and>
      mgr_nicks ?m = mgr_nicks (drop_nick (irc_to_lower (u_nick u)) uid m)"
    using Some
    by (auto simp: disconnect_user_def user_of_def Let_def cleanup_user_state_tables drop_nick_def
        delete_update_same split: option.splits detach_result.splits)
  then show ?thesis using assms index_ok_delete [OF assms, of ?m uid] by auto
qed

end
