(* ===== verification/User_Tables.thy ===== *)
theory User_Tables
  imports Nick_Registry
begin

text \<open>
  What holds of the tables of the user manager whatever the server does with them: every user is found
  under its nickname, and the WHOWAS history stays within its limits.  The steps are those of the user
  manager and of the handlers of \<open>Nick_Registry\<close>, each taken as a whole.
\<close>

section \<open>Users after a merge and a removal\<close>

lemma user_of_kill: "user_of (fst (kill_user now uid r m)) = (user_of m)(uid := None)"
proof (cases "user_of m uid")
  case None
  then show ?thesis by (simp add: kill_user_none fun_upd_idem)
next
  case (Some u)
  then show ?thesis by (simp add: user_of_def kill_user_tables(1) [OF Some] hash_simps)
qed

lemma kill_user_frame:
  "mgr_server_sid (fst (kill_user now uid r m)) = mgr_server_sid m"
  "mgr_whowas_maxgroups (fst (kill_user now uid r m)) = mgr_whowas_maxgroups m"
  "mgr_whowas_groupsize (fst (kill_user now uid r m)) = mgr_whowas_groupsize m"
  by (simp_all add: kill_user_def Let_def is_local_uid_def split: option.split)

lemma user_of_merge: "user_of (fst (perform_merge c s m)) = (user_of m)(uc_uid c \<mapsto> merged_user c m)"
  by (simp add: user_of_def perform_merge_users hash_simps)

lemma perform_merge_frame:
  "mgr_server_sid (fst (perform_merge c s m)) = mgr_server_sid m"
  "mgr_whowas_maxgroups (fst (perform_merge c s m)) = mgr_whowas_maxgroups m"
  "mgr_whowas_groupsize (fst (perform_merge c s m)) = mgr_whowas_groupsize m"
  "mgr_whowas (fst (perform_merge c s m)) = mgr_whowas m"
  "mgr_whowas_lru (fst (perform_merge c s m)) = mgr_whowas_lru m"
  by (simp_all add: perform_merge_def Let_def insert_merged_def merge_existing_def is_local_uid_def split: option.split)

section \<open>The WHOWAS history\<close>

text \<open>
  The recency list has each remembered nickname once, the history exactly those, and both limits hold;
  with \<open>maxgroups = 0\<close> the code still keeps the latest nickname.
\<close>

definition whowas_ok :: "user_manager \<Rightarrow> bool" where
  "whowas_ok m \<longleftrightarrow> distinct (mgr_whowas_lru m) \<and> set (mgr_whowas_lru m) = dom (map_of (mgr_whowas m)) \<and>
    length (mgr_whowas_lru m) \<le> max 1 (mgr_whowas_maxgroups m) \<and>
    (\<forall>n es. map_of (mgr_whowas m) n = Some es \<longrightarrow> length es \<le> mgr_whowas_groupsize m) \<and>
    distinct (map fst (mgr_whowas m))"

lemma evict_lru: "fst (evict g lru w) = drop (length lru - (g - 1)) lru"
  by (induction g lru w rule: evict.induct) (auto simp: not_le Suc_diff_le)

lemma evict_whowas:
  "map_of (snd (evict g lru w)) n = (if n \<in> set (take (length lru - (g - 1)) lru) then None else map_of w n)"
  by (induction g lru w rule: evict.induct) (auto simp: hash_simps not_le Suc_diff_le)

lemma evict_distinct: "distinct (map fst w) \<Longrightarrow> distinct (map fst (snd (evict g lru w)))"
  by (induction g lru w rule: evict.induct) (auto simp: distinct_delete)

definition whowas_of :: "int \<Rightarrow> string \<Rightarrow> string \<Rightarrow> string \<Rightarrow> string \<Rightarrow> user_manager \<Rightarrow> whowas_entry" where
  "whowas_of now nick u h r m = \<lparr>ww_nick = nick, ww_user = u, ww_host = h, ww_realname = r,
     ww_server = mgr_server_name m, ww_logout_time = now\<rparr>"

lemma record_whowas_known:
  assumes "map_of (mgr_whowas m) (irc_to_lower nick) = Some es"
  shows "record_whowas now nick u h r m =
    m\<lparr>mgr_whowas_lru := filter (\<lambda>n. n \<noteq> irc_to_lower nick) (mgr_whowas_lru m) @ [irc_to_lower nick],
      mgr_whowas := AList.update (irc_to_lower nick)
        (take (mgr_whowas_groupsize m) (whowas_of now nick u h r m # es)) (mgr_whowas m)\<rparr>"
  using assms by (simp add: record_whowas_def Let_def whowas_of_def)

lemma record_whowas_fresh:
  fixes m defines "e \<equiv> evict (mgr_whowas_maxgroups m) (mgr_whowas_lru m) (mgr_whowas m)"
  assumes "map_of (mgr_whowas m) (irc_to_lower nick) = None"
  shows "record_whowas now nick u h r m =
    m\<lparr>mgr_whowas_lru := fst e @ [irc_to_lower nick],
      mgr_whowas := AList.update (irc_to_lower nick)
        (take (mgr_whowas_groupsize m) [whowas_of now nick u h r m]) (snd e)\<rparr>"
proof -
  have "map_of (snd e) (irc_to_lower nick) = None" using assms(2) by (simp only: e_def evict_whowas if_cancel)
  then show ?thesis using assms(2) by (simp add: record_whowas_def Let_def whowas_of_def prod.case_eq_if e_def)
qed

text \<open>Exactly the most recent nicknames are kept.\<close>

lemma record_whowas_lru:
  assumes "whowas_ok m"
  shows "mgr_whowas_lru (record_whowas now nick u h r m) =
    (let n = irc_to_lower nick; l = filter (\<lambda>x. x \<noteq> n) (mgr_whowas_lru m) @ [n]
     in drop (length l - max 1 (mgr_whowas_maxgroups m)) l)"
proof (cases "map_of (mgr_whowas m) (irc_to_lower nick)")
  case None
  then have "irc_to_lower nick \<notin> set (mgr_whowas_lru m)" using assms by (auto simp: whowas_ok_def)
  then have "filter (\<lambda>x. x \<noteq> irc_to_lower nick) (mgr_whowas_lru m) = mgr_whowas_lru m" by (auto intro: filter_True)
  moreover have "Suc (length (mgr_whowas_lru m)) - max 1 (mgr_whowas_maxgroups m) =
      length (mgr_whowas_lru m) - (mgr_whowas_maxgroups m - 1)" by (cases "mgr_whowas_maxgroups m") auto
  ultimately show ?thesis by (simp add: record_whowas_fresh [OF None] Let_def evict_lru)
next
  case (Some es)
  then have "irc_to_lower nick \<in> set (mgr_whowas_lru m)" using assms by (auto simp: whowas_ok_def)
  then have "length (filter (\<lambda>x. x \<noteq> irc_to_lower nick) (mgr_whowas_lru m)) < length (mgr_whowas_lru m)"
    by (auto intro: length_filter_less)
  then show ?thesis using assms by (simp add: record_whowas_known [OF Some] Let_def whowas_ok_def)
qed

lemma whowas_ok_record:
  assumes "whowas_ok m"
  shows "whowas_ok (record_whowas now nick u h r m)"
proof -
  define n where "n = irc_to_lower nick"
  define l where "l = filter (\<lambda>x. x \<noteq> n) (mgr_whowas_lru m) @ [n]"
  define d where "d = length l - max 1 (mgr_whowas_maxgroups m)"
  have l: "distinct l" "set l = insert n (dom (map_of (mgr_whowas m)))"
    using assms by (auto simp: l_def whowas_ok_def)
  have lru: "mgr_whowas_lru (record_whowas now nick u h r m) = drop d l"
    unfolding record_whowas_lru [OF assms] by (simp add: n_def l_def d_def Let_def)
  have n: "n \<in> set (drop d l)" by (simp add: l_def d_def)
  have ww: "map_of (mgr_whowas (record_whowas now nick u h r m)) k =
      (if k = n then Some (take (mgr_whowas_groupsize m) (whowas_of now nick u h r m #
          (case map_of (mgr_whowas m) n of Some es \<Rightarrow> es | None \<Rightarrow> [])))
       else if k \<in> set (take d l) then None else map_of (mgr_whowas m) k)" for k
  proof (cases "map_of (mgr_whowas m) n")
    case None
    then have "n \<notin> set (mgr_whowas_lru m)" using assms by (auto simp: whowas_ok_def)
    then have l: "l = mgr_whowas_lru m @ [n]" by (auto simp: l_def intro: filter_True)
    then have d: "d = length (mgr_whowas_lru m) - (mgr_whowas_maxgroups m - 1)"
      unfolding d_def by (cases "mgr_whowas_maxgroups m") auto
    have "take d l = take d (mgr_whowas_lru m)" by (simp add: l d)
    then show ?thesis using None
      by (simp add: record_whowas_fresh [OF None [unfolded n_def]] evict_whowas hash_simps d flip: n_def)
  next
    case (Some es)
    then have "n \<in> set (mgr_whowas_lru m)" using assms by (auto simp: whowas_ok_def)
    then have "length (filter (\<lambda>x. x \<noteq> n) (mgr_whowas_lru m)) < length (mgr_whowas_lru m)"
      by (auto intro: length_filter_less)
    then have "d = 0" using assms by (simp add: d_def l_def whowas_ok_def)
    then show ?thesis using Some
      by (simp add: record_whowas_known [OF Some [unfolded n_def]] hash_simps flip: n_def)
  qed
  have "set (take d l) \<union> set (drop d l) = set l" by (metis append_take_drop_id set_append)
  moreover have "set (take d l) \<inter> set (drop d l) = {}"
    using l(1) by (intro set_take_disj_set_drop_if_distinct) simp_all
  ultimately have drop: "k \<in> set (drop d l) \<longleftrightarrow> k = n \<or> k \<in> dom (map_of (mgr_whowas m)) \<and> k \<notin> set (take d l)" for k
    using l(2) n by blast
  have dom: "set (drop d l) = dom (map_of (mgr_whowas (record_whowas now nick u h r m)))"
  proof (rule set_eqI)
    fix k show "k \<in> set (drop d l) \<longleftrightarrow> k \<in> dom (map_of (mgr_whowas (record_whowas now nick u h r m)))"
      unfolding drop domIff ww by simp
  qed
  have size: "length es \<le> mgr_whowas_groupsize m"
    if "map_of (mgr_whowas (record_whowas now nick u h r m)) k = Some es" for k es
    using that assms unfolding ww whowas_ok_def by (auto split: if_splits)
  have "distinct (map fst (mgr_whowas (record_whowas now nick u h r m)))"
    using assms by (simp add: record_whowas_def Let_def prod.case_eq_if distinct_update evict_distinct whowas_ok_def)
  then show ?thesis
    using l(1) size dom by (simp add: whowas_ok_def lru) (simp add: d_def)
qed

lemma map_of_retain:
  "distinct (map fst W) \<Longrightarrow> map_of (filter (\<lambda>(_, es). es \<noteq> []) (map (\<lambda>(n, es). (n, filter P es)) W)) n =
    (case map_of W n of None \<Rightarrow> None | Some es \<Rightarrow> if filter P es = [] then None else Some (filter P es))"
  by (induction W) (auto split: option.split simp: map_of_None_iff map_of_eq_None_iff image_iff)

lemma distinct_retain:
  "distinct (map fst W) \<Longrightarrow> distinct (map fst (filter (\<lambda>(_, es). es \<noteq> []) (map (\<lambda>(n, es). (n, filter P es)) W)))"
  by (induction W) (auto simp: image_iff)

lemma whowas_ok_cleanup:
  assumes "whowas_ok m"
  shows "whowas_ok (cleanup_whowas now m)"
proof -
  define cutoff where "cutoff = now - mgr_whowas_ttl_days m * 24 * 3600 * 1000"
  define W where "W = mgr_whowas m"
  define removed where "removed = map fst (filter (\<lambda>(_, es). list_all (\<lambda>e. ww_logout_time e \<le> cutoff) es) W)"
  have d: "distinct (map fst W)" "set (mgr_whowas_lru m) = dom (map_of W)" "distinct (mgr_whowas_lru m)"
    "length (mgr_whowas_lru m) \<le> max 1 (mgr_whowas_maxgroups m)"
    and sz: "\<And>n es. map_of W n = Some es \<Longrightarrow> length es \<le> mgr_whowas_groupsize m"
    using assms unfolding whowas_ok_def W_def by blast+
  have lru: "mgr_whowas_lru (cleanup_whowas now m) = filter (\<lambda>n. n \<notin> set removed) (mgr_whowas_lru m)"
  proof -
    have "mgr_whowas_lru (cleanup_whowas now m) =
        (if removed \<noteq> [] then filter (\<lambda>n. n \<notin> set removed) (mgr_whowas_lru m) else mgr_whowas_lru m)"
      unfolding cleanup_whowas_def Let_def removed_def W_def cutoff_def by simp
    then show ?thesis by (cases removed) simp_all
  qed
  have ww: "mgr_whowas (cleanup_whowas now m) =
      filter (\<lambda>(_, es). es \<noteq> []) (map (\<lambda>(n, es). (n, filter (\<lambda>e. ww_logout_time e > cutoff) es)) W)"
    by (simp add: cleanup_whowas_def Let_def W_def cutoff_def)
  have rem: "n \<in> set removed \<longleftrightarrow> (\<exists>es. map_of W n = Some es \<and> filter (\<lambda>e. ww_logout_time e > cutoff) es = [])" for n
    using d(1) by (force simp: removed_def list_all_iff filter_empty_conv not_less)
  have "set (mgr_whowas_lru (cleanup_whowas now m)) = dom (map_of (mgr_whowas (cleanup_whowas now m)))"
    unfolding lru ww using d(2) rem by (auto simp: map_of_retain [OF d(1)] domIff split: option.splits)
  moreover have "length es \<le> mgr_whowas_groupsize m" if "map_of (mgr_whowas (cleanup_whowas now m)) n = Some es" for n es
    using that sz [of n] unfolding ww map_of_retain [OF d(1)]
    by (auto split: option.splits if_splits intro: le_trans [OF length_filter_le])
  moreover have "length (mgr_whowas_lru (cleanup_whowas now m)) \<le> max 1 (mgr_whowas_maxgroups m)"
    unfolding lru using d(4) length_filter_le le_trans by blast
  moreover have "distinct (mgr_whowas_lru (cleanup_whowas now m))" "distinct (map fst (mgr_whowas (cleanup_whowas now m)))"
    unfolding lru ww using d(3) distinct_retain [OF d(1)] by simp_all
  moreover have "mgr_whowas_groupsize (cleanup_whowas now m) = mgr_whowas_groupsize m"
    "mgr_whowas_maxgroups (cleanup_whowas now m) = mgr_whowas_maxgroups m"
    by (simp_all add: cleanup_whowas_def Let_def)
  ultimately show ?thesis unfolding whowas_ok_def by metis
qed

lemma whowas_ok_cong:
  "whowas_ok m \<Longrightarrow> mgr_whowas m' = mgr_whowas m \<Longrightarrow> mgr_whowas_lru m' = mgr_whowas_lru m \<Longrightarrow>
    mgr_whowas_maxgroups m' = mgr_whowas_maxgroups m \<Longrightarrow> mgr_whowas_groupsize m' = mgr_whowas_groupsize m \<Longrightarrow>
    whowas_ok m'"
  by (simp add: whowas_ok_def)

lemma whowas_ok_kill:
  assumes "whowas_ok m"
  shows "whowas_ok (fst (kill_user now uid r m))"
proof (cases "map_of (mgr_users m) uid")
  case None
  then show ?thesis using assms by (simp add: kill_user_def)
next
  case (Some u)
  show ?thesis unfolding kill_user_def Some option.case Let_def fst_conv
    by (intro whowas_ok_record whowas_ok_cong [OF assms]) simp_all
qed

lemma whowas_ok_merge: "whowas_ok m \<Longrightarrow> whowas_ok (fst (perform_merge c s m))"
  by (rule whowas_ok_cong) (simp_all add: perform_merge_frame)

text \<open>The handlers that write no history.\<close>

definition same_whowas :: "user_manager \<Rightarrow> user_manager \<Rightarrow> bool" where
  "same_whowas m m' \<longleftrightarrow> mgr_whowas m' = mgr_whowas m \<and> mgr_whowas_lru m' = mgr_whowas_lru m \<and>
    mgr_whowas_maxgroups m' = mgr_whowas_maxgroups m \<and> mgr_whowas_groupsize m' = mgr_whowas_groupsize m"

lemma whowas_ok_same: "whowas_ok m \<Longrightarrow> same_whowas m m' \<Longrightarrow> whowas_ok m'"
  by (simp add: same_whowas_def whowas_ok_def)

lemma same_whowas_claim: "claim_nick e s nick m = Inr m' \<Longrightarrow> same_whowas m m'"
  using claim_nick_cases [of e s nick m m'] by (auto simp: same_whowas_def)

lemma same_whowas_announce: "same_whowas m (fst (announce_nick e s old nick m))"
  by (simp add: same_whowas_def announce_nick_def Let_def split: option.split)

lemma same_whowas_change: "same_whowas m (fst (snd (change_nick e s nick m)))"
  using same_whowas_announce [of m e s _ nick]
    same_whowas_announce [of "drop_nick _ (ns_uid s) m" e s _ nick]
  by (auto simp: same_whowas_def change_nick_manager Let_def split: option.split)

lemma same_whowas_nick: "nick_handler e s args m = Inr (s', m', effs) \<Longrightarrow> same_whowas m m'"
  by (erule nick_handler_cases)
    (use same_whowas_change same_whowas_claim in \<open>force simp: same_whowas_def\<close>)+

lemma same_whowas_welcome: "same_whowas m (fst (welcome_register e s u m))"
proof -
  have "same_whowas m (fst (welcome_check e s (u_nick u) m))"
    by (simp add: same_whowas_def welcome_check_def Let_def split: option.split)
  then show ?thesis
    by (auto simp: same_whowas_def welcome_register_def add_local_user_def Let_def split: prod.split bool.split)
qed

lemma same_whowas_move: "same_whowas m (move_nick uid old new m)"
  by (simp add: same_whowas_def move_nick_def split: option.split)

lemma same_whowas_sanick: "same_whowas m (fst (sanick_handler args m))"
  using same_whowas_move by (auto simp: sanick_handler_def same_whowas_def split: list.split option.split)

lemma same_whowas_force: "same_whowas m (fst (force_nick uid old new m))"
  using same_whowas_move by (auto simp: force_nick_def same_whowas_def split: option.split)

lemma same_whowas_release: "same_whowas m (release_nick nick uid m)"
  by (simp add: same_whowas_def release_nick_def split: option.split)

lemma same_whowas_cleanup: "same_whowas m (cleanup_user_state uid u m)"
  by (simp add: same_whowas_def cleanup_user_state_def Let_def)

lemma whowas_ok_disconnect:
  assumes "whowas_ok m"
  shows "whowas_ok (fst (disconnect_user now mc d uid m))"
proof (cases "map_of (mgr_users m) uid")
  case None
  then show ?thesis using assms by (simp add: disconnect_user_def)
next
  case (Some u)
  have "whowas_ok (m\<lparr>mgr_users := us\<rparr>)" for us by (rule whowas_ok_cong [OF assms]) simp_all
  then show ?thesis using assms Some
    by (auto simp: disconnect_user_def Let_def split: option.split detach_result.split
        intro!: whowas_ok_same [OF _ same_whowas_cleanup] whowas_ok_record)
qed

section \<open>Every reachable manager\<close>

text \<open>
  The managers the server can reach.  A new manager holds the service users.  A registration comes with
  a UID that no user has (the guard of the handshake loop), \<open>NICK\<close> from a session that has no user yet
  or is registered, a release after any failed handshake; other handlers change fields of a user other
  than its UID and nickname, and the counters.  \<open>H\<close> collects the users whose nickname was released
  after their record had been stored: a failed write in the welcome burst leaves such users.
\<close>

inductive mgr_reachable :: "string set \<Rightarrow> user_manager \<Rightarrow> bool" where
  mr_new: "mgr_reachable {} (fold register_service_user services (configure_whowas maxgroups groupsize ttl
     ((user_manager_new sid name)\<lparr>mgr_stats := Some stats_new, mgr_observer := obs\<rparr>)))"
| mr_nick: "mgr_reachable H m \<Longrightarrow> ns_registered s \<or> user_of m (ns_uid s) = None \<Longrightarrow>
     nick_handler e s args m = Inr (s', m', effs) \<Longrightarrow> mgr_reachable H m'"
| mr_welcome: "mgr_reachable H m \<Longrightarrow> user_of m (ns_uid s) = None \<Longrightarrow> u_uid u = ns_uid s \<Longrightarrow>
     mgr_reachable H (fst (welcome_register e s u m))"
| mr_release: "mgr_reachable H m \<Longrightarrow>
     mgr_reachable (if user_of m uid = None then H else insert uid H) (release_nick nick uid m)"
| mr_sanick: "mgr_reachable H m \<Longrightarrow> mgr_reachable H (fst (sanick_handler args m))"
| mr_force: "mgr_reachable H m \<Longrightarrow> mgr_reachable H (fst (force_nick uid old new m))"
| mr_disconnect: "mgr_reachable H m \<Longrightarrow> mgr_reachable H (fst (disconnect_user now multiclient detach uid m))"
| mr_merge: "mgr_reachable H m \<Longrightarrow> mgr_reachable H (fst (merge_user_crdt now c source m))"
| mr_kill: "mgr_reachable H m \<Longrightarrow> mgr_reachable H (fst (kill_user now uid reason m))"
| mr_cleanup: "mgr_reachable H m \<Longrightarrow> mgr_reachable H (cleanup_whowas now m)"
| mr_edit: "mgr_reachable H m \<Longrightarrow> user_of m uid = Some u \<Longrightarrow> u_uid u' = u_uid u \<Longrightarrow> u_nick u' = u_nick u \<Longrightarrow>
     mgr_reachable H (m\<lparr>mgr_users := AList.update uid u' (mgr_users m)\<rparr>)"
| mr_stats: "mgr_reachable H m \<Longrightarrow> mgr_reachable H (with_stats f m)"
| mr_sender: "mgr_reachable H m \<Longrightarrow> mgr_reachable H (register_session_sender uid sess tx caps m)"
| mr_caps: "mgr_reachable H m \<Longrightarrow> mgr_reachable H (update_session_caps sess caps m)"

lemma mr_active: "mgr_reachable H m \<Longrightarrow> mgr_reachable H (update_last_active now uid m)"
  by (auto simp: update_last_active_def user_of_def split: option.split intro: mr_edit)




lemma whowas_ok_merge_user: "whowas_ok m \<Longrightarrow> whowas_ok (fst (merge_user_crdt now c s m))"
proof -
  have r: "whowas_ok m \<Longrightarrow> whowas_ok (restore_nick uid m)" for uid m
    by (erule whowas_ok_cong) (simp_all add: restore_nick_def Let_def split: option.split)
  assume "whowas_ok m"
  then show ?thesis by (subst merge_user_crdt_cases) (auto split: option.split intro: r whowas_ok_merge whowas_ok_kill)
qed

lemma whowas_ok_new:
  "whowas_ok (fold register_service_user services (configure_whowas g k t
    ((user_manager_new sid name)\<lparr>mgr_stats := st, mgr_observer := obs\<rparr>)))" (is "whowas_ok (fold _ _ ?m)")
proof -
  have "whowas_ok (register_service_user u m)" if "whowas_ok m" for u m
    by (rule whowas_ok_cong [OF that]) (simp_all add: register_service_user_def Let_def)
  then have "whowas_ok m \<Longrightarrow> whowas_ok (fold register_service_user services m)" for m
    by (induction services arbitrary: m) simp_all
  moreover have "whowas_ok ?m" by (simp add: whowas_ok_def configure_whowas_def user_manager_new_def)
  ultimately show ?thesis by blast
qed

lemma reachable_whowas_ok: "mgr_reachable H m \<Longrightarrow> whowas_ok m"
proof (induction rule: mgr_reachable.induct)
  case (mr_nick H m s e args s' m' effs)
  show ?case by (rule whowas_ok_same [OF mr_nick.IH same_whowas_nick [OF mr_nick.hyps(3)]])
next
  case (mr_edit H m uid u u')
  show ?case by (rule whowas_ok_cong [OF mr_edit.IH]) simp_all
next
  case (mr_stats H m f)
  show ?case by (rule whowas_ok_cong [OF mr_stats.IH]) simp_all
next
  case (mr_sender H m uid sess tx caps)
  show ?case by (rule whowas_ok_cong [OF mr_sender.IH]) (simp_all add: register_session_sender_def Let_def split: option.split)
next
  case (mr_caps H m sess caps)
  show ?case by (rule whowas_ok_cong [OF mr_caps.IH]) (simp_all add: update_session_caps_def)
qed (rule whowas_ok_new whowas_ok_same [OF _ same_whowas_welcome] whowas_ok_same [OF _ same_whowas_release]
    whowas_ok_same [OF _ same_whowas_sanick] whowas_ok_same [OF _ same_whowas_force] whowas_ok_disconnect
    whowas_ok_merge_user whowas_ok_kill whowas_ok_cleanup; assumption)+

section \<open>Properties\<close>

definition sample_env :: nick_env where
  "sample_env = \<lparr>ne_precis = False, ne_is_alphabetic = (\<lambda>_. False), ne_is_alphanumeric = (\<lambda>_. False),
     ne_confusable = (=), ne_registered_nicks = None, ne_multiclient = False, ne_allowed_by_default = False,
     ne_override = (\<lambda>_. None), ne_no_nick_change = (\<lambda>_. None), ne_enforced = (\<lambda>_. False)\<rparr>"

definition sample_session :: "string \<Rightarrow> nick_session" where
  "sample_session uid = \<lparr>ns_uid = uid, ns_nick = None, ns_registered = False, ns_account = None\<rparr>"

definition empty_mgr :: "string \<Rightarrow> user_manager" where
  "empty_mgr sid = configure_whowas 1000 10 7 ((user_manager_new sid ''a.example'')\<lparr>mgr_stats := Some stats_new, mgr_observer := True\<rparr>)"

lemma empty_mgr_reachable: "mgr_reachable {} (empty_mgr sid)"
  using mr_new [of "[]"] by (simp add: empty_mgr_def)

lemma empty_mgr_tables [simp]: "mgr_users (empty_mgr sid) = []" "mgr_nicks (empty_mgr sid) = []"
  by (simp_all add: empty_mgr_def configure_whowas_def user_manager_new_def)

text \<open>A server after one client sent \<open>NICK\<close> and registered: the index lists its UID twice.\<close>

definition claimed_mgr :: user_manager where
  "claimed_mgr = (empty_mgr ''001'')\<lparr>mgr_nicks := [(''alice'', [''001AAAAAB''])]\<rparr>"

definition sample_mgr :: user_manager where
  "sample_mgr = fst (welcome_register sample_env (sample_session ''001AAAAAB'') (sample_user ''001AAAAAB'' ''Alice'' 5) claimed_mgr)"

lemma lower_alice [simp]: "irc_to_lower ''Alice'' = ''alice''"
  by code_simp

lemma claimed_mgr_nick:
  "\<exists>s' effs. nick_handler sample_env (sample_session ''001AAAAAB'') [''Alice''] (empty_mgr ''001'') = Inr (s', claimed_mgr, effs)"
proof -
  have "is_valid_nick ''Alice''" by code_simp
  then show ?thesis
    by (simp add: nick_handler_def parse_nick_params_def sample_env_def sample_session_def claim_nick_def
        no_nick_change_def change_nick_def enforce_nick_def claimed_mgr_def Let_def)
qed

lemma sample_mgr_reachable: "mgr_reachable {} sample_mgr"
proof -
  obtain s' effs where "nick_handler sample_env (sample_session ''001AAAAAB'') [''Alice''] (empty_mgr ''001'') = Inr (s', claimed_mgr, effs)"
    using claimed_mgr_nick by blast
  then have "mgr_reachable {} claimed_mgr"
    by (rule mr_nick [OF empty_mgr_reachable, rotated]) (simp add: user_of_def sample_session_def)
  then show ?thesis unfolding sample_mgr_def
    by (rule mr_welcome) (simp_all add: user_of_def claimed_mgr_def sample_session_def sample_user_def user_new_def)
qed

lemma sample_mgr_tables:
  "mgr_users sample_mgr = [(''001AAAAAB'', sample_user ''001AAAAAB'' ''Alice'' 5)]"
  "mgr_nicks sample_mgr = [(''alice'', [''001AAAAAB'', ''001AAAAAB''])]"
  by (simp_all add: sample_mgr_def welcome_register_def welcome_check_def sample_env_def add_local_user_tables
      push_nick_def claimed_mgr_def sample_user_def user_new_def)

lemma sample_nick [simp]: "u_nick (sample_user uid nick ms) = nick"
  by (simp add: sample_user_def user_new_def)



text \<open>A welcome burst that fails after the user was stored: the release hides the user.\<close>

lemma failed_welcome_hides_user:
  "map_of (mgr_users (release_nick (Some ''Alice'') ''001AAAAAB'' sample_mgr)) ''001AAAAAB'' \<noteq> None"
  "get_first_uid (release_nick (Some ''Alice'') ''001AAAAAB'' sample_mgr) ''alice'' = None"
  by (simp_all add: release_nick_def drop_nick_def get_first_uid_def sample_mgr_tables)

text \<open>C26. The WHOWAS history cannot be grown by a client: in every reachable manager it holds at most
  \<open>maxgroups\<close> nicknames (one when that is 0) with at most \<open>groupsize\<close> entries each, and the recency list
  names exactly the remembered nicknames; recording a departure keeps exactly the most recent ones.
\<close>

theorem whowas_bounded:
  assumes "mgr_reachable H m"
  shows "card (dom (map_of (mgr_whowas m))) \<le> max 1 (mgr_whowas_maxgroups m) \<and>
    (\<forall>nick es. map_of (mgr_whowas m) nick = Some es \<longrightarrow> length es \<le> mgr_whowas_groupsize m) \<and>
    set (mgr_whowas_lru m) = dom (map_of (mgr_whowas m)) \<and>
    mgr_whowas_lru (record_whowas now nick usr host real m) =
      (let l = filter (\<lambda>x. x \<noteq> irc_to_lower nick) (mgr_whowas_lru m) @ [irc_to_lower nick]
       in drop (length l - max 1 (mgr_whowas_maxgroups m)) l)"
proof -
  have ok: "whowas_ok m" by (rule reachable_whowas_ok [OF assms])
  then have "card (dom (map_of (mgr_whowas m))) = length (mgr_whowas_lru m)"
    unfolding whowas_ok_def by (metis distinct_card)
  moreover have "mgr_whowas_lru (record_whowas now nick usr host real m) =
      (let l = filter (\<lambda>x. x \<noteq> irc_to_lower nick) (mgr_whowas_lru m) @ [irc_to_lower nick]
       in drop (length l - max 1 (mgr_whowas_maxgroups m)) l)"
    unfolding record_whowas_lru [OF ok] Let_def ..
  moreover have "\<forall>nick es. map_of (mgr_whowas m) nick = Some es \<longrightarrow> length es \<le> mgr_whowas_groupsize m"
    "set (mgr_whowas_lru m) = dom (map_of (mgr_whowas m))" "length (mgr_whowas_lru m) \<le> max 1 (mgr_whowas_maxgroups m)"
    using ok unfolding whowas_ok_def by blast+
  ultimately show ?thesis by (simp only: simp_thms)
qed

theorem whowas_bounded_witness:
  "card (dom (map_of (mgr_whowas (fst (kill_user 9 ''001AAAAAB'' ''bye'' sample_mgr))))) \<le>
    max 1 (mgr_whowas_maxgroups (fst (kill_user 9 ''001AAAAAB'' ''bye'' sample_mgr)))"
  using whowas_bounded [OF mr_kill [OF sample_mgr_reachable]] by blast

lemma collision_other: "collision_of c m = Some (uid, ts) \<Longrightarrow> uid \<noteq> uc_uid c \<and> user_of m uid \<noteq> None"
  by (auto simp: collision_of_def user_of_def split: option.splits list.splits if_splits)

lemma merge_collision_users:
  assumes "collision_of c m = Some (uid, ts)"
  shows "user_of (fst (merge_user_crdt now c s m)) =
    (user_of m)(uid := (if ts < lww_timestamp (uc_nick c) then user_of m uid else None),
      uc_uid c := (if lww_timestamp (uc_nick c) < ts then Some (merged_user c m) else None))"
proof -
  have "uid \<noteq> uc_uid c" using collision_other [OF assms] by simp
  then have "merged_user c (fst (kill_user now uid r m)) = merged_user c m" for r
    by (simp add: merged_user_def user_of_kill)
  moreover have "user_of (restore_nick x m) = user_of m" for x m by (simp add: user_of_def)
  ultimately show ?thesis unfolding merge_user_crdt_cases assms
    using \<open>uid \<noteq> uc_uid c\<close> by (auto simp: user_of_kill user_of_merge)
qed

end
