(* ===== verification/Netsplit.thy ===== *)
theory Netsplit
  imports Topology User_Tables Actor_Membership
begin

text \<open>
  \<open>src/sync/split.rs\<close>: what a server does when a link drops.  It composes the topology, the user
  manager and the channel actors: the users behind the link leave their channels and the tables, the
  clients are told, and the servers and the link are forgotten.  Events for channel actors and
  messages for sessions are returned in the order they are sent.
\<close>

section \<open>Definitions\<close>

record matrix =
  mx_sync :: sync_manager
  mx_users :: user_manager
  mx_channels :: "string list"
  mx_server_name :: string

datatype split_notice =
    BatchStart string string
  | BatchEnd string
  | SplitQuit "string option" msg_prefix string

definition netsplit_reason :: "string \<Rightarrow> string \<Rightarrow> string" where
  "netsplit_reason local_name remote_name = local_name @ '' '' @ remote_name"

definition user_sid :: "string \<Rightarrow> server_id" where
  "user_sid uid = ServerId (take 3 uid)"

definition is_affected :: "server_id list \<Rightarrow> string \<Rightarrow> bool" where
  "is_affected sids uid \<longleftrightarrow> length uid \<ge> 3 \<and> user_sid uid \<in> set sids"

text \<open>The three-byte slice of a UID panics when it would split a character.\<close>

definition slice_panics :: "user_manager \<Rightarrow> bool" where
  "slice_panics m = list_ex (\<lambda>(uid, _). length uid \<ge> 3 \<and> \<not> is_char_boundary uid 3) (mgr_users m)"

definition affected_users :: "server_id list \<Rightarrow> user_manager \<Rightarrow> string list" where
  "affected_users sids m = filter (is_affected sids) (map fst (mgr_users m))"

definition remove_user_from_channels :: "matrix \<Rightarrow> string \<Rightarrow> (string \<times> channel_event) list" where
  "remove_user_from_channels mx uid =
    (case map_of (mgr_users (mx_users mx)) uid of
       None \<Rightarrow> []
     | Some u \<Rightarrow> List.map_filter
         (\<lambda>name. let channel_lower = irc_to_lower name in
            if channel_lower \<in> set (mx_channels mx) then Some (channel_lower, EvNetsplitQuit uid) else None)
         (u_channels u))"

definition quit_message :: "matrix \<Rightarrow> string \<Rightarrow> string \<Rightarrow> split_notice list" where
  "quit_message mx reason uid =
    (case map_of (mgr_users (mx_users mx)) uid of
       None \<Rightarrow> []
     | Some u \<Rightarrow> [SplitQuit None (Nickname (u_nick u) (u_user u) (u_visible_host u)) reason])"

text \<open>The loop over the affected users: their quit messages, the events for the channels, the calls to the observer.\<close>

fun quit_users ::
  "int \<Rightarrow> string \<Rightarrow> string list \<Rightarrow> matrix \<Rightarrow>
   matrix \<times> split_notice list \<times> (string \<times> channel_event) list \<times> observer_call list" where
  "quit_users now reason [] mx = (mx, [], [], [])"
| "quit_users now reason (uid # uids) mx =
    (let quits = quit_message mx reason uid;
         events = remove_user_from_channels mx uid;
         (users, calls) = kill_user now uid reason (mx_users mx);
         (mx, quits', events', calls') = quit_users now reason uids (mx\<lparr>mx_users := users\<rparr>)
     in (mx, quits @ quits', events @ events', calls @ calls'))"

fun tag_batch :: "string \<Rightarrow> split_notice \<Rightarrow> split_notice" where
  "tag_batch ref (SplitQuit _ prefix reason) = SplitQuit (Some ref) prefix reason"
| "tag_batch ref m = m"

definition broadcast_netsplit_batch ::
  "string \<Rightarrow> user_manager \<Rightarrow> string \<Rightarrow> split_notice list \<Rightarrow> (nat \<times> split_notice) list" where
  "broadcast_netsplit_batch batch_ref m remote_server quits =
    (if quits = [] then []
     else concat (map (\<lambda>s.
       let caps = (case get_session_caps m (ss_session_id s) of Some c \<Rightarrow> c | None \<Rightarrow> []) in
       map (\<lambda>q. (ss_tx s, q))
         (if ''batch'' \<in> set caps
          then BatchStart batch_ref remote_server # map (tag_batch batch_ref) quits @ [BatchEnd batch_ref]
          else quits)) (concat (map snd (mgr_senders m)))))"

text \<open>\<open>None\<close> is the panic of the slice.\<close>

definition handle_netsplit ::
  "int \<Rightarrow> string \<Rightarrow> server_id \<Rightarrow> string \<Rightarrow> string \<Rightarrow> matrix \<Rightarrow>
   (matrix \<times> (string \<times> channel_event) list \<times> (nat \<times> split_notice) list \<times> observer_call list) option" where
  "handle_netsplit now batch_ref dead local_name remote_name mx =
    (let affected_sids = get_downstream_sids (sm_topology (mx_sync mx)) dead in
     if affected_sids = [] then Some (mx, [], [], [])
     else if slice_panics (mx_users mx) then None
     else
       let reason = netsplit_reason local_name remote_name;
           (mx, quits, events, calls) =
             quit_users now reason (affected_users affected_sids (mx_users mx)) mx;
           out = broadcast_netsplit_batch batch_ref (mx_users mx) remote_name quits;
           sync = mx_sync mx
       in Some (mx\<lparr>mx_sync := sync\<lparr>sm_topology := remove_servers affected_sids (sm_topology sync),
                                      sm_links := AList.delete dead (sm_links sync)\<rparr>\<rparr>,
                events, out, calls))"

section \<open>Users and events\<close>

lemma quit_users_frame:
  "mx_sync (fst (quit_users now r us mx)) = mx_sync mx"
  "mx_channels (fst (quit_users now r us mx)) = mx_channels mx"
  by (induction us arbitrary: mx) (simp_all add: Let_def prod.case_eq_if)

lemma quit_users_table:
  "user_of (mx_users (fst (quit_users now r us mx))) uid = (if uid \<in> set us then None else user_of (mx_users mx) uid)"
  by (induction us arbitrary: mx) (auto simp: Let_def prod.case_eq_if user_of_kill)

lemma quit_users_events:
  "set (fst (snd (snd (quit_users now r us mx)))) = (\<Union>uid\<in>set us. set (remove_user_from_channels mx uid))"
proof (induction us arbitrary: mx)
  case (Cons uid us)
  let ?mx = "mx\<lparr>mx_users := fst (kill_user now uid r (mx_users mx))\<rparr>"
  have "remove_user_from_channels ?mx v = (if v = uid then [] else remove_user_from_channels mx v)" for v
    using user_of_kill [of now uid r "mx_users mx"]
    by (simp add: remove_user_from_channels_def user_of_def fun_eq_iff split: option.split)
  then have "(\<Union>v\<in>set us. set (remove_user_from_channels ?mx v)) \<union> set (remove_user_from_channels mx uid) =
      (\<Union>v\<in>set (uid # us). set (remove_user_from_channels mx v))"
    by (auto split: if_splits)
  then show ?case using Cons by (simp add: Let_def prod.case_eq_if Un_commute)
qed simp

lemma set_affected_users: "set (affected_users sids m) = {uid. user_of m uid \<noteq> None \<and> is_affected sids uid}"
  by (auto simp: affected_users_def user_of_def map_of_eq_None_iff)

lemma downstream_nonempty: "get_downstream_sids g d \<noteq> []" "d \<in> set (get_downstream_sids g d)"
  using set_downstream [of g d] by auto

lemma handle_netsplit_Some:
  fixes mx dead
  assumes "handle_netsplit now bref dead ln rn mx = Some (mx', events, out, calls)"
  defines "sids \<equiv> get_downstream_sids (sm_topology (mx_sync mx)) dead"
  shows "mx_users mx' = mx_users (fst (quit_users now (netsplit_reason ln rn) (affected_users sids (mx_users mx)) mx))"
    "events = fst (snd (snd (quit_users now (netsplit_reason ln rn) (affected_users sids (mx_users mx)) mx)))"
    "sm_topology (mx_sync mx') = remove_servers sids (sm_topology (mx_sync mx))"
    "sm_links (mx_sync mx') = AList.delete dead (sm_links (mx_sync mx))"
  using assms downstream_nonempty(1)
  by (auto simp: handle_netsplit_def Let_def prod.case_eq_if quit_users_frame split: if_splits)

section \<open>Routes after the split\<close>

lemma hop_after_split:
  fixes g d
  assumes "topology_ok g"
  defines "sids \<equiv> get_downstream_sids g d"
  assumes "s \<notin> set sids"
  shows "hop (AList.delete d links) (remove_servers sids g) n s l \<longleftrightarrow> hop links g n s l"
  using assms(3)
proof (induction n arbitrary: s)
  case 0
  then have "s \<noteq> d" using downstream_nonempty(2) unfolding sids_def by blast
  then show ?case by (simp add: hop_0 hash_simps)
next
  case (Suc n)
  then have "s \<noteq> d" using downstream_nonempty(2) unfolding sids_def by blast
  moreover have "p \<notin> set sids" if "get_route g s = Some p" for p
    using downstream_closed [of p g d s] Suc.prems that links_down_iff [OF assms(1)] unfolding sids_def by blast
  ultimately show ?case using Suc by (auto simp: hop_Suc hash_simps get_route_remove)
qed

lemma next_hop_after_split:
  fixes g d
  assumes "topology_ok g"
  defines "sids \<equiv> get_downstream_sids g d"
  shows "next_hop_loop (AList.delete d links) (remove_servers sids g) s [] =
    (if s \<in> set sids then map_of (AList.delete d links) s else next_hop_loop links g s [])"
proof (cases "s \<in> set sids")
  case True
  then show ?thesis by (subst next_hop_loop.simps) (simp add: get_route_remove split: option.split)
next
  case False
  then have "next_hop_loop (AList.delete d links) (remove_servers sids g) s [] = Some l \<longleftrightarrow>
      next_hop_loop links g s [] = Some l" for l
    using hop_after_split [OF assms(1), of s d links _ l] unfolding sids_def next_hop_iff by simp
  then show ?thesis using False by (metis not_Some_eq)
qed

section \<open>Channels after the split\<close>

lemma members_after_quits:
  "is_member (fst (run (map (\<lambda>v. (e, EvNetsplitQuit v)) vs) a)) u \<longleftrightarrow> is_member a u \<and> u \<notin> set vs"
  unfolding fst_run
  by (induction vs arbitrary: a)
    (auto simp: actor_step_def is_member_def remove_member_def hash_simps simp del: map_of_eq_None_iff)

section \<open>Properties\<close>

text \<open>C5. A netsplit removes exactly what lies behind the dead link.  When \<open>handle_netsplit\<close> returns, the
  users whose SID is downstream of the link are gone and nobody else; every other server is routed to
  as before; a server behind the link is reachable only where a second direct link to it exists.
\<close>

theorem netsplit_exact:
  assumes "handle_netsplit now bref dead ln rn mx = Some (mx', events, out, calls)"
    "topology_ok (sm_topology (mx_sync mx))"
  shows "let lost = {s. (dead, s) \<in> (links_down (sm_topology (mx_sync mx)))\<^sup>*} in
    map_of (mgr_users (mx_users mx')) uid =
      (if length uid \<ge> 3 \<and> user_sid uid \<in> lost then None else map_of (mgr_users (mx_users mx)) uid) \<and>
    get_next_hop (mx_sync mx') s =
      (if s \<in> lost then map_of (AList.delete dead (sm_links (mx_sync mx))) s else get_next_hop (mx_sync mx) s) \<and>
    topology_ok (sm_topology (mx_sync mx'))"
proof -
  note h = handle_netsplit_Some [OF assms(1)]
  let ?sids = "get_downstream_sids (sm_topology (mx_sync mx)) dead"
  have lost: "{s. (dead, s) \<in> (links_down (sm_topology (mx_sync mx)))\<^sup>*} = set ?sids"
    by (auto simp: set_downstream)
  have "map_of (mgr_users (mx_users mx')) uid =
      (if is_affected ?sids uid then None else map_of (mgr_users (mx_users mx)) uid)"
    using quit_users_table [of now "netsplit_reason ln rn" "affected_users ?sids (mx_users mx)" mx uid]
    unfolding h(1) set_affected_users user_of_def by auto
  moreover have "get_next_hop (mx_sync mx') s =
      (if s \<in> set ?sids then map_of (AList.delete dead (sm_links (mx_sync mx))) s else get_next_hop (mx_sync mx) s)"
    unfolding get_next_hop_def h(3,4) by (rule next_hop_after_split [OF assms(2)])
  moreover have "topology_ok (sm_topology (mx_sync mx'))" unfolding h(3) using assms(2) by blast
  ultimately show ?thesis unfolding Let_def lost is_affected_def by blast
qed

definition split_sample :: matrix where
  "split_sample = \<lparr>mx_sync = \<lparr>sm_local_id = ServerId ''001'', sm_local_name = ''a'',
      sm_links = [(ServerId ''002'', new_link 0 1 ''b'')],
      sm_topology = add_server (ServerId ''002'') ''b'' [] 1 (Some (ServerId ''001'')) topology_new\<rparr>,
    mx_users = sample_mgr, mx_channels = [''#c''], mx_server_name = ''a''\<rparr>"

lemma split_sample_returns: "\<exists>r. handle_netsplit now bref dead ln rn split_sample = Some r"
  by (simp add: handle_netsplit_def Let_def prod.case_eq_if slice_panics_def split_sample_def sample_mgr_tables
      is_char_boundary_def is_cont_def byte_of_def)

theorem netsplit_exact_witness:
  "\<exists>mx' events out calls. handle_netsplit 9 ''ref'' (ServerId ''002'') ''a'' ''b'' split_sample = Some (mx', events, out, calls) \<and>
    topology_ok (sm_topology (mx_sync mx'))"
proof -
  obtain mx' events out calls where r: "handle_netsplit 9 ''ref'' (ServerId ''002'') ''a'' ''b'' split_sample =
      Some (mx', events, out, calls)"
    using split_sample_returns by (metis prod_cases4)
  moreover have "topology_ok (sm_topology (mx_sync split_sample))"
    by (simp add: split_sample_def topology_ok_add)
  ultimately show ?thesis using netsplit_exact [OF r] unfolding Let_def by blast
qed

text \<open>C22. What the channels learn of a netsplit: for an actor of the channel table, processing the events
  \<open>handle_netsplit\<close> sends to it removes exactly the members that were behind the dead link and whose
  user record lists the channel.  A member behind the link whose record does not list it stays; only
  local joins write that list.
\<close>

theorem netsplit_channel_members:
  assumes "handle_netsplit now bref dead ln rn mx = Some (mx', events, out, calls)"
    "key \<in> set (mx_channels mx)"
  shows "is_member (fst (run (map (\<lambda>(_, ev). (e, ev)) (filter (\<lambda>(k, _). k = key) events)) a)) uid \<longleftrightarrow>
    is_member a uid \<and> \<not> (is_affected (get_downstream_sids (sm_topology (mx_sync mx)) dead) uid \<and>
      (\<exists>u name. map_of (mgr_users (mx_users mx)) uid = Some u \<and>
        name \<in> set (u_channels u) \<and> irc_to_lower name = key))"
proof -
  let ?sids = "get_downstream_sids (sm_topology (mx_sync mx)) dead"
  let ?evs = "map (\<lambda>(_, ev). (e, ev)) (filter (\<lambda>(k, _). k = key) events)"
  have events: "(k, ev) \<in> set events \<longleftrightarrow> (\<exists>v u name. ev = EvNetsplitQuit v \<and> is_affected ?sids v \<and>
      map_of (mgr_users (mx_users mx)) v = Some u \<and> name \<in> set (u_channels u) \<and> irc_to_lower name = k \<and>
      k \<in> set (mx_channels mx))" for k ev
    unfolding handle_netsplit_Some(2) [OF assms(1)] quit_users_events set_affected_users
    by (auto simp: remove_user_from_channels_def user_of_def map_filter_def Let_def split: option.splits if_splits)
  then have "\<forall>x\<in>set (filter (\<lambda>(k, _). k = key) events). \<exists>v. x = (key, EvNetsplitQuit v)" by auto
  then obtain vs where vs: "filter (\<lambda>(k, _). k = key) events = map (\<lambda>v. (key, EvNetsplitQuit v)) vs"
    unfolding ex_map_conv [symmetric] by blast
  have "uid \<in> set vs \<longleftrightarrow> (key, EvNetsplitQuit uid) \<in> set (filter (\<lambda>(k, _). k = key) events)"
    unfolding vs by auto
  then have "uid \<in> set vs \<longleftrightarrow> (key, EvNetsplitQuit uid) \<in> set events" by simp
  moreover have "?evs = map (\<lambda>v. (e, EvNetsplitQuit v)) vs" unfolding vs by simp
  ultimately have "is_member (fst (run ?evs a)) uid \<longleftrightarrow>
      is_member a uid \<and> (key, EvNetsplitQuit uid) \<notin> set events"
    by (simp only: members_after_quits)
  then show ?thesis using assms(2) unfolding events by blast
qed

definition member_sample :: matrix where
  "member_sample = split_sample\<lparr>mx_channels := [irc_to_lower ''#c''],
     mx_users := (user_manager_new ''003'' ''c'')
       \<lparr>mgr_users := [(''001AAAAAA'', (sample_user ''001AAAAAA'' ''alice'' 5)\<lparr>u_channels := [''#c'']\<rparr>)]\<rparr>\<rparr>"

lemma member_sample_returns: "\<exists>r. handle_netsplit now bref dead ln rn member_sample = Some r"
  by (simp add: handle_netsplit_def Let_def prod.case_eq_if slice_panics_def member_sample_def
      is_char_boundary_def is_cont_def byte_of_def)

theorem netsplit_channel_members_witness:
  "\<exists>mx' events out calls. handle_netsplit 9 ''ref'' (ServerId ''001'') ''c'' ''a'' member_sample = Some (mx', events, out, calls) \<and>
    \<not> is_member (fst (run (map (\<lambda>(_, ev). (sample_env, ev)) (filter (\<lambda>(k, _). k = irc_to_lower ''#c'') events)) sample_channel))
        ''001AAAAAA''"
proof -
  obtain mx' events out calls where r: "handle_netsplit 9 ''ref'' (ServerId ''001'') ''c'' ''a'' member_sample =
      Some (mx', events, out, calls)"
    using member_sample_returns by (metis prod_cases4)
  have "irc_to_lower ''#c'' \<in> set (mx_channels member_sample)" by (simp add: member_sample_def)
  note netsplit_channel_members [OF r this, of sample_env sample_channel "''001AAAAAA''"]
  moreover have "is_affected (get_downstream_sids (sm_topology (mx_sync member_sample)) (ServerId ''001'')) ''001AAAAAA''"
    using downstream_nonempty(2) by (simp add: is_affected_def user_sid_def)
  moreover have "\<exists>u name. map_of (mgr_users (mx_users member_sample)) ''001AAAAAA'' = Some u \<and>
      name \<in> set (u_channels u) \<and> irc_to_lower name = irc_to_lower ''#c''"
    by (auto simp: member_sample_def)
  ultimately show ?thesis using r by blast
qed

end
