(* ===== verification/Uid.thy ===== *)
theory Uid
  imports Prelude "HOL-Library.Word"
begin

text \<open>
  \<open>src/state/uid.rs\<close>: the identifiers of users, a server id followed by six digits to base 36.  The
  counter is a 64-bit word; the loop over the digits keeps the six last ones.
\<close>

section \<open>Definitions\<close>

record uid_generator =
  ug_sid :: string
  ug_counter :: "64 word"

definition UID_COUNTER_START :: "64 word" where
  "UID_COUNTER_START = 2"

definition uid_generator_new :: "string \<Rightarrow> uid_generator" where
  "uid_generator_new sid = \<lparr>ug_sid = sid, ug_counter = UID_COUNTER_START\<rparr>"

definition CHARS :: string where
  "CHARS = ''ABCDEFGHIJKLMNOPQRSTUVWXYZ0123456789''"

text \<open>The loop from the last position to the first; \<open>i\<close> positions are left.\<close>

fun base36_loop :: "nat \<Rightarrow> 64 word \<Rightarrow> string \<Rightarrow> string" where
  "base36_loop 0 n result = result"
| "base36_loop (Suc i) n result = base36_loop i (n div 36) (CHARS ! unat (n mod 36) # result)"

definition base36_encode_6 :: "64 word \<Rightarrow> string" where
  "base36_encode_6 n = base36_loop 6 n []"

text \<open>\<open>fetch_add\<close> returns the old value and wraps.\<close>

definition uid_next :: "uid_generator \<Rightarrow> string \<times> uid_generator" where
  "uid_next g = (ug_sid g @ base36_encode_6 (ug_counter g), g\<lparr>ug_counter := ug_counter g + 1\<rparr>)"

fun uids :: "nat \<Rightarrow> uid_generator \<Rightarrow> string list" where
  "uids 0 g = []"
| "uids (Suc n) g = (case uid_next g of (u, g') \<Rightarrow> u # uids n g')"

section \<open>Digits\<close>

lemma length_CHARS: "length CHARS = 36"
  by (simp add: CHARS_def)

lemma distinct_CHARS: "distinct CHARS"
  by (simp add: CHARS_def)

lemma CHARS_inj: "i < 36 \<Longrightarrow> j < 36 \<Longrightarrow> CHARS ! i = CHARS ! j \<longleftrightarrow> i = j"
  using nth_eq_iff_index_eq [OF distinct_CHARS] by (simp add: length_CHARS)

lemma length_base36_loop: "length (base36_loop i n r) = i + length r"
  by (induction i n r rule: base36_loop.induct) simp_all

lemma base36_loop_append: "base36_loop i n r = base36_loop i n [] @ r"
proof (induction i arbitrary: n r)
  case (Suc i)
  show ?case
    using Suc.IH [of "n div 36" "CHARS ! unat (n mod 36) # r"] Suc.IH [of "n div 36" "[CHARS ! unat (n mod 36)]"]
    by simp
qed simp

lemma unat_div_36: "unat (n div 36 :: 64 word) = unat n div 36"
  by (simp add: unat_div_distrib)

lemma unat_mod_36: "unat (n mod 36 :: 64 word) = unat n mod 36"
  by (simp add: unat_mod_distrib)

lemma digit_eq_iff: "r < b \<Longrightarrow> s < b \<Longrightarrow> b * x + r = b * y + s \<longleftrightarrow> x = y \<and> r = (s :: nat)"
proof
  assume lt: "r < b" "s < b" and eq: "b * x + r = b * y + s"
  have "x = (b * x + r) div b" "y = (b * y + s) div b" using lt by simp_all
  then have "x = y" unfolding eq by simp
  then show "x = y \<and> r = s" using eq by simp
qed simp

text \<open>Two encodings agree exactly if the numbers agree modulo the number of encodings.\<close>

lemma base36_loop_eq_iff: "base36_loop i n [] = base36_loop i m [] \<longleftrightarrow> unat n mod 36 ^ i = unat m mod 36 ^ i"
proof (induction i arbitrary: n m)
  case (Suc i)
  have "base36_loop (Suc i) n [] = base36_loop (Suc i) m [] \<longleftrightarrow>
      base36_loop i (n div 36) [] = base36_loop i (m div 36) [] \<and> unat n mod 36 = unat m mod 36"
    using base36_loop_append [of i "n div 36" "[CHARS ! unat (n mod 36)]"]
      base36_loop_append [of i "m div 36" "[CHARS ! unat (m mod 36)]"]
    by (simp add: unat_mod_36 CHARS_inj)
  also have "\<dots> \<longleftrightarrow> (unat n div 36) mod 36 ^ i = (unat m div 36) mod 36 ^ i \<and> unat n mod 36 = unat m mod 36"
    by (simp add: Suc.IH unat_div_36)
  also have "\<dots> \<longleftrightarrow> 36 * (unat n div 36 mod 36 ^ i) + unat n mod 36 = 36 * (unat m div 36 mod 36 ^ i) + unat m mod 36"
    using digit_eq_iff [of "unat n mod 36" 36 "unat m mod 36" "unat n div 36 mod 36 ^ i" "unat m div 36 mod 36 ^ i"]
    by simp
  also have "\<dots> \<longleftrightarrow> unat n mod 36 ^ Suc i = unat m mod 36 ^ Suc i"
    by (simp add: mod_mult2_eq)
  finally show ?case .
qed simp

section \<open>Uniqueness\<close>

lemma shift_mod_inj:
  fixes i j m :: nat
  assumes "i < m" and "j < m" and "(c + i) mod m = (c + j) mod m"
  shows "i = j"
proof -
  have "k = l" if "k \<le> l" "l < m" "(c + l) mod m = (c + k) mod m" for k l
  proof -
    have "m dvd l - k" using that mod_eq_dvd_iff_nat [of "c + k" "c + l" m] by simp
    moreover have "l - k < m" using that by simp
    ultimately have "l - k = 0" using nat_dvd_not_less [of "l - k" m] by (cases "l - k") simp_all
    then show ?thesis using that by simp
  qed
  from this [of i j] this [of j i] show ?thesis using assms by (cases "i \<le> j") simp_all
qed

lemma uids_conv: "uids n g = map (\<lambda>i. ug_sid g @ base36_encode_6 (ug_counter g + of_nat i)) [0..<n]"
proof (induction n arbitrary: g)
  case (Suc n)
  have "uids (Suc n) g = (ug_sid g @ base36_encode_6 (ug_counter g)) #
      map (\<lambda>i. ug_sid g @ base36_encode_6 (ug_counter g + 1 + of_nat i)) [0..<n]"
    by (simp add: uid_next_def Suc.IH)
  also have "\<dots> = map (\<lambda>i. ug_sid g @ base36_encode_6 (ug_counter g + of_nat i)) (0 # map Suc [0..<n])"
    by (simp add: add.assoc)
  also have "0 # map Suc [0..<n] = [0..<Suc n]" by (simp add: map_Suc_upt upt_conv_Cons)
  finally show ?case .
qed simp

lemma unat_counter: "i < 2 ^ 63 \<Longrightarrow> unat (UID_COUNTER_START + of_nat i) = 2 + i"
  by (simp add: UID_COUNTER_START_def unat_word_ariths unat_of_nat take_bit_eq_mod)

lemma encode_counter_eq_iff:
  "i < 2 ^ 63 \<Longrightarrow> j < 2 ^ 63 \<Longrightarrow>
    base36_encode_6 (UID_COUNTER_START + of_nat i) = base36_encode_6 (UID_COUNTER_START + of_nat j) \<longleftrightarrow>
    (2 + i) mod 36 ^ 6 = (2 + j) mod 36 ^ 6"
  unfolding base36_encode_6_def base36_loop_eq_iff by (simp only: unat_counter)

lemma distinct_uids:
  assumes "n \<le> 36 ^ 6"
  shows "distinct (uids n (uid_generator_new sid))"
proof -
  have "i = j" if "i < n" "j < n"
    "base36_encode_6 (UID_COUNTER_START + of_nat i) = base36_encode_6 (UID_COUNTER_START + of_nat j)" for i j
  proof -
    have less: "i < 36 ^ 6" "j < 36 ^ 6" using that assms by simp_all
    then have "i < 2 ^ 63" "j < 2 ^ 63" by simp_all
    from that(3) [unfolded encode_counter_eq_iff [OF this]] show ?thesis by (rule shift_mod_inj [OF less])
  qed
  then have "inj_on (\<lambda>i. base36_encode_6 (UID_COUNTER_START + of_nat i)) {0..<n}"
    by (intro inj_onI) simp
  then show ?thesis by (simp add: uids_conv uid_generator_new_def distinct_map inj_on_def)
qed

lemma uids_not_reserved:
  assumes "n \<le> 36 ^ 6 - 2" and "k < 2"
  shows "sid @ base36_encode_6 (of_nat k) \<notin> set (uids n (uid_generator_new sid))"
proof
  assume "sid @ base36_encode_6 (of_nat k) \<in> set (uids n (uid_generator_new sid))"
  then obtain i where i: "i < n" "base36_loop 6 (of_nat k) [] = base36_loop 6 (UID_COUNTER_START + of_nat i) []"
    by (auto simp: uids_conv uid_generator_new_def base36_encode_6_def)
  have less: "i < 36 ^ 6 - 2" using i(1) assms(1) by simp
  then have "unat (UID_COUNTER_START + of_nat i) = 2 + i" by (intro unat_counter) simp
  moreover have "unat (of_nat k :: 64 word) = k" using assms(2) by (cases k) auto
  ultimately have "k mod 36 ^ 6 = (2 + i) mod 36 ^ 6" using i(2) by (simp only: base36_loop_eq_iff)
  moreover have "k mod 36 ^ 6 = k" "(2 + i) mod 36 ^ 6 = 2 + i" using less assms(2) by simp_all
  ultimately show False using assms(2) by simp
qed

lemma base36_loop_zero: "base36_loop i 0 r = replicate i (CHR ''A'') @ r"
proof (induction i arbitrary: r)
  case (Suc i)
  have "CHARS ! 0 = CHR ''A''" by (simp add: CHARS_def)
  then show ?case by (simp add: Suc.IH replicate_app_Cons_same)
qed simp

lemma reserved_codes: "base36_encode_6 (of_nat 0) = ''AAAAAA''" "base36_encode_6 (of_nat 1) = ''AAAAAB''"
proof -
  show "base36_encode_6 (of_nat 0) = ''AAAAAA''"
    by (simp add: base36_encode_6_def base36_loop_zero numeral_eq_Suc)
  have "unat (1 div 36 :: 64 word) = 0" "unat (1 mod 36 :: 64 word) = 1"
    unfolding unat_div_36 unat_mod_36 by simp_all
  then have "(1 div 36 :: 64 word) = 0" "CHARS ! unat (1 mod 36 :: 64 word) = CHR ''B''"
    by (simp_all only: unat_eq_zero) (simp add: CHARS_def)
  then have "base36_loop (Suc 5) 1 [] = ''AAAAAB''"
    by (simp only: base36_loop.simps base36_loop_zero) (simp add: numeral_eq_Suc)
  then show "base36_encode_6 (of_nat 1) = ''AAAAAB''" by (simp add: base36_encode_6_def numeral_eq_Suc)
qed

text \<open>C33. The first \<open>36 ^ 6\<close> user ids of a server are pairwise different and each is the server id and
  six more characters; all but the last two differ from the two ids reserved for the services.\<close>

theorem uids_unique:
  assumes "n \<le> 36 ^ 6"
  shows "distinct (uids n (uid_generator_new sid)) \<and>
    list_all (\<lambda>u. length u = length sid + 6) (uids n (uid_generator_new sid)) \<and>
    (n \<le> 36 ^ 6 - 2 \<longrightarrow> set (uids n (uid_generator_new sid)) \<inter> {sid @ ''AAAAAA'', sid @ ''AAAAAB''} = {})"
proof -
  have "list_all (\<lambda>u. length u = length sid + 6) (uids n (uid_generator_new sid))"
    by (simp add: uids_conv uid_generator_new_def list_all_iff base36_encode_6_def length_base36_loop)
  moreover have "set (uids n (uid_generator_new sid)) \<inter> {sid @ ''AAAAAA'', sid @ ''AAAAAB''} = {}"
    if "n \<le> 36 ^ 6 - 2"
    using uids_not_reserved [OF that, of 0 sid] uids_not_reserved [OF that, of 1 sid]
    unfolding reserved_codes by simp
  ultimately show ?thesis using distinct_uids [OF assms] by blast
qed

theorem uids_unique_witness: "distinct (uids 3 (uid_generator_new ''001'')) \<and>
    set (uids 3 (uid_generator_new ''001'')) \<inter> {''001AAAAAA'', ''001AAAAAB''} = {}"
  using uids_unique [of 3 "''001''"] by simp

end
