(* ===== verification/Uid_Lines.thy ===== *)
theory Uid_Lines
  imports Topology User_Tables
begin

text \<open>
  How users travel between servers: the \<open>UID\<close> lines of a burst (\<open>src/sync/burst.rs\<close>) and of an update
  (\<open>src/sync/observer.rs\<close>), and the handler that turns a line back into a CRDT and merges it
  (\<open>src/handlers/server/uid.rs\<close>).  A line is its list of arguments; the hash of a server identifier and
  the wall clock are arguments.
\<close>

section \<open>Sending\<close>

definition show_i64 :: "int \<Rightarrow> string" where
  "show_i64 n = (if n < 0 then CHR ''-'' # show_nat (nat (- n)) else show_nat (nat n))"

definition burst_user_line :: "user \<Rightarrow> string list" where
  "burst_user_line u =
    [u_nick u, ''1'', show_i64 (u_created_at u), u_user u, u_visible_host u, u_uid u, as_mode_string (u_modes u),
     u_realname u]"

definition burst_users :: "string \<Rightarrow> user_manager \<Rightarrow> string list list" where
  "burst_users target_sid m =
    map burst_user_line (filter (\<lambda>u. \<not> starts_with (u_uid u) target_sid) (map snd (mgr_users m)))"

definition build_uid_command :: "int \<Rightarrow> user_crdt \<Rightarrow> string list" where
  "build_uid_command now_secs c =
    (let m = uc_modes c;
         modes = ''+'' @ (if lww_value (um_invisible m) then ''i'' else []) @ (if lww_value (um_oper m) then ''o'' else [])
           @ (if lww_value (um_registered m) then ''r'' else []) @ (if lww_value (um_wallops m) then ''w'' else [])
           @ (if lww_value (um_secure m) then ''Z'' else []) @ (if lww_value (um_bot m) then ''B'' else [])
     in [lww_value (uc_nick c), ''1'', show_i64 now_secs, lww_value (uc_user c), lww_value (uc_host c), uc_uid c, modes,
         lww_value (uc_realname c)])"

section \<open>Receiving\<close>

definition apply_user_mode :: "hybrid_timestamp \<Rightarrow> string \<Rightarrow> user_modes_crdt \<Rightarrow> user_modes_crdt" where
  "apply_user_mode ts c m =
    (if c = ''i'' then m\<lparr>um_invisible := lww_update True ts (um_invisible m)\<rparr>
     else if c = ''w'' then m\<lparr>um_wallops := lww_update True ts (um_wallops m)\<rparr>
     else if c = ''o'' then m\<lparr>um_oper := lww_update True ts (um_oper m)\<rparr>
     else if c = ''r'' then m\<lparr>um_registered := lww_update True ts (um_registered m)\<rparr>
     else if c = ''Z'' then m\<lparr>um_secure := lww_update True ts (um_secure m)\<rparr>
     else if c = ''R'' then m\<lparr>um_registered_only := lww_update True ts (um_registered_only m)\<rparr>
     else if c = ''T'' then m\<lparr>um_no_ctcp := lww_update True ts (um_no_ctcp m)\<rparr>
     else if c = ''B'' then m\<lparr>um_bot := lww_update True ts (um_bot m)\<rparr>
     else m)"

definition apply_user_modes_to_crdt :: "string \<Rightarrow> hybrid_timestamp \<Rightarrow> user_crdt \<Rightarrow> user_crdt" where
  "apply_user_modes_to_crdt modes_str ts c =
    c\<lparr>uc_modes := fold (apply_user_mode ts) (rust_chars modes_str) (uc_modes c)\<rparr>"

definition uid_to_crdt ::
  "(string \<Rightarrow> 64 word) \<Rightarrow> string \<Rightarrow> string \<Rightarrow> nat \<Rightarrow> string \<Rightarrow> string \<Rightarrow> string \<Rightarrow> string \<Rightarrow> server_id \<Rightarrow> user_crdt" where
  "uid_to_crdt hash uid nick timestamp modes_str username hostname realname source =
    (let base_ts = ht_new hash (sint (of_nat timestamp :: 64 word)) 0 source
     in apply_user_modes_to_crdt modes_str (ht_increment base_ts)
          (uc_new uid nick username realname hostname hostname base_ts))"

definition uid_source :: "prefix_ref option \<Rightarrow> server_id" where
  "uid_source prefix = (case extract_source_sid prefix of Some s \<Rightarrow> s | None \<Rightarrow> ServerId ''000'')"

definition uid_handler ::
  "(string \<Rightarrow> 64 word) \<Rightarrow> int \<Rightarrow> prefix_ref option \<Rightarrow> string list \<Rightarrow> user_manager \<Rightarrow>
   handler_error + (user_manager \<times> observer_call list)" where
  "uid_handler hash now prefix args m =
    (case args of
       nick # hopcount_str # timestamp_str # username # hostname # uid # modes_str # realname # _ \<Rightarrow>
         (case parse_uint (2 ^ 32 - 1) hopcount_str of
            None \<Rightarrow> Inl (HandlerProtocolError (''Invalid hopcount: '' @ hopcount_str))
          | Some _ \<Rightarrow>
              (case parse_uint (2 ^ 64 - 1) timestamp_str of
                 None \<Rightarrow> Inl (HandlerProtocolError (''Invalid timestamp: '' @ timestamp_str))
               | Some timestamp \<Rightarrow>
                   let source = uid_source prefix;
                       crdt = uid_to_crdt hash uid nick timestamp modes_str username hostname realname source
                   in Inr (merge_user_crdt now crdt (Some source) m)))
     | _ \<Rightarrow> Inl NeedMoreParams)"

section \<open>Properties\<close>

lemma uid_to_crdt_fields:
  "uc_uid (uid_to_crdt h uid n t ms un hn rn s) = uid"
  "uc_nick (uid_to_crdt h uid n t ms un hn rn s) = lww_new n (ht_new h (sint (of_nat t :: 64 word)) 0 s)"
  by (simp_all add: uid_to_crdt_def apply_user_modes_to_crdt_def uc_new_def Let_def)

lemma uid_handler_ok:
  assumes "parse_uint (2 ^ 32 - 1) hops = Some h" "parse_uint (2 ^ 64 - 1) tstr = Some t"
  shows "uid_handler hash now prefix [nick, hops, tstr, un, hn, uid, ms, rn] m =
    Inr (merge_user_crdt now (uid_to_crdt hash uid nick t ms un hn rn (uid_source prefix)) (Some (uid_source prefix)) m)"
  using assms by (simp add: uid_handler_def Let_def)

lemma uid_handler_collision:
  fixes hash prefix t nick un hn uid ms rn
  defines "base \<equiv> ht_new hash (sint (of_nat t :: 64 word)) 0 (uid_source prefix)"
    and "c \<equiv> uid_to_crdt hash uid nick t ms un hn rn (uid_source prefix)"
  assumes "parse_uint (2 ^ 32 - 1) hops = Some h" "parse_uint (2 ^ 64 - 1) tstr = Some t"
    and "map_of (mgr_nicks m) (irc_to_lower nick) = Some (holder # rest)" "holder \<noteq> uid"
    and "map_of (mgr_users m) holder = Some u"
  obtains m' calls where "uid_handler hash now prefix [nick, hops, tstr, un, hn, uid, ms, rn] m = Inr (m', calls)"
    "map_of (mgr_users m') = (map_of (mgr_users m))
      (holder := (if u_last_modified u < base then Some u else None),
       uid := (if base < u_last_modified u then Some (merged_user c m) else None))"
proof -
  let ?r = "merge_user_crdt now c (Some (uid_source prefix)) m"
  have c: "uc_uid c = uid" "lww_value (uc_nick c) = nick" "lww_timestamp (uc_nick c) = base"
    by (simp_all add: c_def uid_to_crdt_fields lww_new_def base_def)
  have "collision_of c m = Some (holder, u_last_modified u)"
    using assms(5-7) by (simp add: collision_of_def c)
  from merge_collision_users [OF this, of now "Some (uid_source prefix)"]
  have "map_of (mgr_users (fst ?r)) = (map_of (mgr_users m))
      (holder := (if u_last_modified u < base then Some u else None),
       uid := (if base < u_last_modified u then Some (merged_user c m) else None))"
    using assms(7) by (simp add: c user_of_def)
  moreover have "uid_handler hash now prefix [nick, hops, tstr, un, hn, uid, ms, rn] m = Inr (fst ?r, snd ?r)"
    unfolding uid_handler_ok [OF assms(3,4)] by (simp add: c_def)
  ultimately show thesis by (rule that [rotated])
qed

text \<open>C8. A \<open>UID\<close> line whose nickname is held by another user resolves the collision by age: the holder stays
  exactly when it is older than the line's timestamp, the newcomer is stored exactly when the line's
  timestamp is older (as the record the line describes, if its UID was not known), of two equal
  timestamps neither stays, and everyone else keeps their entry.  The line's timestamp is taken as the
  milliseconds of a hybrid timestamp of the sending server.
\<close>

theorem uid_collision:
  fixes hash prefix t
  defines "base \<equiv> ht_new hash (sint (of_nat t :: 64 word)) 0 (uid_source prefix)"
  assumes "parse_uint (2 ^ 32 - 1) hops = Some h" "parse_uint (2 ^ 64 - 1) tstr = Some t"
    and "map_of (mgr_nicks m) (irc_to_lower nick) = Some (holder # rest)" "holder \<noteq> uid"
    and "map_of (mgr_users m) holder = Some u"
  shows "\<exists>m' calls. uid_handler hash now prefix [nick, hops, tstr, un, hn, uid, ms, rn] m = Inr (m', calls) \<and>
    map_of (mgr_users m') holder = (if u_last_modified u < base then Some u else None) \<and>
    (map_of (mgr_users m') uid \<noteq> None \<longleftrightarrow> base < u_last_modified u) \<and>
    (base < u_last_modified u \<and> map_of (mgr_users m) uid = None \<longrightarrow> map_of (mgr_users m') uid =
       Some (user_from_crdt (uid_to_crdt hash uid nick t ms un hn rn (uid_source prefix)))) \<and>
    (\<forall>v. v \<noteq> holder \<and> v \<noteq> uid \<longrightarrow> map_of (mgr_users m') v = map_of (mgr_users m) v)"
proof -
  obtain m' calls where h: "uid_handler hash now prefix [nick, hops, tstr, un, hn, uid, ms, rn] m = Inr (m', calls)"
    and users: "map_of (mgr_users m') = (map_of (mgr_users m))
      (holder := (if u_last_modified u < base then Some u else None),
       uid := (if base < u_last_modified u
         then Some (merged_user (uid_to_crdt hash uid nick t ms un hn rn (uid_source prefix)) m) else None))"
    unfolding base_def by (rule uid_handler_collision [OF assms(2-6)])
  have "map_of (mgr_users m) uid = None \<Longrightarrow> merged_user (uid_to_crdt hash uid nick t ms un hn rn (uid_source prefix)) m =
      user_from_crdt (uid_to_crdt hash uid nick t ms un hn rn (uid_source prefix))"
    by (simp add: merged_user_def user_of_def uid_to_crdt_fields)
  then show ?thesis using assms(5) by (intro exI [of _ m'] exI [of _ calls]) (simp add: h users)
qed

lemma parse_digit: "parse_uint (2 ^ 32 - 1) ''1'' = Some 1" "parse_uint (2 ^ 64 - 1) ''3'' = Some 3"
proof -
  have d: "show_nat 1 = ''1''" "show_nat 3 = ''3''" by code_simp+
  show "parse_uint (2 ^ 32 - 1) ''1'' = Some 1" using parse_show [of 1 "2 ^ 32 - 1"] unfolding d by simp
  show "parse_uint (2 ^ 64 - 1) ''3'' = Some 3" using parse_show [of 3 "2 ^ 64 - 1"] unfolding d by simp
qed

theorem uid_collision_witness:
  "\<exists>m' calls. uid_handler (\<lambda>_. 7) 20 None
      [''Alice'', ''1'', ''3'', ''u'', ''h'', ''002AAAAAB'', ''+i'', ''r''] sample_mgr = Inr (m', calls) \<and>
    map_of (mgr_users m') ''001AAAAAB'' = None \<and> map_of (mgr_users m') ''002AAAAAB'' \<noteq> None"
proof -
  have t: "map_of (mgr_nicks sample_mgr) (irc_to_lower ''Alice'') = Some [''001AAAAAB'', ''001AAAAAB'']"
    "map_of (mgr_users sample_mgr) ''001AAAAAB'' = Some (sample_user ''001AAAAAB'' ''Alice'' 5)"
    by (simp_all add: sample_mgr_tables)
  have ts: "ht_new (\<lambda>_. 7) (sint (of_nat 3 :: 64 word)) 0 s < u_last_modified (sample_user ''001AAAAAB'' ''Alice'' 5)" for s
    by (simp add: ht_new_def sample_user_def user_new_def ht_less_iff)
  note ts' = ts less_not_sym [OF ts]
  have "''001AAAAAB'' \<noteq> ''002AAAAAB''" by simp
  from uid_collision [OF parse_digit t(1) this t(2), where hash = "\<lambda>_. 7" and prefix = None and now = 20 and un = "''u''"
      and hn = "''h''" and ms = "''+i''" and rn = "''r''"]
  show ?thesis by (elim exE conjE) (intro exI conjI, assumption, simp_all only: ts' if_False not_True_eq_False refl simp_thms)
qed

text \<open>The line a burst sends for a user is read back with the user's creation time in seconds.\<close>

lemma burst_line_parses:
  assumes "0 \<le> n" "n < 2 ^ 63"
  shows "parse_uint (2 ^ 64 - 1) (show_i64 n) = Some (nat n)" "sint (of_nat (nat n) :: 64 word) = n"
proof -
  have "nat n \<le> 2 ^ 64 - 1" using assms by (simp add: nat_le_iff)
  then show "parse_uint (2 ^ 64 - 1) (show_i64 n) = Some (nat n)"
    using assms(1) parse_show [of "nat n" "2 ^ 64 - 1"] by (simp add: show_i64_def)
  have "(of_nat (nat n) :: 64 word) = word_of_int n" using assms(1) by simp
  then show "sint (of_nat (nat n) :: 64 word) = n"
    using assms by (simp add: sint_uint uint_word_of_int signed_take_bit_int_eq_self take_bit_int_eq_self)
qed

lemma burst_line_collision:
  assumes "0 \<le> u_created_at y" "u_created_at y < 2 ^ 63" "u_created_at y < millis (u_last_modified x)"
    and "map_of (mgr_nicks a) (irc_to_lower (u_nick y)) = Some (u_uid x # rest)"
    and "u_uid x \<noteq> u_uid y" "map_of (mgr_users a) (u_uid x) = Some x"
  obtains a' calls where "uid_handler hash now prefix (burst_user_line y) a = Inr (a', calls)"
    "map_of (mgr_users a') (u_uid x) = None" "map_of (mgr_users a') (u_uid y) \<noteq> None"
proof -
  have older: "ht_new hash (u_created_at y) 0 s < u_last_modified x" for s
    using assms(3) by (simp add: ht_new_def ht_less_iff)
  note older' = older less_not_sym [OF older]
  show thesis
    by (rule uid_handler_collision [OF parse_digit(1) burst_line_parses(1) [OF assms(1,2)] assms(4-6), of hash now prefix
          "u_user y" "u_visible_host y" "as_mode_string (u_modes y)" "u_realname y"])
      (rule that, unfold burst_user_line_def, assumption,
        use assms(5) in \<open>simp_all only: burst_line_parses(2) [OF assms(1,2)] older' fun_upd_same fun_upd_other if_True if_False\<close>,
        simp_all)
qed

text \<open>C25. Two servers that hold colliding users and burst them to each other end with each other's user: the
  line carries the creation time in seconds, the receiver compares it with the milliseconds of its own
  user's timestamp, so each side takes the other's user for the older one and removes its own.  This
  holds whenever both creation times are after 1970 and below the other's timestamp in milliseconds.
\<close>

theorem burst_collision_diverges:
  assumes "map_of (mgr_users a) (u_uid x) = Some x" "map_of (mgr_users b) (u_uid y) = Some y" "u_uid x \<noteq> u_uid y"
    and "map_of (mgr_nicks a) (irc_to_lower (u_nick y)) = Some (u_uid x # v)"
    and "map_of (mgr_nicks b) (irc_to_lower (u_nick x)) = Some (u_uid y # w)"
    and "\<not> starts_with (u_uid x) sid_b" "\<not> starts_with (u_uid y) sid_a"
    and "0 \<le> u_created_at x" "u_created_at x < 2 ^ 63" "u_created_at x < millis (u_last_modified y)"
    and "0 \<le> u_created_at y" "u_created_at y < 2 ^ 63" "u_created_at y < millis (u_last_modified x)"
  shows "\<exists>line_x line_y a' b' calls calls'.
    line_x \<in> set (burst_users sid_b a) \<and> line_y \<in> set (burst_users sid_a b) \<and>
    uid_handler hash now prefix line_y a = Inr (a', calls) \<and> uid_handler hash now' prefix' line_x b = Inr (b', calls') \<and>
    map_of (mgr_users a') (u_uid x) = None \<and> map_of (mgr_users a') (u_uid y) \<noteq> None \<and>
    map_of (mgr_users b') (u_uid y) = None \<and> map_of (mgr_users b') (u_uid x) \<noteq> None"
proof -
  have lines: "burst_user_line x \<in> set (burst_users sid_b a)" "burst_user_line y \<in> set (burst_users sid_a b)"
    using assms(6,7) map_of_SomeD [OF assms(1)] map_of_SomeD [OF assms(2)]
    by (force simp: burst_users_def)+
  obtain a' calls where "uid_handler hash now prefix (burst_user_line y) a = Inr (a', calls)"
    "map_of (mgr_users a') (u_uid x) = None" "map_of (mgr_users a') (u_uid y) \<noteq> None"
    by (rule burst_line_collision [OF assms(11-13) assms(4,3,1)])
  moreover obtain b' calls' where "uid_handler hash now' prefix' (burst_user_line x) b = Inr (b', calls')"
    "map_of (mgr_users b') (u_uid y) = None" "map_of (mgr_users b') (u_uid x) \<noteq> None"
    by (rule burst_line_collision [OF assms(8-10) assms(5) assms(3) [symmetric] assms(2)])
  ultimately show ?thesis using lines by blast
qed

definition old_mgr :: "string \<Rightarrow> string \<Rightarrow> int \<Rightarrow> user_manager" where
  "old_mgr sid uid ms = fst (add_local_user (sample_user uid ''Alice'' ms) (empty_mgr sid))"

lemma old_mgr_tables:
  "mgr_users (old_mgr sid uid ms) = [(uid, sample_user uid ''Alice'' ms)]" "mgr_nicks (old_mgr sid uid ms) = [(''alice'', [uid])]"
  by (simp_all add: old_mgr_def add_local_user_tables push_nick_def sample_user_def user_new_def)

lemma sample_user_fields:
  "u_uid (sample_user uid nick ms) = uid" "u_created_at (sample_user uid nick ms) = ms div 1000"
  "millis (u_last_modified (sample_user uid nick ms)) = ms"
  by (simp_all add: sample_user_def user_new_def)

theorem burst_collision_diverges_witness:
  "\<exists>line a' calls. line \<in> set (burst_users ''001'' (old_mgr ''002'' ''002AAAAAB'' 1700000009000)) \<and>
    uid_handler (\<lambda>_. 7) 20 None line (old_mgr ''001'' ''001AAAAAB'' 1700000005000) = Inr (a', calls) \<and>
    map_of (mgr_users a') ''001AAAAAB'' = None \<and> map_of (mgr_users a') ''002AAAAAB'' \<noteq> None"
  using burst_collision_diverges [where a = "old_mgr ''001'' ''001AAAAAB'' 1700000005000"
      and b = "old_mgr ''002'' ''002AAAAAB'' 1700000009000" and x = "sample_user ''001AAAAAB'' ''Alice'' 1700000005000"
      and y = "sample_user ''002AAAAAB'' ''Alice'' 1700000009000" and sid_a = "''001''" and sid_b = "''002''"
      and v = "[]" and w = "[]" and hash = "\<lambda>_. 7" and now = 20 and prefix = None and now' = 20 and prefix' = None]
  by (simp add: old_mgr_tables sample_user_fields starts_with_def) blast

end
