(* ===== verification/Spec2Isabelle.thy ===== *)
theory Spec2Isabelle
  imports Actor_Authority Actor_Delivery Actor_Invites Actor_Sync Command_Roundtrip Netsplit Uid Uid_Lines
begin

text \<open>
  \<^bold>\<open>slircd-ng, an IRC daemon in Rust: a verification library.\<close>

  \<^bold>\<open>The program.\<close>  A client's line is parsed into a message and a command
  (\<open>crates/slirc-proto\<close>).  Command handlers turn commands into events for channel actors
  (\<open>src/state/actor\<close>): each channel is one task that owns the channel's state, takes events from its
  mailbox one at a time, answers on a reply channel and sends messages to the sessions of its members.
  Users, nicknames and WHOWAS history are in the user manager (\<open>src/state/managers/user.rs\<close>).  Servers
  link to each other (\<open>src/sync\<close>): a handshake authenticates a peer, a burst sends it the known servers,
  users and channels, and from then on the servers exchange changes.  Shared state is kept in
  conflict-free replicated data types stamped with hybrid logical timestamps
  (\<open>crates/slirc-proto/src/sync\<close>).  When a link drops, the users behind it are removed.

  In what follows \<open>P\<close> is \<open>crates/slirc-proto/src\<close> and \<open>A\<close> is \<open>src/state/actor\<close>, both under the root of
  the sources.

  \<^bold>\<open>How the code is read.\<close>  \<open>Prelude\<close> fixes it: a \<open>String\<close> is the list of its UTF-8 bytes, a \<open>char\<close>
  the byte group of a scalar value, a \<open>HashMap\<close> an association list in iteration order, an integer a
  word of its width where it can wrap.  A method that mutates takes the state and returns the new one.
  An error is a value of a sum or option type, and so is a panic.  Effects (a send, a call of an
  observer, a row to save) are returned as a list in program order.  What comes from outside (clocks,
  random identifiers, hashes, Unicode's tables, tables of other tasks, outcomes of sends and of rate
  limiters) is an argument; the channel actor gets these in one record \<open>env\<close> per event.

  \<^bold>\<open>Protocol text and the wire.\<close>
  \<^item> \<open>Casemap\<close> (\<open>P/casemap.rs\<close>) and \<open>Text_Util\<close> (\<open>P/util.rs\<close>): truncation, splitting, wildcard matching.
    The backtracking matcher is compared with a reference definition of glob matching, and splitting
    ends with chunks that join to the message.
  \<^item> \<open>Proto_Text\<close> (\<open>P/prefix\<close>, \<open>P/message/tags.rs\<close>, \<open>P/nick.rs\<close>, \<open>P/chan.rs\<close>, \<open>P/ctcp.rs\<close>,
    \<open>P/colors.rs\<close>): escaping of tag values and its inverse, prefixes, names.
  \<^item> \<open>Mode_Types\<close> (\<open>P/mode\<close>): the letters of modes, under the contract \<open>mode_letters\<close>, and the parser of
    \<open>MODE\<close> arguments, which reads back what is printed.
  \<^item> \<open>Wire\<close> (\<open>P/message/nom_parser.rs\<close>, \<open>P/message/borrowed.rs\<close>, \<open>P/encode/message.rs\<close>): the line
    parser, what a parsed message satisfies, and that its printed form parses to the same message.
  \<^item> \<open>Command_Types\<close> (\<open>P/command/types.rs\<close>, \<open>subcommands\<close>, \<open>serialize.rs\<close>, \<open>util.rs\<close>,
    \<open>P/encode/command.rs\<close>): all commands and their two serializers as lists of calls on a sink.
    \<open>Command_Print\<close>: where the two serializers agree and which fields can break a line.
    \<open>Command_Parse\<close> (\<open>P/command/parse\<close>, \<open>P/response\<close>): \<open>Command::new\<close> with its modules.
    \<open>Command_Roundtrip\<close>, with \<open>Mode_Roundtrip\<close> for the arguments of \<open>MODE\<close>: a command read from a line
    prints as a line that reads back as that command, but for the listed commands that lose a field.
    A writer is a buffer that takes every write whole.

  \<^bold>\<open>Replicated data.\<close>
  \<^item> \<open>Clock\<close> (\<open>P/sync/clock.rs\<close>): timestamps, their order, vector clocks.
  \<^item> \<open>Crdt\<close> (\<open>P/sync/traits.rs\<close>): the contract \<open>replicated\<close>, registers and add-wins sets.  The contract
    gives convergence once; every type that implements \<open>Crdt\<close> is an interpretation of it.
  \<^item> \<open>Channel_Crdt\<close> (\<open>P/sync/channel.rs\<close>) and \<open>User_Crdt\<close> (\<open>P/sync/user.rs\<close>): the replicated channel
    and user, layer by layer, and their convergence.

  \<^bold>\<open>Channels.\<close>
  \<^item> \<open>Channel_State\<close> (\<open>src/state/channel.rs\<close>, \<open>A/types.rs\<close>, \<open>A/helpers\<close>, \<open>A/validation\<close>) and \<open>Extban\<close>
    (\<open>src/security/xlines.rs\<close>, \<open>src/security/mod.rs\<close>): modes, lists, bans.
  \<^item> \<open>Actor_Base\<close> (\<open>A/mod.rs\<close>, \<open>A/crdt.rs\<close>, \<open>A/handlers/broadcast.rs\<close>): the actor's record and tables.
    \<open>Actor_Handlers\<close> (\<open>A/handlers/join.rs\<close>, \<open>part_quit.rs\<close>, \<open>kick.rs\<close>, \<open>topic.rs\<close>, \<open>invite_knock.rs\<close>,
    \<open>metadata.rs\<close>), \<open>Actor_Modes\<close> (\<open>modes.rs\<close>), \<open>Actor_Remote\<close> (\<open>remote.rs\<close>), \<open>Actor_Message\<close>
    (\<open>message.rs\<close>): one definition per handler.  \<open>Channel_Actor\<close>: the dispatch \<open>handle_event\<close>, saving,
    and the loop \<open>run\<close>, as an instance of \<open>event_loop\<close>.
  \<^item> \<open>Actor_Invariant\<close>: the invariant and what keeps it.  \<open>Actor_Membership\<close>: the invariant of every
    reachable actor, joining, leaving, kicking and the end of a channel.  \<open>Actor_Authority\<close>: how a user
    can become operator.  \<open>Actor_Delivery\<close>: who gets a message, and that the cached fan-out equals the
    plain one.  \<open>Actor_Invites\<close>: invitations over time.  \<open>Actor_Sync\<close>: remote changes commute, by one
    locale \<open>lww_slot\<close> for the topic, every flag, the key and the limit.

  \<^bold>\<open>Users and servers.\<close>
  \<^item> \<open>User_State\<close> (\<open>src/state/user.rs\<close>), \<open>User_Manager\<close> (\<open>src/state/managers/user.rs\<close>, \<open>stats.rs\<close>),
    \<open>Nick_Registry\<close> (\<open>src/handlers/connection/nick.rs\<close>, \<open>welcome_burst.rs\<close>, \<open>src/handlers/admin.rs\<close>,
    \<open>src/services/effect.rs\<close>, \<open>src/network/connection/handshake.rs\<close>, \<open>src/state/matrix.rs\<close>): the user
    manager and all the handlers that write its index.  \<open>User_Tables\<close>: after any sequence of these every
    user is found under its nickname, except users whose welcome burst failed after they were stored,
    and the history is bounded.  The index is not exact: \<open>NICK\<close> claims a nickname before the user has it.
    \<open>Uid_Lines\<close> (\<open>src/handlers/server/uid.rs\<close>, the users of \<open>src/sync/burst.rs\<close>, \<open>observer.rs\<close>): what a
    \<open>UID\<close> line does in a nickname collision, and that two servers bursting colliding users to each other
    end with different users, because a line carries seconds and is compared with milliseconds.
    \<open>Uid\<close> (\<open>src/state/uid.rs\<close>): user identifiers do not repeat.
  \<^item> \<open>Handshake\<close> (\<open>src/sync/handshake.rs\<close>, the loops of \<open>src/sync/network.rs\<close>,
    \<open>src/config/links.rs\<close>): what a successful handshake implies, when it completes, and what each
    side of a link has recorded at the end.
  \<^item> \<open>Topology\<close> (\<open>src/sync/topology.rs\<close>, \<open>manager.rs\<close>, \<open>link.rs\<close>, the servers of \<open>burst.rs\<close>,
    \<open>src/handlers/server\<close>): routes and the servers behind a link.
  \<^item> \<open>Netsplit\<close> (\<open>src/sync/split.rs\<close>): the handler that composes topology, users, channels and sessions
    removes exactly the users behind the dead link.

  \<^bold>\<open>Bounds.\<close>  Loops of the code that recurse over data are total functions.  The searches of
  \<open>Topology\<close> carry the visited servers and are proved to end on every graph, cyclic ones included.
  \<open>next_hop 20\<close> of \<open>Actor_Message\<close> is the code's own \<open>for _ in 0..20\<close>.  Splitting a message
  need not end, so it is a partial function into options, and with a limit of at least four bytes, the
  longest UTF-8 character, it is proved to return.  Fifteen arguments in \<open>Wire\<close>, 36 to the power of six identifiers in \<open>Uid\<close>, the
  invitation and history limits and the handshake's time limit are the constants of the code.

  \<^bold>\<open>Not modelled.\<close>  Sockets, TLS, WebSocket and the connection loops (asynchronous I/O); the command
  handlers of \<open>src/handlers\<close> other than \<open>NICK\<close>, \<open>SANICK\<close>, \<open>SID\<close>, \<open>SERVER\<close> and \<open>UID\<close> (they check client
  state held in other tasks and send the events modelled here); the ban checks, replies and reattachment
  of the welcome burst; the channels and bans of a burst; SASL, ISUPPORT and
  client-side helpers; rate limiters, spam scores and reputation (floating point and an external
  crate); cloaking and passwords (external cryptography); services, database, history store
  (external storage); configuration, metrics and start-up.  Concurrent access to the shared tables is
  taken as sequential: an actor handles one event at a time, and the operations of the user manager
  and the handlers that write its tables run one after another.
\<close>

end
